theory Spec2Isabelle
  imports Main "HOL-Library.Char_ord"
begin

section \<open>Identifier validation pipeline (validate\_results.py)\<close>

text \<open>
  A shallow embedding of \<^verbatim>\<open>src/paper_data/validate_results.py\<close>.  The script talks to
  two web services (CACTUS through \<^verbatim>\<open>requests\<close> and \<^verbatim>\<open>cirpy\<close>, PubChem through
  \<^verbatim>\<open>requests\<close>), to the RDKit toolkit, to the clock (\<^verbatim>\<open>time.sleep\<close>), to the log and
  to three CSV writers.  All of these are made explicit:
  \<^item> the replies of the services and of the toolkit are fields of a record \<open>env\<close>;
    a network reply may depend on the moment of the request, counted by \<open>clock\<close>;
  \<^item> the mutable part (request counter, the external calls made, the sleeps done, the
    log, the rows written to each output file) is a record \<open>state\<close> that every function
    takes and returns;
  \<^item> a Python exception is a value \<open>Inl e\<close>; \<^verbatim>\<open>try/except Exception\<close> is the
    combinator \<open>try_except\<close>;
  \<^item> the two \<^verbatim>\<open>while True\<close> loops are partial functions into \<open>option\<close>: \<open>None\<close> is
    a run that never returns;
  \<^item> the input file is what \<^verbatim>\<open>csv.reader\<close> does at each step of its iteration: it
    yields a row or it raises.
\<close>

subsection \<open>Exceptions, strings, JSON values\<close>

text \<open>An exception object: its class name and \<^verbatim>\<open>str(e)\<close>.  Only subclasses of
  \<^verbatim>\<open>Exception\<close> are modelled (no \<^verbatim>\<open>KeyboardInterrupt\<close> or \<^verbatim>\<open>SystemExit\<close>).\<close>

datatype error = Exception (exc_type: string) (exc_str: string)

definition IndexError :: error where
  "IndexError = Exception ''IndexError'' ''list index out of range''"

definition StopIteration :: error where
  "StopIteration = Exception ''StopIteration'' ''''"

definition TypeError :: "string \<Rightarrow> error" where
  "TypeError m = Exception ''TypeError'' m"

definition KeyError :: "string \<Rightarrow> error" where
  "KeyError k = Exception ''KeyError'' k"

definition AttributeError :: "string \<Rightarrow> error" where
  "AttributeError m = Exception ''AttributeError'' m"

definition ValueError :: "string \<Rightarrow> error" where
  "ValueError m = Exception ''ValueError'' m"

definition OverflowError :: "string \<Rightarrow> error" where
  "OverflowError m = Exception ''OverflowError'' m"

text \<open>\<^verbatim>\<open>s.startswith(p)\<close> and \<^verbatim>\<open>needle in s\<close> on strings.\<close>

fun startswith :: "string \<Rightarrow> string \<Rightarrow> bool" where
  "startswith s [] = True"
| "startswith [] (p # ps) = False"
| "startswith (c # cs) (p # ps) = (c = p \<and> startswith cs ps)"

fun str_in :: "string \<Rightarrow> string \<Rightarrow> bool" where
  "str_in needle [] = (needle = [])"
| "str_in needle (c # cs) = (startswith (c # cs) needle \<or> str_in needle cs)"

text \<open>\<^verbatim>\<open>s.lower()\<close>, on the ASCII letters (a \<open>string\<close> is a list of bytes; the case
  mapping of other code points is not modelled).\<close>

definition char_lower :: "char \<Rightarrow> char" where
  "char_lower c =
     (if CHR ''A'' \<le> c \<and> c \<le> CHR ''Z'' then char_of (of_char c + (32::nat)) else c)"

definition lower :: "string \<Rightarrow> string" where
  "lower s = map char_lower s"

text \<open>The value of \<^verbatim>\<open>response.json()\<close>.  Numbers are integers here; an object keeps its
  members in the order of the text, and a repeated key takes its last value, as
  Python's \<^verbatim>\<open>dict\<close> does.\<close>

datatype json =
    JNull
  | JBool bool
  | JNum int
  | JStr string
  | JArr "json list"
  | JObj "(string \<times> json) list"

definition obj_get :: "(string \<times> json) list \<Rightarrow> string \<Rightarrow> json option" where
  "obj_get kvs k = map_of (rev kvs) k"

text \<open>\<^verbatim>\<open>k in v\<close> for a string \<open>k\<close>.\<close>

fun py_in :: "string \<Rightarrow> json \<Rightarrow> error + bool" where
  "py_in k (JObj kvs) = Inr (obj_get kvs k \<noteq> None)"
| "py_in k (JArr xs) = Inr (JStr k \<in> set xs)"
| "py_in k (JStr s) = Inr (str_in k s)"
| "py_in k v = Inl (TypeError ''argument is not iterable'')"

text \<open>\<^verbatim>\<open>v[k]\<close> for a string \<open>k\<close>.\<close>

fun py_getitem :: "json \<Rightarrow> string \<Rightarrow> error + json" where
  "py_getitem (JObj kvs) k = (case obj_get kvs k of None \<Rightarrow> Inl (KeyError k) | Some v \<Rightarrow> Inr v)"
| "py_getitem v k = Inl (TypeError ''indices must be integers or object is not subscriptable'')"

text \<open>\<^verbatim>\<open>len(v)\<close>.\<close>

fun py_len :: "json \<Rightarrow> error + nat" where
  "py_len (JObj kvs) = Inr (length (remdups (map fst kvs)))"
| "py_len (JArr xs) = Inr (length xs)"
| "py_len (JStr s) = Inr (length s)"
| "py_len v = Inl (TypeError ''object has no len()'')"

text \<open>\<^verbatim>\<open>v[0]\<close>.  A JSON object has string keys only, so the key \<open>0\<close> is never there.\<close>

fun py_getitem0 :: "json \<Rightarrow> error + json" where
  "py_getitem0 (JArr xs) = (case xs of [] \<Rightarrow> Inl IndexError | x # _ \<Rightarrow> Inr x)"
| "py_getitem0 (JStr s) = (case s of [] \<Rightarrow> Inl IndexError | c # _ \<Rightarrow> Inr (JStr [c]))"
| "py_getitem0 (JObj kvs) = Inl (KeyError ''0'')"
| "py_getitem0 v = Inl (TypeError ''object is not subscriptable'')"

text \<open>\<^verbatim>\<open>v.get(k)\<close>: only a \<^verbatim>\<open>dict\<close> has the method; a missing key gives \<^verbatim>\<open>None\<close>.\<close>

fun py_get :: "json \<Rightarrow> string \<Rightarrow> error + json" where
  "py_get (JObj kvs) k = (case obj_get kvs k of None \<Rightarrow> Inr JNull | Some v \<Rightarrow> Inr v)"
| "py_get v k = Inl (AttributeError ''object has no attribute get'')"

text \<open>Truth value of a JSON value in a condition.\<close>

fun truthy :: "json \<Rightarrow> bool" where
  "truthy JNull = False"
| "truthy (JBool b) = b"
| "truthy (JNum n) = (n \<noteq> 0)"
| "truthy (JStr s) = (s \<noteq> [])"
| "truthy (JArr xs) = (xs \<noteq> [])"
| "truthy (JObj kvs) = (kvs \<noteq> [])"

subsection \<open>Molecules, the outside world, the state\<close>

text \<open>An RDKit molecule, as far as the script looks into it: the atomic numbers of
  \<^verbatim>\<open>mol.GetAtoms()\<close>.  A molecule object is always true in a condition.\<close>

datatype mol = Mol (GetAtoms: "nat list")

text \<open>The reply to the liveness probe: the two attributes the script reads.\<close>

record response =
  ok :: bool
  status_code :: int

text \<open>
  The services and the toolkit.  The first argument of a network function is the
  number of requests made before this one.
  \<^item> \<open>requests_get_cactus\<close>: \<^verbatim>\<open>requests.get(cactus_url, timeout=10)\<close>;
  \<^item> \<open>cirpy_resolve\<close>: \<^verbatim>\<open>cirpy.resolve(identifier, 'smiles')\<close>, a string or \<^verbatim>\<open>None\<close>;
  \<^item> \<open>pubchem_json\<close>: \<^verbatim>\<open>requests.get(url, timeout=10).json()\<close> for the compound name;
  \<^item> \<open>MolFromSmiles\<close>, \<open>MolFromInchi\<close>: the parsers, a molecule or \<^verbatim>\<open>None\<close>;
  \<^item> \<open>MolToSmiles\<close>: the canonical SMILES of a molecule.
  Each of them may raise.  The last field, \<open>sleep_fault\<close>, is the exception with which
  \<^verbatim>\<open>time.sleep\<close> rejects a long interval on the platform at hand, if it does.
\<close>

record env =
  requests_get_cactus :: "nat \<Rightarrow> error + response"
  cirpy_resolve :: "nat \<Rightarrow> string \<Rightarrow> error + string option"
  pubchem_json :: "nat \<Rightarrow> string \<Rightarrow> error + json"
  MolFromSmiles :: "string \<Rightarrow> error + mol option"
  MolFromInchi :: "string \<Rightarrow> error + mol option"
  MolToSmiles :: "mol \<Rightarrow> error + string"
  sleep_fault :: "int \<Rightarrow> error option"

text \<open>The calls that leave the script, in the order they are made.\<close>

datatype call =
    CactusProbe
  | CirpyResolve string
  | PubchemGet string
  | CallMolFromSmiles string
  | CallMolFromInchi string
  | CallMolToSmiles mol

text \<open>The log: one constructor for each \<^verbatim>\<open>logging\<close> call of the script, with the values
  its message is formatted from (the text itself is not rendered).\<close>

datatype level = INFO | WARNING | ERROR

datatype message =
    CactusUp
  | CactusNonOk int int
  | CactusCheckError string int
  | CirpyDown string string
  | WaitingForCactus
  | InvalidSmiles string
  | SkippingSmiles string
  | InvalidInchi string
  | CirpyError string string
  | PubchemError string string
  | UnexpectedError string string string
  | PubchemFetched string json
  | PubchemNoSmiles string
  | PubchemNoValid string
  | PubchemFetchError string string
  | SkippingRow "string list"
  | WorkingOnRow "string list"
  | ValidCanonical string
  | InvalidCanonical string
  | ErrorProcessingRow "string list" string

record state =
  clock :: nat
  calls :: "call list"
  sleeps :: "int list"
  log :: "(level \<times> message) list"
  valid_out :: "string list list"
  invalid_out :: "string list list"
  no_info_out :: "string list list"

type_synonym 'a result = "((error + 'a) \<times> state) option"

definition logging :: "level \<Rightarrow> message \<Rightarrow> state \<Rightarrow> state" where
  "logging lvl m st = st\<lparr>log := log st @ [(lvl, m)]\<rparr>"

text \<open>A network request: recorded, and the request counter moves on.\<close>

definition request :: "call \<Rightarrow> state \<Rightarrow> state" where
  "request c st = st\<lparr>clock := Suc (clock st), calls := calls st @ [c]\<rparr>"

text \<open>A toolkit call: recorded.\<close>

definition toolkit :: "call \<Rightarrow> state \<Rightarrow> state" where
  "toolkit c st = st\<lparr>calls := calls st @ [c]\<rparr>"

text \<open>
  \<^verbatim>\<open>time.sleep(secs)\<close> for an integer \<open>secs\<close>.  CPython turns the argument into a signed
  64-bit count of nanoseconds and then refuses a negative one:
  \<^item> below \<open>-9223372036\<close> the conversion overflows (\<^verbatim>\<open>OverflowError\<close>), any other
    negative argument is a \<^verbatim>\<open>ValueError\<close>;
  \<^item> an interval of up to \<open>4294967\<close> seconds (a 32-bit count of milliseconds, the
    smallest limit among the implementations of the call) is slept on every platform;
  \<^item> a longer interval is slept or rejected, depending on the interpreter and the
    operating system (\<^verbatim>\<open>OverflowError\<close> above \<open>9223372036\<close> seconds, \<^verbatim>\<open>OSError\<close> from
    the system call on some systems): this is \<open>sleep_fault\<close>.
  Signals are not modelled.
\<close>

definition time_sleep :: "env \<Rightarrow> int \<Rightarrow> state \<Rightarrow> (error + unit) \<times> state" where
  "time_sleep env secs st =
     (if secs < 0 then
        (Inl (if secs < - 9223372036
              then OverflowError ''timestamp too large to convert to C _PyTime_t''
              else ValueError ''sleep length must be non-negative''), st)
      else if secs \<le> 4294967 then (Inr (), st\<lparr>sleeps := sleeps st @ [secs]\<rparr>)
      else (case sleep_fault env secs of
              Some e \<Rightarrow> (Inl e, st)
            | None \<Rightarrow> (Inr (), st\<lparr>sleeps := sleeps st @ [secs]\<rparr>)))"

subsection \<open>Results with exceptions\<close>

definition returns :: "'a \<Rightarrow> state \<Rightarrow> 'a result" where
  "returns v st = Some (Inr v, st)"

definition raises :: "error \<Rightarrow> state \<Rightarrow> 'a result" where
  "raises e st = Some (Inl e, st)"

text \<open>Sequencing: an exception of the first part skips the second.\<close>

definition then_do :: "'a result \<Rightarrow> ('a \<Rightarrow> state \<Rightarrow> 'b result) \<Rightarrow> 'b result" where
  "then_do m f =
     Option.bind m (\<lambda>(r, st). case r of Inl e \<Rightarrow> Some (Inl e, st) | Inr v \<Rightarrow> f v st)"

text \<open>\<^verbatim>\<open>try: m  except Exception as e: h\<close>.\<close>

definition try_except :: "'a result \<Rightarrow> (error \<Rightarrow> state \<Rightarrow> 'a result) \<Rightarrow> 'a result" where
  "try_except m h =
     Option.bind m (\<lambda>(r, st). case r of Inl e \<Rightarrow> h e st | Inr v \<Rightarrow> Some (Inr v, st))"

subsection \<open>wait\_for\_cactus\_service\<close>

text \<open>The \<^verbatim>\<open>try\<close> block of one round of the loop: \<open>True\<close> when it reached
  \<^verbatim>\<open>return\<close>, \<open>False\<close> when the round goes on to \<^verbatim>\<open>time.sleep\<close>.\<close>

definition probe_cactus :: "env \<Rightarrow> int \<Rightarrow> state \<Rightarrow> bool \<times> state" where
  "probe_cactus env wait_seconds st =
     (case requests_get_cactus env (clock st) of
        Inr resp \<Rightarrow>
          if ok resp then (True, logging INFO CactusUp (request CactusProbe st))
          else (False, logging WARNING (CactusNonOk (status_code resp) wait_seconds)
                         (request CactusProbe st))
      | Inl e \<Rightarrow>
          (False, logging WARNING (CactusCheckError (exc_str e) wait_seconds)
                    (request CactusProbe st)))"

partial_function (option) wait_for_cactus_service :: "env \<Rightarrow> int \<Rightarrow> state \<Rightarrow> unit result" where
  "wait_for_cactus_service env wait_seconds st =
     (let (up, st1) = probe_cactus env wait_seconds st in
      if up then Some (Inr (), st1)
      else (case time_sleep env wait_seconds st1 of
              (Inl e, st2) \<Rightarrow> Some (Inl e, st2)
            | (Inr u, st2) \<Rightarrow> wait_for_cactus_service env wait_seconds st2))"

declare wait_for_cactus_service.simps [code]

subsection \<open>resolve\_with\_cirpy\<close>

text \<open>The test on \<^verbatim>\<open>error_str\<close> that takes an exception of \<^verbatim>\<open>cirpy.resolve\<close> for an
  outage of CACTUS.\<close>

definition cactus_down :: "string \<Rightarrow> bool" where
  "cactus_down error_str =
     (str_in ''504'' error_str \<or> str_in ''timeout'' (lower error_str)
      \<or> str_in ''failed to establish a new connection'' (lower error_str))"

partial_function (option) resolve_with_cirpy :: "env \<Rightarrow> string \<Rightarrow> state \<Rightarrow> string option result" where
  "resolve_with_cirpy env identifier st =
     (case cirpy_resolve env (clock st) identifier of
        Inr smiles \<Rightarrow> Some (Inr smiles, request (CirpyResolve identifier) st)
      | Inl e \<Rightarrow>
          if cactus_down (exc_str e) then
            Option.bind
              (wait_for_cactus_service env 300
                 (logging INFO WaitingForCactus
                    (logging ERROR (CirpyDown identifier (exc_str e))
                       (request (CirpyResolve identifier) st))))
              (\<lambda>(r, st1). case r of
                   Inl e' \<Rightarrow> Some (Inl e', st1)
                 | Inr u \<Rightarrow> resolve_with_cirpy env identifier st1)
          else Some (Inl e, request (CirpyResolve identifier) st))"

declare resolve_with_cirpy.simps [code]

subsection \<open>fetch\_smiles\_from\_pubchem\<close>

definition bind_e :: "error + 'a \<Rightarrow> ('a \<Rightarrow> error + 'b) \<Rightarrow> error + 'b" where
  "bind_e r f = (case r of Inl e \<Rightarrow> Inl e | Inr v \<Rightarrow> f v)"

text \<open>A computation that does not touch the state.\<close>

definition outcome :: "error + 'a \<Rightarrow> state \<Rightarrow> 'a result" where
  "outcome r st = Some (r, st)"

text \<open>\<^verbatim>\<open>'PropertyTable' in data and 'Properties' in data['PropertyTable'] and
  len(data['PropertyTable']['Properties']) > 0\<close>, evaluated from the left.\<close>

definition has_properties :: "json \<Rightarrow> error + bool" where
  "has_properties data =
     bind_e (py_in ''PropertyTable'' data) (\<lambda>b1.
       if \<not> b1 then Inr False
       else bind_e (py_getitem data ''PropertyTable'') (\<lambda>t.
         bind_e (py_in ''Properties'' t) (\<lambda>b2.
           if \<not> b2 then Inr False
           else bind_e (py_getitem data ''PropertyTable'') (\<lambda>t'.
             bind_e (py_getitem t' ''Properties'') (\<lambda>ps.
               bind_e (py_len ps) (\<lambda>n. Inr (0 < n)))))))"

text \<open>\<^verbatim>\<open>data['PropertyTable']['Properties'][0].get('CanonicalSMILES')\<close>.\<close>

definition first_canonical_smiles :: "json \<Rightarrow> error + json" where
  "first_canonical_smiles data =
     bind_e (py_getitem data ''PropertyTable'') (\<lambda>t.
       bind_e (py_getitem t ''Properties'') (\<lambda>ps.
         bind_e (py_getitem0 ps) (\<lambda>p. py_get p ''CanonicalSMILES'')))"

definition fetch_smiles_from_pubchem :: "env \<Rightarrow> string \<Rightarrow> state \<Rightarrow> json option result" where
  "fetch_smiles_from_pubchem env name st =
     try_except
       (then_do (outcome (pubchem_json env (clock st) name) (request (PubchemGet name) st))
          (\<lambda>data st1.
             then_do (outcome (has_properties data) st1)
               (\<lambda>present st2.
                  if present then
                    then_do (outcome (first_canonical_smiles data) st2)
                      (\<lambda>smiles st3.
                         if truthy smiles then
                           returns (Some smiles) (logging INFO (PubchemFetched name smiles) st3)
                         else returns None (logging WARNING (PubchemNoSmiles name) st3))
                  else returns None (logging WARNING (PubchemNoValid name) st2))))
       (\<lambda>e st'. returns None (logging ERROR (PubchemFetchError name (exc_str e)) st'))"

subsection \<open>validate\_identifier\<close>

definition parse_smiles :: "env \<Rightarrow> string \<Rightarrow> state \<Rightarrow> mol option result" where
  "parse_smiles env s st = outcome (MolFromSmiles env s) (toolkit (CallMolFromSmiles s) st)"

definition parse_inchi :: "env \<Rightarrow> string \<Rightarrow> state \<Rightarrow> mol option result" where
  "parse_inchi env s st = outcome (MolFromInchi env s) (toolkit (CallMolFromInchi s) st)"

text \<open>First stage for a name: CIRpy.  \<open>Some m\<close> is \<^verbatim>\<open>return True, mol\<close>; \<open>None\<close> goes on
  to the next stage.\<close>

definition cirpy_stage :: "env \<Rightarrow> string \<Rightarrow> state \<Rightarrow> mol option result" where
  "cirpy_stage env identifier st =
     try_except
       (then_do (resolve_with_cirpy env identifier st)
          (\<lambda>smiles st1.
             case smiles of
               None \<Rightarrow> returns None st1
             | Some s \<Rightarrow> if s \<noteq> [] then parse_smiles env s st1 else returns None st1))
       (\<lambda>e st'. returns None (logging ERROR (CirpyError identifier (exc_str e)) st'))"

text \<open>Second stage: PubChem.  The parser takes a string only; any other true value
  makes it raise.\<close>

definition pubchem_stage :: "env \<Rightarrow> string \<Rightarrow> state \<Rightarrow> mol option result" where
  "pubchem_stage env identifier st =
     try_except
       (then_do (fetch_smiles_from_pubchem env identifier st)
          (\<lambda>pubchem_smiles st1.
             case pubchem_smiles of
               None \<Rightarrow> returns None st1
             | Some v \<Rightarrow>
                 if truthy v then
                   (case v of
                      JStr s \<Rightarrow> parse_smiles env s st1
                    | _ \<Rightarrow> raises (TypeError ''MolFromSmiles: argument is not a string'') st1)
                 else returns None st1))
       (\<lambda>e st'. returns None (logging ERROR (PubchemError identifier (exc_str e)) st'))"

text \<open>
  The three branches of the outer \<^verbatim>\<open>try\<close> block.  Each gives \<open>Some v\<close> where it runs
  \<^verbatim>\<open>return v\<close> and \<open>None\<close> where control falls out of the \<^verbatim>\<open>try\<close> to the last line,
  \<^verbatim>\<open>return False, None\<close>.
\<close>

definition smiles_branch :: "env \<Rightarrow> string \<Rightarrow> state \<Rightarrow> (bool \<times> mol option) option result" where
  "smiles_branch env identifier st =
     (if startswith identifier ''['' then
        then_do (parse_smiles env identifier st)
          (\<lambda>mol st1.
             returns (Some (mol \<noteq> None, mol))
               (if mol = None then logging ERROR (InvalidSmiles identifier) st1 else st1))
      else returns (Some (False, None)) (logging WARNING (SkippingSmiles identifier) st))"

definition inchi_branch :: "env \<Rightarrow> string \<Rightarrow> state \<Rightarrow> (bool \<times> mol option) option result" where
  "inchi_branch env identifier st =
     then_do (parse_inchi env identifier st)
       (\<lambda>mol st1.
          returns (Some (mol \<noteq> None, mol))
            (if mol = None then logging ERROR (InvalidInchi identifier) st1 else st1))"

definition iupac_branch :: "env \<Rightarrow> string \<Rightarrow> state \<Rightarrow> (bool \<times> mol option) option result" where
  "iupac_branch env identifier st =
     then_do (cirpy_stage env identifier st)
       (\<lambda>found st1.
          case found of
            Some m \<Rightarrow> returns (Some (True, Some m)) st1
          | None \<Rightarrow>
              then_do (pubchem_stage env identifier st1)
                (\<lambda>found' st2.
                   case found' of
                     Some m \<Rightarrow> returns (Some (True, Some m)) st2
                   | None \<Rightarrow> returns None st2))"

definition validate_identifier ::
    "env \<Rightarrow> string \<Rightarrow> string \<Rightarrow> state \<Rightarrow> (bool \<times> mol option) result" where
  "validate_identifier env identifier identifier_type st =
     (if identifier = ''null'' \<or> identifier = [] then returns (False, None) st
      else
        then_do
          (try_except
             (if identifier_type = ''smiles'' then smiles_branch env identifier st
              else if identifier_type = ''inchi'' then inchi_branch env identifier st
              else if identifier_type = ''iupac'' then iupac_branch env identifier st
              else returns None st)
             (\<lambda>e st'.
                returns None
                  (logging ERROR (UnexpectedError identifier_type identifier (exc_str e)) st')))
          (\<lambda>returned st'.
             case returned of
               Some v \<Rightarrow> returns v st'
             | None \<Rightarrow> returns (False, None) st'))"

subsection \<open>molecule\_has\_carbon\<close>

fun has_carbon_atom :: "nat list \<Rightarrow> bool" where
  "has_carbon_atom [] = False"
| "has_carbon_atom (atomic_num # atoms) = (if atomic_num = 6 then True else has_carbon_atom atoms)"

definition molecule_has_carbon :: "mol option \<Rightarrow> bool" where
  "molecule_has_carbon mol =
     (case mol of None \<Rightarrow> False | Some m \<Rightarrow> has_carbon_atom (GetAtoms m))"

subsection \<open>process\_results\<close>

definition write_valid :: "string list \<Rightarrow> state \<Rightarrow> state" where
  "write_valid r st = st\<lparr>valid_out := valid_out st @ [r]\<rparr>"

definition write_invalid :: "string list \<Rightarrow> state \<Rightarrow> state" where
  "write_invalid r st = st\<lparr>invalid_out := invalid_out st @ [r]\<rparr>"

definition write_no_info :: "string list \<Rightarrow> state \<Rightarrow> state" where
  "write_no_info r st = st\<lparr>no_info_out := no_info_out st @ [r]\<rparr>"

definition yes_no :: "bool \<Rightarrow> string" where
  "yes_no b = (if b then ''Yes'' else ''No'')"

text \<open>The \<^verbatim>\<open>while i < 7\<close> loop over the columns 2..6: \<open>Inr True\<close> at the first field
  that is not \<^verbatim>\<open>'null'\<close>, \<open>Inr False\<close> when the loop ends, \<^verbatim>\<open>IndexError\<close> when the
  row ends before that.\<close>

function useful_info_from :: "string list \<Rightarrow> nat \<Rightarrow> error + bool" where
  "useful_info_from row i =
     (if i < 7 then
        (if i < length row then
           (if row ! i \<noteq> ''null'' then Inr True else useful_info_from row (i + 1))
         else Inl IndexError)
      else Inr False)"
  by pat_completeness auto
termination
  by (relation "measure (\<lambda>(row, i). 7 - i)") auto

text \<open>Lines 207 to 216: the three attempts, in order, each one only when those before
  it failed.  The result is the three pairs \<open>(valid, mol)\<close>.\<close>

definition resolve_formats ::
    "env \<Rightarrow> string \<Rightarrow> state
      \<Rightarrow> ((bool \<times> mol option) \<times> (bool \<times> mol option) \<times> (bool \<times> mol option)) result" where
  "resolve_formats env iupac st =
     then_do (validate_identifier env iupac ''iupac'' st)
       (\<lambda>(iupac_valid, iupac_mol) st1.
          if \<not> iupac_valid then
            then_do (validate_identifier env iupac ''smiles'' st1)
              (\<lambda>(smiles_valid, smiles_mol) st2.
                 if \<not> smiles_valid then
                   then_do (validate_identifier env iupac ''inchi'' st2)
                     (\<lambda>(inchi_valid, inchi_mol) st3.
                        returns ((iupac_valid, iupac_mol), (smiles_valid, smiles_mol),
                                 (inchi_valid, inchi_mol)) st3)
                 else returns ((iupac_valid, iupac_mol), (smiles_valid, smiles_mol),
                               (False, None)) st2)
          else returns ((iupac_valid, iupac_mol), (False, None), (False, None)) st1)"

text \<open>\<^verbatim>\<open>a or b\<close> on molecules: the first one that is not \<^verbatim>\<open>None\<close>.\<close>

definition mol_or :: "mol option \<Rightarrow> mol option \<Rightarrow> mol option" where
  "mol_or a b = (case a of Some m \<Rightarrow> Some m | None \<Rightarrow> b)"

definition mol_to_smiles :: "env \<Rightarrow> mol option \<Rightarrow> state \<Rightarrow> string result" where
  "mol_to_smiles env mol st =
     (case mol of
        None \<Rightarrow> raises (TypeError ''MolToSmiles: argument is None'') st
      | Some m \<Rightarrow> outcome (MolToSmiles env m) (toolkit (CallMolToSmiles m) st))"

text \<open>Lines 218 to 222: the three flags, from the results of the three attempts.\<close>

definition resolution_info ::
    "(bool \<times> mol option) \<times> (bool \<times> mol option) \<times> (bool \<times> mol option) \<Rightarrow> string list" where
  "resolution_info res =
     (case res of ((iupac_valid, iupac_mol), (smiles_valid, smiles_mol), (inchi_valid, inchi_mol)) \<Rightarrow>
        [yes_no iupac_valid, yes_no smiles_valid, yes_no inchi_valid])"

text \<open>Lines 218 to 245: the flags, the canonical SMILES, the carbon test, the write.\<close>

definition write_resolved ::
    "env \<Rightarrow> string list
      \<Rightarrow> (bool \<times> mol option) \<times> (bool \<times> mol option) \<times> (bool \<times> mol option)
      \<Rightarrow> state \<Rightarrow> unit result" where
  "write_resolved env row res st =
     (case res of ((iupac_valid, iupac_mol), (smiles_valid, smiles_mol), (inchi_valid, inchi_mol)) \<Rightarrow>
        if iupac_valid \<or> smiles_valid \<or> inchi_valid then
          let mol = mol_or iupac_mol (mol_or smiles_mol inchi_mol) in
          then_do (mol_to_smiles env mol st)
            (\<lambda>canonical_smiles st1.
               if molecule_has_carbon mol then
                 returns ()
                   (logging INFO (ValidCanonical canonical_smiles)
                      (write_valid ((canonical_smiles # row) @ resolution_info res) st1))
               else
                 returns ()
                   (logging INFO (InvalidCanonical canonical_smiles)
                      (write_invalid ((canonical_smiles # row) @ resolution_info res) st1)))
        else returns () (write_invalid (row @ resolution_info res) st))"

text \<open>Lines 205 to 245, the resolution step of a row.\<close>

definition resolve_row :: "env \<Rightarrow> string list \<Rightarrow> string \<Rightarrow> state \<Rightarrow> unit result" where
  "resolve_row env row iupac st =
     then_do (resolve_formats env iupac (logging INFO (WorkingOnRow row) st))
       (\<lambda>res st1. write_resolved env row res st1)"

text \<open>The body of the \<^verbatim>\<open>try\<close> of one row.  The row is changed (\<^verbatim>\<open>row.insert\<close>) only
  on the two paths that then write and log, where nothing raises, so the handler
  always sees the row as it was read.\<close>

definition process_row_body :: "env \<Rightarrow> string list \<Rightarrow> state \<Rightarrow> unit result" where
  "process_row_body env row st =
     (case row of
        [] \<Rightarrow> raises IndexError st
      | iupac # _ \<Rightarrow>
          if iupac = ''null'' \<or> iupac = ''failed'' then
            returns () (write_no_info (take 10 row) st)
          else
            then_do (outcome (useful_info_from row 2) st)
              (\<lambda>useful_info st1.
                 if \<not> useful_info then
                   returns () (write_no_info (take 10 row) (logging INFO (SkippingRow row) st1))
                 else resolve_row env row iupac st1))"

definition process_row :: "env \<Rightarrow> string list \<Rightarrow> state \<Rightarrow> unit result" where
  "process_row env row st =
     try_except (process_row_body env row st)
       (\<lambda>e st'.
          returns ()
            (write_invalid (row @ [''No'', ''No'', ''No''])
               (logging ERROR (ErrorProcessingRow row (exc_str e)) st')))"

text \<open>
  The input, as \<^verbatim>\<open>csv.reader(infile)\<close> hands it over: one item for each step of the
  iteration, in order.  \<open>Inr row\<close> is a step that yields the list of fields of a record
  (the empty list for a blank line); \<open>Inl e\<close> is a step that raises, as the reader does
  with \<^verbatim>\<open>csv.Error\<close> on a record it cannot parse and the file object with
  \<^verbatim>\<open>UnicodeDecodeError\<close> on bytes it cannot decode.  After the last item the
  iteration ends (\<^verbatim>\<open>StopIteration\<close>).
\<close>

type_synonym reader = "(error + string list) list"

text \<open>\<^verbatim>\<open>for row in reader:\<close> with the \<^verbatim>\<open>try\<close> inside it (lines 182 to 248).  The \<^verbatim>\<open>for\<close>
  statement is not inside any \<^verbatim>\<open>try\<close>: an exception of the reader ends the loop and
  leaves \<open>process_results\<close>.\<close>

fun process_rows :: "env \<Rightarrow> reader \<Rightarrow> state \<Rightarrow> unit result" where
  "process_rows env [] st = returns () st"
| "process_rows env (Inl e # rest) st = raises e st"
| "process_rows env (Inr row # rest) st =
     then_do (process_row env row st) (\<lambda>u st'. process_rows env rest st')"

text \<open>\<open>process_results\<close>.  The three files are opened for writing, so what they held
  before is gone; \<^verbatim>\<open>next(reader)\<close> reads the header, and raises where the reader does
  or the file is empty.  Faults of the file system (a missing input file, a directory
  that cannot be written) are not modelled.\<close>

definition process_results :: "env \<Rightarrow> reader \<Rightarrow> state \<Rightarrow> unit result" where
  "process_results env input st =
     (case input of
        [] \<Rightarrow> raises StopIteration (st\<lparr>valid_out := [], invalid_out := [], no_info_out := []\<rparr>)
      | Inl e # rest \<Rightarrow> raises e (st\<lparr>valid_out := [], invalid_out := [], no_info_out := []\<rparr>)
      | Inr first # rest \<Rightarrow>
          let headers = ''canonical_smiles''
                        # (first @ [''iupac_resolved'', ''smiles_resolved'', ''inchi_resolved''])
          in process_rows env rest
               (st\<lparr>valid_out := [headers], invalid_out := [headers],
                   no_info_out := [take 10 headers]\<rparr>))"

subsection \<open>Notions used in the statements\<close>

text \<open>The liveness probe made as request number \<open>t\<close> succeeds.\<close>

definition cactus_up :: "env \<Rightarrow> nat \<Rightarrow> bool" where
  "cactus_up env t =
     (case requests_get_cactus env t of Inr resp \<Rightarrow> ok resp | Inl e \<Rightarrow> False)"

text \<open>The reply of CIRpy to request number \<open>t\<close> is not taken for an outage of CACTUS.\<close>

definition cirpy_answers :: "env \<Rightarrow> nat \<Rightarrow> string \<Rightarrow> bool" where
  "cirpy_answers env t identifier =
     (case cirpy_resolve env t identifier of
        Inl e \<Rightarrow> \<not> cactus_down (exc_str e)
      | Inr smiles \<Rightarrow> True)"

text \<open>The run comes back to its caller, with a value or an exception.\<close>

definition halts :: "'a result \<Rightarrow> bool" where
  "halts m = (m \<noteq> None)"

text \<open>The run does not come back with an exception.\<close>

definition never_raises :: "'a result \<Rightarrow> bool" where
  "never_raises m = (case m of Some (Inl e, st) \<Rightarrow> False | _ \<Rightarrow> True)"

text \<open>The three output files hold the same rows in both states; a run leaves them so.\<close>

definition same_files :: "state \<Rightarrow> state \<Rightarrow> bool" where
  "same_files st st' =
     (valid_out st' = valid_out st \<and> invalid_out st' = invalid_out st
      \<and> no_info_out st' = no_info_out st)"

definition keeps_files :: "state \<Rightarrow> 'a result \<Rightarrow> bool" where
  "keeps_files st m = (case m of Some (r, st') \<Rightarrow> same_files st st' | None \<Rightarrow> True)"

text \<open>\<^verbatim>\<open>time.sleep\<close> sleeps the interval: it is not negative, and short enough for
  every platform or not rejected by the one at hand.\<close>

definition sleep_accepts :: "env \<Rightarrow> int \<Rightarrow> bool" where
  "sleep_accepts env secs =
     (0 \<le> secs \<and> (secs \<le> 4294967 \<or> sleep_fault env secs = None))"

text \<open>The rows that the reader yields before it raises or ends, and the exception it
  raises, if any.\<close>

fun rows_read :: "reader \<Rightarrow> string list list" where
  "rows_read [] = []"
| "rows_read (Inl e # rest) = []"
| "rows_read (Inr row # rest) = row # rows_read rest"

fun reader_fault :: "reader \<Rightarrow> error option" where
  "reader_fault [] = None"
| "reader_fault (Inl e # rest) = Some e"
| "reader_fault (Inr row # rest) = reader_fault rest"

text \<open>The three output files.\<close>

datatype stream = ValidFile | InvalidFile | NoInfoFile

text \<open>The three flags of a row for which one format resolved: one \<^verbatim>\<open>'Yes'\<close>.\<close>

definition one_yes :: "string list \<Rightarrow> bool" where
  "one_yes flags =
     (flags = [''Yes'', ''No'', ''No''] \<or> flags = [''No'', ''Yes'', ''No'']
      \<or> flags = [''No'', ''No'', ''Yes''])"

text \<open>\<open>x\<close> is the input row \<open>row\<close> with a new first field and, at the end, three flags
  of which one is \<^verbatim>\<open>'Yes'\<close>.\<close>

definition enriched_row :: "string list \<Rightarrow> string list \<Rightarrow> bool" where
  "enriched_row row x =
     (x \<noteq> [] \<and> take (length row) (tl x) = row \<and> one_yes (drop (length row) (tl x)))"

text \<open>What the file \<open>s\<close> may get for the input row \<open>row\<close>: its first ten fields in the
  no-info file; the enriched row in the valid file; the enriched row, or the row as
  read followed by three \<^verbatim>\<open>'No'\<close>, in the invalid file.\<close>

fun written_as :: "stream \<Rightarrow> string list \<Rightarrow> string list \<Rightarrow> bool" where
  "written_as NoInfoFile row x = (x = take 10 row)"
| "written_as ValidFile row x = enriched_row row x"
| "written_as InvalidFile row x = (enriched_row row x \<or> x = row @ [''No'', ''No'', ''No''])"

text \<open>\<open>ys\<close> is \<open>xs\<close> with one more element at the end, which is what the file \<open>s\<close> may
  get for \<open>row\<close>.\<close>

definition appended_row ::
    "stream \<Rightarrow> string list \<Rightarrow> string list list \<Rightarrow> string list list \<Rightarrow> bool" where
  "appended_row s row xs ys = (ys \<noteq> [] \<and> butlast ys = xs \<and> written_as s row (last ys))"

text \<open>Between two states, exactly one row was written, to exactly one of the three
  output files, and it is the input row \<open>row\<close> in the form that file gets.\<close>

definition wrote_row :: "string list \<Rightarrow> state \<Rightarrow> state \<Rightarrow> bool" where
  "wrote_row row st st' =
     ((appended_row ValidFile row (valid_out st) (valid_out st')
         \<and> invalid_out st' = invalid_out st \<and> no_info_out st' = no_info_out st)
      \<or> (valid_out st' = valid_out st
         \<and> appended_row InvalidFile row (invalid_out st) (invalid_out st')
         \<and> no_info_out st' = no_info_out st)
      \<or> (valid_out st' = valid_out st \<and> invalid_out st' = invalid_out st
         \<and> appended_row NoInfoFile row (no_info_out st) (no_info_out st')))"

text \<open>The three flag fields of a row of the valid or of the invalid file: its last
  three fields.\<close>

definition row_flags :: "string list \<Rightarrow> string list" where
  "row_flags x = drop (length x - 3) x"

text \<open>The rows that went to the file \<open>s\<close>, out of a list that says for each input row,
  in order, where it went and in which form.\<close>

definition rows_of :: "stream \<Rightarrow> (stream \<times> string list) list \<Rightarrow> string list list" where
  "rows_of s outs = map snd (filter (\<lambda>out. fst out = s) outs)"

text \<open>What the body of the \<^verbatim>\<open>try\<close> of one row may do to the files: the row written when
  it ends normally, nothing written when it raises.\<close>

definition body_effect :: "string list \<Rightarrow> state \<Rightarrow> 'a result \<Rightarrow> bool" where
  "body_effect row st m =
     (case m of
        None \<Rightarrow> True
      | Some (Inl e, st') \<Rightarrow> same_files st st'
      | Some (Inr v, st') \<Rightarrow> wrote_row row st st')"

text \<open>The row gets past the two no-info checks: its first field \<open>iupac\<close> is no
  placeholder and the loop over the columns 2 to 6 found useful information.\<close>

definition reaches_resolution :: "string list \<Rightarrow> string \<Rightarrow> bool" where
  "reaches_resolution row iupac =
     (row \<noteq> [] \<and> hd row = iupac \<and> iupac \<noteq> ''null'' \<and> iupac \<noteq> ''failed''
      \<and> useful_info_from row 2 = Inr True)"

subsection \<open>Sample worlds and sample rows\<close>

definition init_state :: state where
  "init_state = \<lparr>clock = 0, calls = [], sleeps = [], log = [],
                  valid_out = [], invalid_out = [], no_info_out = []\<rparr>"

text \<open>A world where CACTUS is up and nothing resolves; \<^verbatim>\<open>time.sleep\<close> rejects what
  does not fit the 64-bit count of nanoseconds.\<close>

definition nothing_env :: env where
  "nothing_env =
     \<lparr>requests_get_cactus = (\<lambda>t. Inr \<lparr>ok = True, status_code = 200\<rparr>),
      cirpy_resolve = (\<lambda>t s. Inr None),
      pubchem_json = (\<lambda>t s. Inr (JObj [(''Fault'', JObj [(''Code'', JStr ''PUGREST.NotFound'')])])),
      MolFromSmiles = (\<lambda>s. Inr None),
      MolFromInchi = (\<lambda>s. Inr None),
      MolToSmiles = (\<lambda>m. Inr []),
      sleep_fault =
        (\<lambda>secs. if 9223372036 < secs
                then Some (OverflowError ''timestamp too large to convert to C _PyTime_t'')
                else None)\<rparr>"

text \<open>A probe that fails twice (an exception, then status 503) and then succeeds;
  a probe that always gets status 503.\<close>

definition flaky_probe :: "nat \<Rightarrow> error + response" where
  "flaky_probe t =
     (if t = 0 then Inl (Exception ''ConnectionError'' ''connection refused'')
      else if t = 1 then Inr \<lparr>ok = False, status_code = 503\<rparr>
      else Inr \<lparr>ok = True, status_code = 200\<rparr>)"

definition down_probe :: "nat \<Rightarrow> error + response" where
  "down_probe t = Inr \<lparr>ok = False, status_code = 503\<rparr>"

text \<open>A toolkit whose parsers raise on every input.\<close>

definition raising_env :: env where
  "raising_env =
     nothing_env\<lparr>MolFromSmiles := (\<lambda>s. Inl (Exception ''RuntimeError'' ''parser failure'')),
                 MolFromInchi := (\<lambda>s. Inl (Exception ''RuntimeError'' ''parser failure''))\<rparr>"

text \<open>A small laboratory world: CIRpy knows aspirin and water; the toolkit parses
  their SMILES and the SMILES of the sodium cation, and the InChI of water.  PubChem
  knows nothing and CACTUS is up.\<close>

definition aspirin :: mol where
  "aspirin = Mol [6, 6, 8, 8, 6, 6, 6, 6, 6, 6, 6, 8, 8]"

definition lab_env :: env where
  "lab_env =
     nothing_env
       \<lparr>cirpy_resolve := (\<lambda>t s. if s = ''aspirin'' then Inr (Some ''CC(=O)Oc1ccccc1C(O)=O'')
                                else if s = ''water'' then Inr (Some ''O'')
                                else Inr None),
        MolFromSmiles := (\<lambda>s. if s = ''CC(=O)Oc1ccccc1C(O)=O'' then Inr (Some aspirin)
                                else if s = ''O'' then Inr (Some (Mol [8]))
                                else if s = ''[Na+]'' then Inr (Some (Mol [11]))
                                else Inr None),
        MolFromInchi := (\<lambda>s. if s = ''InChI=1S/H2O/h1H2'' then Inr (Some (Mol [8]))
                               else Inr None),
        MolToSmiles := (\<lambda>m. if m = aspirin then Inr ''CC(=O)Oc1ccccc1C(=O)O''
                              else if m = Mol [8] then Inr ''O''
                              else if m = Mol [11] then Inr ''[Na+]''
                              else Inl (Exception ''RuntimeError'' ''no canonical form''))\<rparr>"

text \<open>The laboratory world with a toolkit that cannot print any molecule.\<close>

definition brittle_env :: env where
  "brittle_env =
     lab_env\<lparr>MolToSmiles := (\<lambda>m. Inl (Exception ''RuntimeError'' ''no canonical form''))\<rparr>"

text \<open>Sample rows, one for each way a row can go, and the header of their file.\<close>

definition sample_header :: "string list" where
  "sample_header = [''name'', ''formula'', ''mp'', ''bp'', ''density'', ''solubility'', ''pka'',
                    ''notes'', ''page'', ''paper'']"

definition aspirin_row :: "string list" where
  "aspirin_row = [''aspirin'', '''', ''x'', ''null'', ''null'', ''null'', ''null'', '''', '''', ''ref123'']"

definition null_row :: "string list" where
  "null_row = [''null'', ''null'', ''null'', ''null'', ''null'', ''null'', ''null'', '''', '''', ''ref456'']"

definition water_row :: "string list" where
  "water_row = [''water'', '''', '''', '''', '''', '''', '''', '''', '''', ''ref789'']"

definition unknown_row :: "string list" where
  "unknown_row = [''unobtainium'', '''', ''null'', ''1'', ''null'', ''null'', ''null'', '''', '''', ''ref000'']"

definition bare_row :: "string list" where
  "bare_row = [''caffeine'', ''null'', ''null'', ''null'', ''null'', ''null'', ''null'', '''', '''', ''ref111'']"

definition sodium_row :: "string list" where
  "sodium_row = [''[Na+]'', '''', ''x'', ''null'', ''null'', ''null'', ''null'', '''', '''', ''ref222'']"

text \<open>An input file that the reader reads to the end: the header, six records (one of
  them a blank line).\<close>

definition sample_input :: reader where
  "sample_input =
     [Inr sample_header, Inr aspirin_row, Inr null_row, Inr water_row, Inr [], Inr unknown_row,
      Inr bare_row]"

text \<open>An input file whose third record the reader cannot parse (a field longer than
  the limit of the \<^verbatim>\<open>csv\<close> module), with a good record after it.\<close>

definition csv_Error :: error where
  "csv_Error = Exception ''_csv.Error'' ''field larger than field limit (131072)''"

definition faulty_input :: reader where
  "faulty_input = [Inr sample_header, Inr null_row, Inr water_row, Inl csv_Error, Inr aspirin_row]"

section \<open>Properties\<close>

subsection \<open>The availability loop\<close>

lemma probe_cactus_up:
  "fst (probe_cactus env ws st) = cactus_up env (clock st)"
  by (simp add: probe_cactus_def cactus_up_def split: sum.splits)

lemma probe_cactus_state:
  "clock (snd (probe_cactus env ws st)) = Suc (clock st)"
  "sleeps (snd (probe_cactus env ws st)) = sleeps st"
  "calls (snd (probe_cactus env ws st)) = calls st @ [CactusProbe]"
  "valid_out (snd (probe_cactus env ws st)) = valid_out st"
  "invalid_out (snd (probe_cactus env ws st)) = invalid_out st"
  "no_info_out (snd (probe_cactus env ws st)) = no_info_out st"
  by (simp_all add: probe_cactus_def logging_def request_def split: sum.splits)

lemma time_sleep_accepts:
  "sleep_accepts env ws \<Longrightarrow>
     time_sleep env ws st = (Inr (), st\<lparr>sleeps := sleeps st @ [ws]\<rparr>)"
  by (auto simp: time_sleep_def sleep_accepts_def)

lemma time_sleep_rejects:
  "\<not> sleep_accepts env ws \<Longrightarrow> \<exists>e. time_sleep env ws st = (Inl e, st)"
  by (auto simp: time_sleep_def sleep_accepts_def split: option.splits)

lemma sleep_accepts_300: "sleep_accepts env 300"
  by (simp add: sleep_accepts_def)

text \<open>With a sleep that does not fail, the loop has no way to raise.\<close>

lemma wait_no_raise_aux:
  assumes "wait_for_cactus_service env ws st = Some y"
  shows "sleep_accepts env ws \<longrightarrow> fst y = Inr ()"
proof (rule wait_for_cactus_service.raw_induct
    [where P = "\<lambda>env ws st y. sleep_accepts env ws \<longrightarrow> fst y = Inr ()", OF _ assms], goal_cases)
  case (1 f env ws st y)
  show ?case
  proof
    assume acc: "sleep_accepts env ws"
    obtain up st1 where p: "probe_cactus env ws st = (up, st1)" by force
    show "fst y = Inr ()"
    proof (cases up)
      case True
      with 1(2) p show ?thesis by auto
    next
      case False
      with 1(2) p have "f env ws (st1\<lparr>sleeps := sleeps st1 @ [ws]\<rparr>) = Some y"
        by (simp add: time_sleep_accepts[OF acc])
      from 1(1)[OF this] acc show ?thesis by simp
    qed
  qed
qed

lemma wait_no_raise:
  assumes "wait_for_cactus_service env ws st = Some (r, st')" and "sleep_accepts env ws"
  shows "r = Inr ()"
  using wait_no_raise_aux[OF assms(1)] assms(2) by simp

text \<open>A run of the loop that ends has seen a successful probe or an exception.\<close>

lemma wait_returns_up_aux:
  assumes "wait_for_cactus_service env ws st = Some y"
  shows "(\<exists>t\<ge>clock st. cactus_up env t) \<or> (\<exists>e. fst y = Inl e)"
proof (rule wait_for_cactus_service.raw_induct
    [where P = "\<lambda>env ws st y. (\<exists>t\<ge>clock st. cactus_up env t) \<or> (\<exists>e. fst y = Inl e)",
     OF _ assms], goal_cases)
  case (1 f env ws st y)
  obtain up st1 where p: "probe_cactus env ws st = (up, st1)" by force
  show ?case
  proof (cases up)
    case True
    then show ?thesis using probe_cactus_up[of env ws st] p by auto
  next
    case False
    show ?thesis
    proof (cases "sleep_accepts env ws")
      case rejected: False
      from time_sleep_rejects[OF rejected, of st1] obtain e
        where "time_sleep env ws st1 = (Inl e, st1)" by blast
      with 1(2) p \<open>\<not> up\<close> show ?thesis by auto
    next
      case acc: True
      let ?st2 = "st1\<lparr>sleeps := sleeps st1 @ [ws]\<rparr>"
      from 1(2) p \<open>\<not> up\<close> have "f env ws ?st2 = Some y"
        by (simp add: time_sleep_accepts[OF acc])
      from 1(1)[OF this] have "(\<exists>t\<ge>clock ?st2. cactus_up env t) \<or> (\<exists>e. fst y = Inl e)" .
      moreover have "clock ?st2 = Suc (clock st)"
        using probe_cactus_state(1)[of env ws st] p by simp
      ultimately show ?thesis by (metis Suc_leD)
    qed
  qed
qed

text \<open>After \<open>n\<close> failed probes and one good one the loop returns, having slept \<open>n\<close> times.\<close>

lemma wait_returns_after:
  assumes "sleep_accepts env ws"
    and "\<forall>t. clock st \<le> t \<and> t < clock st + n \<longrightarrow> \<not> cactus_up env t"
    and "cactus_up env (clock st + n)"
  shows "\<exists>st'. wait_for_cactus_service env ws st = Some (Inr (), st')
            \<and> sleeps st' = sleeps st @ replicate n ws \<and> clock st' = clock st + n + 1
            \<and> length (filter (\<lambda>c. c = CactusProbe) (calls st')) =
                length (filter (\<lambda>c. c = CactusProbe) (calls st)) + n + 1"
  using assms
proof (induction n arbitrary: st)
  case 0
  then show ?case
    using probe_cactus_up[of env ws st] probe_cactus_state[of env ws st]
    by (subst wait_for_cactus_service.simps) (auto split: prod.splits)
next
  case (Suc n)
  obtain up st1 where p: "probe_cactus env ws st = (up, st1)" by force
  have "\<not> up" using Suc.prems(2) probe_cactus_up[of env ws st] p by auto
  let ?st2 = "st1\<lparr>sleeps := sleeps st1 @ [ws]\<rparr>"
  have c: "clock ?st2 = Suc (clock st)" "sleeps ?st2 = sleeps st @ [ws]"
     "calls ?st2 = calls st @ [CactusProbe]"
    using probe_cactus_state[of env ws st] p by auto
  have "\<exists>st'. wait_for_cactus_service env ws ?st2 = Some (Inr (), st')
            \<and> sleeps st' = sleeps ?st2 @ replicate n ws \<and> clock st' = clock ?st2 + n + 1
            \<and> length (filter (\<lambda>c. c = CactusProbe) (calls st')) =
                length (filter (\<lambda>c. c = CactusProbe) (calls ?st2)) + n + 1"
    using Suc.prems by (intro Suc.IH) (auto simp: c)
  then obtain st' where s: "wait_for_cactus_service env ws ?st2 = Some (Inr (), st')"
     "sleeps st' = sleeps ?st2 @ replicate n ws" "clock st' = clock ?st2 + n + 1"
     "length (filter (\<lambda>c. c = CactusProbe) (calls st')) =
                length (filter (\<lambda>c. c = CactusProbe) (calls ?st2)) + n + 1" by blast
  have "wait_for_cactus_service env ws st = wait_for_cactus_service env ws ?st2"
    using p \<open>\<not> up\<close>
    by (subst wait_for_cactus_service.simps) (simp add: time_sleep_accepts[OF Suc.prems(1)])
  with s c show ?case by (auto simp: replicate_app_Cons_same)
qed

text \<open>
  For every interval that \<^verbatim>\<open>time.sleep\<close> sleeps, the loop never raises; while every
  probe from now on fails it does not return; and when the next \<open>n\<close> probes fail and
  the one after them succeeds, it returns after exactly \<open>n\<close> sleeps and \<open>n + 1\<close> probes.
\<close>

lemma wait_with_accepted_interval:
  assumes acc: "sleep_accepts env ws"
  shows "(\<forall>r st'. wait_for_cactus_service env ws st = Some (r, st') \<longrightarrow> r = Inr ())
       \<and> ((\<forall>t\<ge>clock st. \<not> cactus_up env t) \<longrightarrow>
            wait_for_cactus_service env ws st = None)
       \<and> ((\<forall>t. clock st \<le> t \<and> t < clock st + n \<longrightarrow> \<not> cactus_up env t)
            \<and> cactus_up env (clock st + n) \<longrightarrow>
            (\<exists>st'. wait_for_cactus_service env ws st = Some (Inr (), st')
                 \<and> sleeps st' = sleeps st @ replicate n ws
                 \<and> length (filter (\<lambda>c. c = CactusProbe) (calls st')) =
                     length (filter (\<lambda>c. c = CactusProbe) (calls st)) + n + 1))"
proof (intro conjI allI impI)
  fix r st' assume "wait_for_cactus_service env ws st = Some (r, st')"
  then show "r = Inr ()" using acc by (rule wait_no_raise)
next
  assume down: "\<forall>t\<ge>clock st. \<not> cactus_up env t"
  show "wait_for_cactus_service env ws st = None"
  proof (cases "wait_for_cactus_service env ws st")
    case None
    then show ?thesis .
  next
    case (Some y)
    from wait_returns_up_aux[OF Some] wait_no_raise_aux[OF Some] acc down
    show ?thesis by auto
  qed
next
  assume "(\<forall>t. clock st \<le> t \<and> t < clock st + n \<longrightarrow> \<not> cactus_up env t)
            \<and> cactus_up env (clock st + n)"
  then show "\<exists>st'. wait_for_cactus_service env ws st = Some (Inr (), st')
                 \<and> sleeps st' = sleeps st @ replicate n ws
                 \<and> length (filter (\<lambda>c. c = CactusProbe) (calls st')) =
                     length (filter (\<lambda>c. c = CactusProbe) (calls st)) + n + 1"
    using wait_returns_after[OF acc, of st n] by auto
qed

text \<open>
  Claim C7.  \<^verbatim>\<open>time.sleep(wait_seconds)\<close> stands after the \<^verbatim>\<open>try\<close> statement of the
  loop, not inside it, so the loop can raise only what that call raises, and the call
  raises only for an interval that it rejects.  Every call of the function in the
  program passes 300 seconds (lines 61 and 252; it is also the default value of the
  parameter), an interval that \<^verbatim>\<open>time.sleep\<close> sleeps.  So, as the program calls it:
  the loop never raises; while every probe from now on fails (an exception or a status
  that is not OK) it does not return; and when the next \<open>n\<close> probes fail and the one
  after them succeeds, it returns with no value after exactly \<open>n\<close> sleeps of 300
  seconds and \<open>n + 1\<close> probes.  With \<open>n = 2\<close>: two failures, two sleeps.
\<close>

theorem wait_for_cactus_service_blocks_until_up:
  "(\<forall>r st'. wait_for_cactus_service env 300 st = Some (r, st') \<longrightarrow> r = Inr ())
   \<and> ((\<forall>t\<ge>clock st. \<not> cactus_up env t) \<longrightarrow>
        wait_for_cactus_service env 300 st = None)
   \<and> ((\<forall>t. clock st \<le> t \<and> t < clock st + n \<longrightarrow> \<not> cactus_up env t)
        \<and> cactus_up env (clock st + n) \<longrightarrow>
        (\<exists>st'. wait_for_cactus_service env 300 st = Some (Inr (), st')
             \<and> sleeps st' = sleeps st @ replicate n 300
             \<and> length (filter (\<lambda>c. c = CactusProbe) (calls st')) =
                 length (filter (\<lambda>c. c = CactusProbe) (calls st)) + n + 1))"
  by (rule wait_with_accepted_interval[OF sleep_accepts_300])

theorem wait_for_cactus_service_blocks_until_up_witness:
  "wait_for_cactus_service (nothing_env\<lparr>requests_get_cactus := down_probe\<rparr>) 300 init_state = None
   \<and> map_option (\<lambda>(r, st'). (r, sleeps st'))
        (wait_for_cactus_service (nothing_env\<lparr>requests_get_cactus := flaky_probe\<rparr>) 300 init_state)
      = Some (Inr (), [300, 300])"
proof -
  note t = wait_for_cactus_service_blocks_until_up
  have down: "\<forall>t\<ge>clock init_state.
      \<not> cactus_up (nothing_env\<lparr>requests_get_cactus := down_probe\<rparr>) t"
    by (simp add: cactus_up_def down_probe_def)
  have flaky: "(\<forall>t. clock init_state \<le> t \<and> t < clock init_state + 2 \<longrightarrow>
        \<not> cactus_up (nothing_env\<lparr>requests_get_cactus := flaky_probe\<rparr>) t)
      \<and> cactus_up (nothing_env\<lparr>requests_get_cactus := flaky_probe\<rparr>) (clock init_state + 2)"
    by (simp add: cactus_up_def flaky_probe_def init_state_def)
  have a: "wait_for_cactus_service (nothing_env\<lparr>requests_get_cactus := down_probe\<rparr>) 300 init_state = None"
    using t[THEN conjunct2, THEN conjunct1, THEN mp, OF down] .
  obtain st' where b: "wait_for_cactus_service (nothing_env\<lparr>requests_get_cactus := flaky_probe\<rparr>) 300 init_state
       = Some (Inr (), st')" "sleeps st' = sleeps init_state @ replicate 2 300"
    using t[THEN conjunct2, THEN conjunct2, THEN mp, OF flaky]
    by blast
  from b(2) have "sleeps st' = [300, 300]"
    by (simp add: init_state_def numeral_2_eq_2)
  with a b(1) show ?thesis by simp
qed

lemma then_do_simps [simp]:
  "then_do None f = None"
  "then_do (Some (Inl e, st)) f = Some (Inl e, st)"
  "then_do (Some (Inr v, st)) f = f v st"
  "then_do (returns v st) f = f v st"
  "then_do (raises e st) f = raises e st"
  "then_do (outcome (Inr v) st) f = f v st"
  "then_do (outcome (Inl e) st) f = raises e st"
  by (simp_all add: then_do_def returns_def raises_def outcome_def)

lemma try_except_simps [simp]:
  "try_except None h = None"
  "try_except (Some (Inl e, st)) h = h e st"
  "try_except (Some (Inr v, st)) h = Some (Inr v, st)"
  "try_except (returns v st) h = returns v st"
  "try_except (raises e st) h = h e st"
  "try_except (outcome (Inr v) st) h = returns v st"
  "try_except (outcome (Inl e) st) h = h e st"
  by (simp_all add: try_except_def returns_def raises_def outcome_def)

lemma then_do_Some:
  "then_do m f = Some (r, st') \<longleftrightarrow>
     (\<exists>e. m = Some (Inl e, st') \<and> r = Inl e)
     \<or> (\<exists>v st1. m = Some (Inr v, st1) \<and> f v st1 = Some (r, st'))"
  by (cases m) (auto simp: then_do_def split: sum.splits)

lemma try_except_Some:
  "try_except m h = Some (r, st') \<longleftrightarrow>
     (\<exists>v. m = Some (Inr v, st') \<and> r = Inr v)
     \<or> (\<exists>e st1. m = Some (Inl e, st1) \<and> h e st1 = Some (r, st'))"
  by (cases m) (auto simp: try_except_def split: sum.splits)

lemma never_raises_simps [simp]:
  "never_raises None"
  "never_raises (Some (Inr v, st))"
  "\<not> never_raises (Some (Inl e, st))"
  "never_raises (returns v st)"
  "\<not> never_raises (raises e st)"
  "never_raises (outcome r st) \<longleftrightarrow> (\<exists>v. r = Inr v)"
  by (auto simp: never_raises_def returns_def raises_def outcome_def split: sum.splits)

lemma never_raises_Some: "never_raises m \<Longrightarrow> m = Some (r, st') \<Longrightarrow> \<exists>v. r = Inr v"
  by (cases r) (auto simp: never_raises_def)

lemma never_raises_then_do:
  assumes "never_raises m" and "\<And>v st. never_raises (f v st)"
  shows "never_raises (then_do m f)"
proof (cases m)
  case None
  then show ?thesis by simp
next
  case (Some p)
  obtain r st1 where p: "p = (r, st1)" by force
  show ?thesis
  proof (cases r)
    case (Inl e)
    with Some p assms(1) show ?thesis by simp
  next
    case (Inr v)
    with Some p assms(2)[of v st1] show ?thesis by simp
  qed
qed

lemma never_raises_try_except:
  assumes "\<And>e st. never_raises (h e st)"
  shows "never_raises (try_except m h)"
proof (cases m)
  case None
  then show ?thesis by simp
next
  case (Some p)
  obtain r st1 where p: "p = (r, st1)" by force
  show ?thesis
  proof (cases r)
    case (Inl e)
    with Some p assms[of e st1] show ?thesis by simp
  next
    case (Inr v)
    with Some p show ?thesis by simp
  qed
qed

lemma never_raises_fetch: "never_raises (fetch_smiles_from_pubchem env name st)"
  unfolding fetch_smiles_from_pubchem_def by (rule never_raises_try_except) simp

lemma never_raises_cirpy_stage: "never_raises (cirpy_stage env identifier st)"
  unfolding cirpy_stage_def by (rule never_raises_try_except) simp

lemma never_raises_pubchem_stage: "never_raises (pubchem_stage env identifier st)"
  unfolding pubchem_stage_def by (rule never_raises_try_except) simp

lemma never_raises_validate_identifier:
  "never_raises (validate_identifier env ident identifier_type st)"
  unfolding validate_identifier_def
  by (auto intro!: never_raises_then_do never_raises_try_except split: option.splits)

lemma same_files_refl [simp]: "same_files st st"
  by (simp add: same_files_def)

lemma same_files_trans: "same_files a b \<Longrightarrow> same_files b c \<Longrightarrow> same_files a c"
  by (simp add: same_files_def)

lemma same_files_steps [simp]:
  "same_files st (logging lvl m st') = same_files st st'"
  "same_files st (request c st') = same_files st st'"
  "same_files st (toolkit c st') = same_files st st'"
  "same_files (logging lvl m st) st' = same_files st st'"
  "same_files (request c st) st' = same_files st st'"
  "same_files (toolkit c st) st' = same_files st st'"
  by (simp_all add: same_files_def logging_def request_def toolkit_def)

lemma keeps_files_simps [simp]:
  "keeps_files st None"
  "keeps_files st (Some (r, st')) = same_files st st'"
  "keeps_files st (returns v st') = same_files st st'"
  "keeps_files st (raises e st') = same_files st st'"
  "keeps_files st (outcome r st') = same_files st st'"
  by (simp_all add: keeps_files_def returns_def raises_def outcome_def)

lemma keeps_files_Some: "keeps_files st m \<Longrightarrow> m = Some (r, st') \<Longrightarrow> same_files st st'"
  by (simp add: keeps_files_def)

lemma keeps_files_then_do:
  assumes "keeps_files st m" and "\<And>v st1. same_files st st1 \<Longrightarrow> keeps_files st (f v st1)"
  shows "keeps_files st (then_do m f)"
proof (cases m)
  case None
  then show ?thesis by simp
next
  case (Some p)
  obtain r st1 where p: "p = (r, st1)" by force
  show ?thesis
  proof (cases r)
    case (Inl e)
    with Some p assms(1) show ?thesis by simp
  next
    case (Inr v)
    with Some p assms(1) assms(2)[of st1 v] show ?thesis by simp
  qed
qed

lemma keeps_files_try_except:
  assumes "keeps_files st m" and "\<And>e st1. same_files st st1 \<Longrightarrow> keeps_files st (h e st1)"
  shows "keeps_files st (try_except m h)"
proof (cases m)
  case None
  then show ?thesis by simp
next
  case (Some p)
  obtain r st1 where p: "p = (r, st1)" by force
  show ?thesis
  proof (cases r)
    case (Inl e)
    with Some p assms(1) assms(2)[of st1 e] show ?thesis by simp
  next
    case (Inr v)
    with Some p assms(1) show ?thesis by simp
  qed
qed

lemma wait_same_files:
  assumes "wait_for_cactus_service env ws st = Some y"
  shows "same_files st (snd y)"
proof (rule wait_for_cactus_service.raw_induct
    [where P = "\<lambda>env ws st y. same_files st (snd y)", OF _ assms], goal_cases)
  case (1 f env ws st y)
  obtain up st1 where p: "probe_cactus env ws st = (up, st1)" by force
  have s1: "same_files st st1"
    using probe_cactus_state[of env ws st] p by (simp add: same_files_def)
  show ?case
  proof (cases up)
    case True
    with 1(2) p s1 show ?thesis by auto
  next
    case False
    show ?thesis
    proof (cases "sleep_accepts env ws")
      case rejected: False
      from time_sleep_rejects[OF rejected, of st1] obtain e
        where "time_sleep env ws st1 = (Inl e, st1)" by blast
      with 1(2) p \<open>\<not> up\<close> s1 show ?thesis by auto
    next
      case acc: True
      let ?st2 = "st1\<lparr>sleeps := sleeps st1 @ [ws]\<rparr>"
      from 1(2) p False have "f env ws ?st2 = Some y"
        by (simp add: time_sleep_accepts[OF acc])
      from 1(1)[OF this] s1 show ?thesis by (simp add: same_files_def)
    qed
  qed
qed

lemma keeps_files_wait: "keeps_files st (wait_for_cactus_service env ws st)"
  using wait_same_files[of env ws st] by (cases "wait_for_cactus_service env ws st") auto

lemma resolve_same_files:
  assumes "resolve_with_cirpy env identifier st = Some y"
  shows "same_files st (snd y)"
proof (rule resolve_with_cirpy.raw_induct
    [where P = "\<lambda>env identifier st y. same_files st (snd y)", OF _ assms], goal_cases)
  case (1 f env ident st y)
  show ?case
  proof (cases "cirpy_resolve env (clock st) ident")
    case (Inr smiles)
    with 1(2) show ?thesis by auto
  next
    case (Inl e)
    show ?thesis
    proof (cases "cactus_down (exc_str e)")
      case False
      with 1(2) Inl show ?thesis by auto
    next
      case True
      let ?st0 = "logging INFO WaitingForCactus
                    (logging ERROR (CirpyDown ident (exc_str e))
                       (request (CirpyResolve ident) st))"
      from 1(2) Inl True obtain r st1 where
        w: "wait_for_cactus_service env 300 ?st0 = Some (r, st1)" and
        k: "(case r of Inl e' \<Rightarrow> Some (Inl e', st1) | Inr u \<Rightarrow> f env ident st1) = Some y"
        by (auto simp: bind_eq_Some_conv)
      from wait_same_files[OF w] have s1: "same_files st st1" by simp
      show ?thesis
      proof (cases r)
        case (Inl e')
        with k s1 show ?thesis by auto
      next
        case (Inr u)
        with k have "f env ident st1 = Some y" by simp
        from 1(1)[OF this] s1 show ?thesis by (rule same_files_trans[rotated])
      qed
    qed
  qed
qed

lemma keeps_files_resolve: "keeps_files st (resolve_with_cirpy env ident st)"
  using resolve_same_files[of env ident st]
  by (cases "resolve_with_cirpy env ident st") auto

lemma keeps_files_weaken: "keeps_files st1 m \<Longrightarrow> same_files st st1 \<Longrightarrow> keeps_files st m"
  by (cases m) (auto intro: same_files_trans)

lemma keeps_files_fetch: "keeps_files st (fetch_smiles_from_pubchem env name st)"
  unfolding fetch_smiles_from_pubchem_def
  by (intro keeps_files_try_except keeps_files_then_do) (simp_all add: keeps_files_then_do)

lemma keeps_files_cirpy_stage: "keeps_files st (cirpy_stage env ident st)"
  unfolding cirpy_stage_def
  by (intro keeps_files_try_except keeps_files_then_do keeps_files_resolve)
     (simp_all add: parse_smiles_def split: option.splits)

lemma keeps_files_pubchem_stage: "keeps_files st (pubchem_stage env ident st)"
  unfolding pubchem_stage_def
  by (intro keeps_files_try_except keeps_files_then_do keeps_files_fetch)
     (simp_all add: parse_smiles_def split: option.splits json.splits)

lemma keeps_files_smiles_branch: "keeps_files st (smiles_branch env ident st)"
  unfolding smiles_branch_def
  by (auto intro!: keeps_files_then_do simp: parse_smiles_def)

lemma keeps_files_inchi_branch: "keeps_files st (inchi_branch env ident st)"
  unfolding inchi_branch_def
  by (auto intro!: keeps_files_then_do simp: parse_inchi_def)

lemma keeps_files_iupac_branch: "keeps_files st (iupac_branch env ident st)"
  unfolding iupac_branch_def
proof (rule keeps_files_then_do[OF keeps_files_cirpy_stage], goal_cases)
  case (1 found st1)
  have "keeps_files st1
          (then_do (pubchem_stage env ident st1)
             (\<lambda>found' st2.
                case found' of
                  Some m \<Rightarrow> returns (Some (True, Some m)) st2
                | None \<Rightarrow> returns None st2))"
    by (rule keeps_files_then_do[OF keeps_files_pubchem_stage]) (simp split: option.splits)
  with 1 show ?case
    by (cases found) (auto intro: keeps_files_weaken)
qed

lemma keeps_files_validate_identifier:
  "keeps_files st (validate_identifier env ident identifier_type st)"
  unfolding validate_identifier_def
  by (auto intro!: keeps_files_then_do keeps_files_try_except keeps_files_smiles_branch
        keeps_files_inchi_branch keeps_files_iupac_branch split: option.splits)

lemma smiles_branch_mol:
  "smiles_branch env ident st = Some (Inr (Some (b, mol)), st') \<Longrightarrow> b \<longleftrightarrow> mol \<noteq> None"
  unfolding smiles_branch_def
  by (auto simp: then_do_Some returns_def split: if_splits)

lemma inchi_branch_mol:
  "inchi_branch env ident st = Some (Inr (Some (b, mol)), st') \<Longrightarrow> b \<longleftrightarrow> mol \<noteq> None"
  unfolding inchi_branch_def
  by (auto simp: then_do_Some returns_def split: if_splits)

lemma iupac_branch_mol:
  "iupac_branch env ident st = Some (Inr (Some (b, mol)), st') \<Longrightarrow> b \<longleftrightarrow> mol \<noteq> None"
  unfolding iupac_branch_def
  by (auto simp: then_do_Some returns_def split: if_splits option.splits)

lemma validate_identifier_mol:
  assumes "validate_identifier env ident identifier_type st = Some (Inr (b, mol), st')"
  shows "b \<longleftrightarrow> mol \<noteq> None"
  using assms unfolding validate_identifier_def
  by (auto simp: then_do_Some try_except_Some returns_def
      dest: smiles_branch_mol inchi_branch_mol iupac_branch_mol
      split: if_splits option.splits)

subsection \<open>Runs that return\<close>

lemma resolve_answers:
  "cirpy_answers env (clock st) ident \<Longrightarrow>
     resolve_with_cirpy env ident st =
       Some (cirpy_resolve env (clock st) ident, request (CirpyResolve ident) st)"
  by (subst resolve_with_cirpy.simps) (simp add: cirpy_answers_def split: sum.splits)

lemma then_do_terminates:
  assumes "halts m" and "\<And>v st. halts (f v st)"
  shows "halts (then_do m f)"
proof -
  from assms(1) obtain r st1 where m: "m = Some (r, st1)" by (auto simp: halts_def)
  show ?thesis using m assms(2) by (cases r) (simp_all add: halts_def)
qed

lemma try_except_terminates:
  assumes "halts m" and "\<And>e st. halts (h e st)"
  shows "halts (try_except m h)"
proof -
  from assms(1) obtain r st1 where m: "m = Some (r, st1)" by (auto simp: halts_def)
  show ?thesis using m assms(2) by (cases r) (simp_all add: halts_def)
qed

lemma terminates_simps [simp]:
  "halts (returns v st)" "halts (raises e st)" "halts (outcome r st)" "halts (Some x)"
  by (simp_all add: halts_def returns_def raises_def outcome_def)

lemma fetch_terminates: "halts (fetch_smiles_from_pubchem env name st)"
  unfolding fetch_smiles_from_pubchem_def
  by (auto intro!: try_except_terminates then_do_terminates)

lemma pubchem_stage_terminates: "halts (pubchem_stage env ident st)"
  unfolding pubchem_stage_def
  by (intro try_except_terminates then_do_terminates fetch_terminates)
     (simp_all add: parse_smiles_def split: option.splits json.splits)

lemma cirpy_stage_terminates:
  "cirpy_answers env (clock st) ident \<Longrightarrow> halts (cirpy_stage env ident st)"
  unfolding cirpy_stage_def
  by (intro try_except_terminates then_do_terminates)
     (simp_all add: resolve_answers parse_smiles_def split: option.splits)

lemma smiles_branch_terminates: "halts (smiles_branch env ident st)"
  unfolding smiles_branch_def
  by (auto intro!: then_do_terminates simp: parse_smiles_def)

lemma inchi_branch_terminates: "halts (inchi_branch env ident st)"
  unfolding inchi_branch_def
  by (auto intro!: then_do_terminates simp: parse_inchi_def)

lemma iupac_branch_terminates:
  "cirpy_answers env (clock st) ident \<Longrightarrow> halts (iupac_branch env ident st)"
  unfolding iupac_branch_def
  by (intro then_do_terminates cirpy_stage_terminates)
     (auto intro!: then_do_terminates pubchem_stage_terminates split: option.splits)

lemma validate_identifier_terminates:
  assumes "identifier_type = ''iupac'' \<Longrightarrow> cirpy_answers env (clock st) ident"
  shows "halts (validate_identifier env ident identifier_type st)"
proof (cases "identifier_type = ''iupac''")
  case True
  with assms show ?thesis
    unfolding validate_identifier_def
    by (auto intro!: then_do_terminates try_except_terminates iupac_branch_terminates
        split: option.splits)
next
  case False
  then show ?thesis
    unfolding validate_identifier_def
    by (auto intro!: then_do_terminates try_except_terminates smiles_branch_terminates
          inchi_branch_terminates split: option.splits)
qed

lemma validate_identifier_returns:
  assumes "identifier_type = ''iupac'' \<Longrightarrow> cirpy_answers env (clock st) ident"
  shows "\<exists>v st'. validate_identifier env ident identifier_type st = Some (Inr v, st')"
proof -
  have "halts (validate_identifier env ident identifier_type st)"
    using assms by (rule validate_identifier_terminates)
  then obtain r st'
    where v: "validate_identifier env ident identifier_type st = Some (r, st')"
    by (auto simp: halts_def)
  from never_raises_Some[OF never_raises_validate_identifier v] v show ?thesis by blast
qed

subsection \<open>validate\_identifier and exceptions\<close>

lemma validate_smiles_raise:
  assumes "ident \<noteq> ''null''" "ident \<noteq> []" "startswith ident ''[''"
    and "MolFromSmiles env ident = Inl e"
  shows "validate_identifier env ident ''smiles'' st =
           Some (Inr (False, None),
                 logging ERROR (UnexpectedError ''smiles'' ident (exc_str e))
                   (toolkit (CallMolFromSmiles ident) st))"
  using assms
  by (simp add: validate_identifier_def smiles_branch_def parse_smiles_def returns_def)

lemma validate_inchi_raise:
  assumes "ident \<noteq> ''null''" "ident \<noteq> []" and "MolFromInchi env ident = Inl e"
  shows "validate_identifier env ident ''inchi'' st =
           Some (Inr (False, None),
                 logging ERROR (UnexpectedError ''inchi'' ident (exc_str e))
                   (toolkit (CallMolFromInchi ident) st))"
  using assms
  by (simp add: validate_identifier_def inchi_branch_def parse_inchi_def returns_def)

text \<open>
  Claim C6.  Whatever the services and the toolkit do, \<open>validate_identifier\<close> hands no
  exception to its caller, for any identifier and any format string.  For the formats
  \<^verbatim>\<open>'smiles'\<close> and \<^verbatim>\<open>'inchi'\<close> it always returns; for \<^verbatim>\<open>'iupac'\<close> it returns when
  CIRpy's reply is not taken for an outage (otherwise it waits for CACTUS).  An exception
  of the SMILES or InChI parser reaches the outermost handler, is logged at level ERROR
  and becomes the result \<open>(False, None)\<close>.
\<close>

theorem validate_identifier_never_raises:
  "never_raises (validate_identifier env ident identifier_type st)
   \<and> (identifier_type \<noteq> ''iupac'' \<or> cirpy_answers env (clock st) ident \<longrightarrow>
        (\<exists>v st'. validate_identifier env ident identifier_type st = Some (Inr v, st')))
   \<and> (ident \<noteq> ''null'' \<and> ident \<noteq> [] \<and> startswith ident ''[''
        \<and> MolFromSmiles env ident = Inl e \<longrightarrow>
        validate_identifier env ident ''smiles'' st =
          Some (Inr (False, None),
                logging ERROR (UnexpectedError ''smiles'' ident (exc_str e))
                  (toolkit (CallMolFromSmiles ident) st)))
   \<and> (ident \<noteq> ''null'' \<and> ident \<noteq> [] \<and> MolFromInchi env ident = Inl e \<longrightarrow>
        validate_identifier env ident ''inchi'' st =
          Some (Inr (False, None),
                logging ERROR (UnexpectedError ''inchi'' ident (exc_str e))
                  (toolkit (CallMolFromInchi ident) st)))"
proof (intro conjI impI)
  show "never_raises (validate_identifier env ident identifier_type st)"
    by (rule never_raises_validate_identifier)
next
  assume "identifier_type \<noteq> ''iupac'' \<or> cirpy_answers env (clock st) ident"
  then show "\<exists>v st'. validate_identifier env ident identifier_type st = Some (Inr v, st')"
    by (intro validate_identifier_returns) auto
next
  assume "ident \<noteq> ''null'' \<and> ident \<noteq> [] \<and> startswith ident ''[''
        \<and> MolFromSmiles env ident = Inl e"
  then show "validate_identifier env ident ''smiles'' st =
          Some (Inr (False, None),
                logging ERROR (UnexpectedError ''smiles'' ident (exc_str e))
                  (toolkit (CallMolFromSmiles ident) st))"
    by (intro validate_smiles_raise) simp_all
next
  assume "ident \<noteq> ''null'' \<and> ident \<noteq> [] \<and> MolFromInchi env ident = Inl e"
  then show "validate_identifier env ident ''inchi'' st =
          Some (Inr (False, None),
                logging ERROR (UnexpectedError ''inchi'' ident (exc_str e))
                  (toolkit (CallMolFromInchi ident) st))"
    by (intro validate_inchi_raise) simp_all
qed

theorem validate_identifier_never_raises_witness:
  "never_raises (validate_identifier raising_env ''[Na+]'' ''smiles'' init_state)
   \<and> validate_identifier raising_env ''[Na+]'' ''smiles'' init_state =
       Some (Inr (False, None),
             init_state\<lparr>calls := [CallMolFromSmiles ''[Na+]''],
                        log := [(ERROR, UnexpectedError ''smiles'' ''[Na+]'' ''parser failure'')]\<rparr>)
   \<and> validate_identifier raising_env ''[Na+]'' ''inchi'' init_state =
       Some (Inr (False, None),
             init_state\<lparr>calls := [CallMolFromInchi ''[Na+]''],
                        log := [(ERROR, UnexpectedError ''inchi'' ''[Na+]'' ''parser failure'')]\<rparr>)
   \<and> halts (validate_identifier raising_env ''[Na+]'' ''iupac'' init_state)"
proof -
  note t = validate_identifier_never_raises
    [where env = raising_env and ident = "''[Na+]''" and st = init_state
       and e = "Exception ''RuntimeError'' ''parser failure''"]
  have hs: "''[Na+]'' \<noteq> ''null'' \<and> ''[Na+]'' \<noteq> [] \<and> startswith ''[Na+]'' ''[''
      \<and> MolFromSmiles raising_env ''[Na+]'' = Inl (Exception ''RuntimeError'' ''parser failure'')"
    by (simp add: raising_env_def)
  have hi: "''[Na+]'' \<noteq> ''null'' \<and> ''[Na+]'' \<noteq> []
      \<and> MolFromInchi raising_env ''[Na+]'' = Inl (Exception ''RuntimeError'' ''parser failure'')"
    by (simp add: raising_env_def)
  have hc: "''iupac'' \<noteq> ''iupac'' \<or> cirpy_answers raising_env (clock init_state) ''[Na+]''"
    by (simp add: cirpy_answers_def raising_env_def nothing_env_def)
  have 1: "never_raises (validate_identifier raising_env ''[Na+]'' ''smiles'' init_state)"
    using t[where identifier_type = "''smiles''"] by blast
  have 2: "validate_identifier raising_env ''[Na+]'' ''smiles'' init_state =
       Some (Inr (False, None),
             logging ERROR (UnexpectedError ''smiles'' ''[Na+]''
                 (exc_str (Exception ''RuntimeError'' ''parser failure'')))
               (toolkit (CallMolFromSmiles ''[Na+]'') init_state))"
    using t[where identifier_type = "''smiles''"] hs by blast
  have 3: "validate_identifier raising_env ''[Na+]'' ''inchi'' init_state =
       Some (Inr (False, None),
             logging ERROR (UnexpectedError ''inchi'' ''[Na+]''
                 (exc_str (Exception ''RuntimeError'' ''parser failure'')))
               (toolkit (CallMolFromInchi ''[Na+]'') init_state))"
    using t[where identifier_type = "''inchi''"] hi by blast
  have 4: "halts (validate_identifier raising_env ''[Na+]'' ''iupac'' init_state)"
    using t[where identifier_type = "''iupac''"] hc by (auto simp: halts_def)
  show ?thesis
    unfolding 2 3 using 1 2 4
    by (simp add: logging_def toolkit_def init_state_def)
qed

subsection \<open>The columns 2 to 6\<close>

declare useful_info_from.simps [simp del]

lemma useful_info_from_eq:
  "useful_info_from row i =
     (if \<exists>j. i \<le> j \<and> j < 7 \<and> j < length row \<and> row ! j \<noteq> ''null''
          \<and> (\<forall>k. i \<le> k \<and> k < j \<longrightarrow> k < length row) then Inr True
      else if 7 \<le> i \<or> 7 \<le> length row then Inr False
      else Inl IndexError)"
proof (induction row i rule: useful_info_from.induct)
  case (1 row i)
  show ?case
  proof (cases "i < 7 \<and> i < length row \<and> row ! i = ''null''")
    case False
    then consider "7 \<le> i" | "i < 7" "length row \<le> i"
      | "i < 7" "i < length row" "row ! i \<noteq> ''null''"
      by (meson not_less)
    then show ?thesis
    proof cases
      case 1
      then have "\<not> (\<exists>j. i \<le> j \<and> j < 7 \<and> j < length row \<and> row ! j \<noteq> ''null''
          \<and> (\<forall>k. i \<le> k \<and> k < j \<longrightarrow> k < length row))" by auto
      moreover have "useful_info_from row i = Inr False"
        using 1 by (subst useful_info_from.simps) simp
      ultimately show ?thesis using 1 by simp
    next
      case 2
      then have "\<not> (\<exists>j. i \<le> j \<and> j < 7 \<and> j < length row \<and> row ! j \<noteq> ''null''
          \<and> (\<forall>k. i \<le> k \<and> k < j \<longrightarrow> k < length row))" by auto
      moreover have "useful_info_from row i = Inl IndexError"
        using 2 by (subst useful_info_from.simps) simp
      ultimately show ?thesis using 2 by simp
    next
      case 3
      then have "\<exists>j. i \<le> j \<and> j < 7 \<and> j < length row \<and> row ! j \<noteq> ''null''
          \<and> (\<forall>k. i \<le> k \<and> k < j \<longrightarrow> k < length row)"
        by (intro exI[of _ i]) auto
      moreover have "useful_info_from row i = Inr True"
        using 3 by (subst useful_info_from.simps) simp
      ultimately show ?thesis by simp
    qed
  next
    case True
    then have IH: "useful_info_from row (i + 1) =
       (if \<exists>j. i + 1 \<le> j \<and> j < 7 \<and> j < length row \<and> row ! j \<noteq> ''null''
          \<and> (\<forall>k. i + 1 \<le> k \<and> k < j \<longrightarrow> k < length row) then Inr True
        else if 7 \<le> i + 1 \<or> 7 \<le> length row then Inr False
        else Inl IndexError)"
      by (intro 1) simp_all
    have step: "useful_info_from row i = useful_info_from row (i + 1)"
      using True by (subst useful_info_from.simps) simp
    have ex: "(\<exists>j. i \<le> j \<and> j < 7 \<and> j < length row \<and> row ! j \<noteq> ''null''
          \<and> (\<forall>k. i \<le> k \<and> k < j \<longrightarrow> k < length row))
        \<longleftrightarrow> (\<exists>j. i + 1 \<le> j \<and> j < 7 \<and> j < length row \<and> row ! j \<noteq> ''null''
          \<and> (\<forall>k. i + 1 \<le> k \<and> k < j \<longrightarrow> k < length row))" (is "?L \<longleftrightarrow> ?R")
    proof
      assume ?L
      then obtain j where j: "i \<le> j" "j < 7" "j < length row" "row ! j \<noteq> ''null''"
        "\<forall>k. i \<le> k \<and> k < j \<longrightarrow> k < length row" by blast
      with True have "j \<noteq> i" by auto
      with j show ?R by (intro exI[of _ j]) auto
    next
      assume ?R
      then obtain j where j: "i + 1 \<le> j" "j < 7" "j < length row" "row ! j \<noteq> ''null''"
        "\<forall>k. i + 1 \<le> k \<and> k < j \<longrightarrow> k < length row" by blast
      have "\<forall>k. i \<le> k \<and> k < j \<longrightarrow> k < length row"
      proof (intro allI impI)
        fix k assume "i \<le> k \<and> k < j"
        then show "k < length row" using j(5) True by (cases "k = i") auto
      qed
      with j show ?L by (intro exI[of _ j]) auto
    qed
    have side: "7 \<le> i + 1 \<or> 7 \<le> length row \<longleftrightarrow> 7 \<le> i \<or> 7 \<le> length row"
      using True by auto
    show ?thesis unfolding step IH ex side ..
  qed
qed

lemma useful_info_from_long:
  assumes "7 \<le> length row"
  shows "useful_info_from row 2 = Inr (\<exists>j. 2 \<le> j \<and> j < 7 \<and> row ! j \<noteq> ''null'')"
proof -
  have len: "k < length row" if "k < 7" for k
    using that assms by simp
  have "(\<exists>j. 2 \<le> j \<and> j < 7 \<and> j < length row \<and> row ! j \<noteq> ''null''
          \<and> (\<forall>k. 2 \<le> k \<and> k < j \<longrightarrow> k < length row))
       \<longleftrightarrow> (\<exists>j. 2 \<le> j \<and> j < 7 \<and> row ! j \<noteq> ''null'')" (is "?L \<longleftrightarrow> ?R")
  proof
    assume ?L then show ?R by blast
  next
    assume ?R
    then obtain j where j: "2 \<le> j" "j < 7" "row ! j \<noteq> ''null''" by blast
    have "\<forall>k. 2 \<le> k \<and> k < j \<longrightarrow> k < length row"
      using j(2) len by (meson less_trans)
    with j len[OF j(2)] show ?L by blast
  qed
  moreover have "useful_info_from row 2 =
     (if \<exists>j. 2 \<le> j \<and> j < 7 \<and> j < length row \<and> row ! j \<noteq> ''null''
          \<and> (\<forall>k. 2 \<le> k \<and> k < j \<longrightarrow> k < length row) then Inr True
      else if (7::nat) \<le> 2 \<or> 7 \<le> length row then Inr False
      else Inl IndexError)"
    by (rule useful_info_from_eq)
  ultimately show ?thesis using assms by (simp only: if_True if_False split: if_splits) auto
qed

subsection \<open>What the three attempts return\<close>

lemma then_do_validate_Some:
  assumes "then_do (validate_identifier env ident ty st) f = Some (r, st')"
  shows "\<exists>b mol st1. validate_identifier env ident ty st = Some (Inr (b, mol), st1)
           \<and> f (b, mol) st1 = Some (r, st')"
proof -
  from assms[unfolded then_do_Some] consider
      e where "validate_identifier env ident ty st = Some (Inl e, st')"
    | v st1 where "validate_identifier env ident ty st = Some (Inr v, st1)"
        "f v st1 = Some (r, st')"
    by blast
  then show ?thesis
  proof cases
    case 1
    with never_raises_validate_identifier[of env ident ty st] show ?thesis by simp
  next
    case 2
    then show ?thesis by (cases v) auto
  qed
qed

lemma resolve_formats_shape:
  assumes "resolve_formats env ident st = Some (Inr ((iv, im), (sv, sm), (nv, nm)), st')"
  shows "(iv \<longleftrightarrow> im \<noteq> None) \<and> (sv \<longleftrightarrow> sm \<noteq> None) \<and> (nv \<longleftrightarrow> nm \<noteq> None)
         \<and> (iv \<longrightarrow> \<not> sv \<and> \<not> nv) \<and> (sv \<longrightarrow> \<not> nv)"
proof -
  from assms obtain iv0 im0 st1 where
    i: "validate_identifier env ident ''iupac'' st = Some (Inr (iv0, im0), st1)"
    unfolding resolve_formats_def by (auto dest!: then_do_validate_Some)
  note mi = validate_identifier_mol[OF i]
  show ?thesis
  proof (cases iv0)
    case True
    with assms i mi show ?thesis by (auto simp: resolve_formats_def returns_def)
  next
    case iF: False
    with assms i obtain sv0 sm0 st2 where
      s: "validate_identifier env ident ''smiles'' st1 = Some (Inr (sv0, sm0), st2)"
      unfolding resolve_formats_def by (auto dest!: then_do_validate_Some)
    note ms = validate_identifier_mol[OF s]
    show ?thesis
    proof (cases sv0)
      case True
      with assms i iF s mi ms show ?thesis by (auto simp: resolve_formats_def returns_def)
    next
      case sF: False
      with assms i iF s obtain nv0 nm0 st3 where
        n: "validate_identifier env ident ''inchi'' st2 = Some (Inr (nv0, nm0), st3)"
        unfolding resolve_formats_def by (auto dest!: then_do_validate_Some)
      note mn = validate_identifier_mol[OF n]
      from assms i iF s sF n mi ms mn show ?thesis
        by (auto simp: resolve_formats_def returns_def)
    qed
  qed
qed

lemma resolution_info_simp [simp]:
  "resolution_info ((iv, im), (sv, sm), (nv, nm)) = [yes_no iv, yes_no sv, yes_no nv]"
  by (simp add: resolution_info_def)

lemma one_yes_flags:
  "iv \<or> sv \<or> nv \<Longrightarrow> (iv \<longrightarrow> \<not> sv \<and> \<not> nv) \<and> (sv \<longrightarrow> \<not> nv) \<Longrightarrow>
     one_yes [yes_no iv, yes_no sv, yes_no nv]"
  by (cases iv; cases sv; cases nv) (simp_all add: one_yes_def yes_no_def)

lemma one_yes_at_most:
  "one_yes flags \<Longrightarrow> length flags = 3 \<and> length (filter (\<lambda>f. f = ''Yes'') flags) \<le> 1"
  by (auto simp: one_yes_def)

subsection \<open>One row\<close>

lemma enriched_row_iff:
  "enriched_row row x \<longleftrightarrow> (\<exists>c flags. x = (c # row) @ flags \<and> one_yes flags)"
proof
  assume e: "enriched_row row x"
  then obtain c y where x: "x = c # y" by (cases x) (auto simp: enriched_row_def)
  from e x have t: "take (length row) y = row" and o: "one_yes (drop (length row) y)"
    by (simp_all add: enriched_row_def)
  have "y = take (length row) y @ drop (length row) y" by simp
  with t have "y = row @ drop (length row) y" by simp
  with x o show "\<exists>c flags. x = (c # row) @ flags \<and> one_yes flags"
    by (intro exI[of _ c] exI[of _ "drop (length row) y"]) simp
next
  assume "\<exists>c flags. x = (c # row) @ flags \<and> one_yes flags"
  then show "enriched_row row x" by (auto simp: enriched_row_def)
qed

lemma enriched_row_snoc [simp]:
  "enriched_row row (c # row @ flags) = one_yes flags"
  by (simp add: enriched_row_def)

lemma appended_row_iff:
  "appended_row s row xs ys \<longleftrightarrow> (\<exists>x. ys = xs @ [x] \<and> written_as s row x)"
proof
  assume a: "appended_row s row xs ys"
  then have "ys = xs @ [last ys]"
    unfolding appended_row_def by (metis append_butlast_last_id)
  with a show "\<exists>x. ys = xs @ [x] \<and> written_as s row x"
    unfolding appended_row_def by blast
next
  assume "\<exists>x. ys = xs @ [x] \<and> written_as s row x"
  then show "appended_row s row xs ys" by (auto simp: appended_row_def)
qed

lemma appended_row_snoc [simp]: "appended_row s row xs (xs @ [x]) = written_as s row x"
  by (simp add: appended_row_def)

lemma wrote_row_writes:
  "same_files st st1 \<Longrightarrow> written_as ValidFile row x \<Longrightarrow> wrote_row row st (write_valid x st1)"
  "same_files st st1 \<Longrightarrow> written_as InvalidFile row x \<Longrightarrow> wrote_row row st (write_invalid x st1)"
  "same_files st st1 \<Longrightarrow> written_as NoInfoFile row x \<Longrightarrow> wrote_row row st (write_no_info x st1)"
  by (simp_all add: wrote_row_def same_files_def write_valid_def write_invalid_def
      write_no_info_def)

lemma wrote_row_logging [simp]:
  "wrote_row row st (logging lvl m st') = wrote_row row st st'"
  by (simp add: wrote_row_def logging_def)

lemma same_files_sym: "same_files a b \<Longrightarrow> same_files b a"
  by (simp add: same_files_def)

lemma body_effect_simps [simp]:
  "body_effect row st None"
  "body_effect row st (Some (Inl e, st')) = same_files st st'"
  "body_effect row st (Some (Inr v, st')) = wrote_row row st st'"
  "body_effect row st (returns v st') = wrote_row row st st'"
  "body_effect row st (raises e st') = same_files st st'"
  by (simp_all add: body_effect_def returns_def raises_def)

lemma body_effect_then_do:
  assumes "keeps_files st m"
    and "\<And>v st1. same_files st st1 \<Longrightarrow> body_effect row st (f v st1)"
  shows "body_effect row st (then_do m f)"
proof (cases m)
  case None
  then show ?thesis by simp
next
  case (Some p)
  obtain r st1 where p: "p = (r, st1)" by force
  show ?thesis
  proof (cases r)
    case (Inl e)
    with Some p assms(1) show ?thesis by simp
  next
    case (Inr v)
    with Some p assms(1) assms(2)[of st1 v] show ?thesis by simp
  qed
qed

lemma keeps_files_resolve_formats: "keeps_files st (resolve_formats env ident st)"
  unfolding resolve_formats_def
  by (auto intro!: keeps_files_then_do
        keeps_files_weaken[OF keeps_files_validate_identifier] keeps_files_validate_identifier)

lemma never_raises_resolve_formats: "never_raises (resolve_formats env ident st)"
  unfolding resolve_formats_def
  by (auto intro!: never_raises_then_do never_raises_validate_identifier)

lemma keeps_files_mol_to_smiles: "keeps_files st (mol_to_smiles env mol st)"
  by (simp add: mol_to_smiles_def split: option.splits)

lemma body_effect_write_resolved:
  assumes s: "same_files st st1"
    and shape: "(iv \<longrightarrow> \<not> sv \<and> \<not> nv) \<and> (sv \<longrightarrow> \<not> nv)"
  shows "body_effect row st (write_resolved env row ((iv, im), (sv, sm), (nv, nm)) st1)"
proof (cases "iv \<or> sv \<or> nv")
  case False
  with s show ?thesis
    by (simp add: write_resolved_def wrote_row_writes yes_no_def)
next
  case True
  note flags = one_yes_flags[OF True shape]
  have "body_effect row st
          (then_do (mol_to_smiles env (mol_or im (mol_or sm nm)) st1)
          (\<lambda>canonical_smiles st1.
             if molecule_has_carbon (mol_or im (mol_or sm nm)) then
               returns ()
                 (logging INFO (ValidCanonical canonical_smiles)
                    (write_valid ((canonical_smiles # row) @ [yes_no iv, yes_no sv, yes_no nv]) st1))
             else
               returns ()
                 (logging INFO (InvalidCanonical canonical_smiles)
                    (write_invalid ((canonical_smiles # row) @ [yes_no iv, yes_no sv, yes_no nv]) st1))))"
    by (rule body_effect_then_do[OF keeps_files_weaken[OF keeps_files_mol_to_smiles s]])
       (simp add: wrote_row_writes flags)
  with True show ?thesis by (simp add: write_resolved_def Let_def cong: if_cong)
qed

lemma body_effect_resolve_row: "body_effect row st (resolve_row env row iupac st)"
proof (cases "resolve_formats env iupac (logging INFO (WorkingOnRow row) st)")
  case None
  then show ?thesis by (simp add: resolve_row_def)
next
  case (Some p)
  obtain r st1 where p: "p = (r, st1)" by force
  have s: "same_files st st1"
    using keeps_files_resolve_formats[of "logging INFO (WorkingOnRow row) st" env iupac] Some p
    by simp
  show ?thesis
  proof (cases r)
    case (Inl e)
    with Some p s show ?thesis by (simp add: resolve_row_def)
  next
    case (Inr res)
    obtain iv im sv sm nv nm where res: "res = ((iv, im), (sv, sm), (nv, nm))"
      by (metis prod.exhaust)
    from Some p Inr res have
      "resolve_formats env iupac (logging INFO (WorkingOnRow row) st)
         = Some (Inr ((iv, im), (sv, sm), (nv, nm)), st1)" by simp
    from resolve_formats_shape[OF this] have "(iv \<longrightarrow> \<not> sv \<and> \<not> nv) \<and> (sv \<longrightarrow> \<not> nv)"
      by blast
    from body_effect_write_resolved[OF s this] Some p Inr res show ?thesis
      by (simp add: resolve_row_def)
  qed
qed

lemma body_effect_process_row_body: "body_effect row st (process_row_body env row st)"
proof (cases row)
  case Nil
  then show ?thesis by (simp add: process_row_body_def)
next
  case (Cons iupac rest)
  show ?thesis
  proof (cases "iupac = ''null'' \<or> iupac = ''failed''")
    case True
    with Cons show ?thesis by (auto simp: process_row_body_def wrote_row_writes)
  next
    case False
    show ?thesis
    proof (cases "useful_info_from row 2")
      case (Inl e)
      with Cons False show ?thesis by (simp add: process_row_body_def)
    next
      case (Inr useful)
      with Cons False show ?thesis
        by (cases useful)
           (simp_all add: process_row_body_def wrote_row_writes body_effect_resolve_row)
    qed
  qed
qed

lemma process_row_Some:
  assumes "process_row env row st = Some (r, st')"
  shows "r = Inr () \<and> wrote_row row st st'"
proof -
  from assms consider
    (ok) v where "process_row_body env row st = Some (Inr v, st')" "r = Inr v"
  | (exc) e st1 where "process_row_body env row st = Some (Inl e, st1)"
      "r = Inr ()"
      "st' = write_invalid (row @ [''No'', ''No'', ''No''])
               (logging ERROR (ErrorProcessingRow row (exc_str e)) st1)"
    unfolding process_row_def try_except_Some returns_def by auto
  then show ?thesis
  proof cases
    case ok
    with body_effect_process_row_body[of row st env] show ?thesis by simp
  next
    case exc
    with body_effect_process_row_body[of row st env] show ?thesis
      by (simp add: wrote_row_writes)
  qed
qed

text \<open>The row written, and the file it went to.\<close>

lemma wrote_row_cases:
  assumes "wrote_row row st st1"
  shows "\<exists>s x. written_as s row x
           \<and> valid_out st1 = valid_out st @ rows_of ValidFile [(s, x)]
           \<and> invalid_out st1 = invalid_out st @ rows_of InvalidFile [(s, x)]
           \<and> no_info_out st1 = no_info_out st @ rows_of NoInfoFile [(s, x)]"
proof -
  from assms consider
      (v) x where "valid_out st1 = valid_out st @ [x]" "written_as ValidFile row x"
        "invalid_out st1 = invalid_out st" "no_info_out st1 = no_info_out st"
    | (i) x where "valid_out st1 = valid_out st" "invalid_out st1 = invalid_out st @ [x]"
        "written_as InvalidFile row x" "no_info_out st1 = no_info_out st"
    | (n) x where "valid_out st1 = valid_out st" "invalid_out st1 = invalid_out st"
        "no_info_out st1 = no_info_out st @ [x]" "written_as NoInfoFile row x"
    unfolding wrote_row_def appended_row_iff by blast
  then show ?thesis
  proof cases
    case v
    then show ?thesis
      by (intro exI[of _ ValidFile] exI[of _ x]) (simp add: rows_of_def)
  next
    case i
    then show ?thesis
      by (intro exI[of _ InvalidFile] exI[of _ x]) (simp add: rows_of_def)
  next
    case n
    then show ?thesis
      by (intro exI[of _ NoInfoFile] exI[of _ x]) (simp add: rows_of_def)
  qed
qed

subsection \<open>All rows\<close>

lemma rows_of_Cons: "rows_of s (out # outs) = rows_of s [out] @ rows_of s outs"
  by (simp add: rows_of_def)

lemma rows_of_lengths:
  "length (rows_of ValidFile outs) + length (rows_of InvalidFile outs)
     + length (rows_of NoInfoFile outs) = length outs"
proof (induction outs)
  case Nil
  show ?case by (simp add: rows_of_def)
next
  case (Cons out outs)
  then show ?case by (cases "fst out") (simp_all add: rows_of_def)
qed

lemma rows_read_no_fault: "reader_fault items = None \<Longrightarrow> map Inr (rows_read items) = items"
  by (induction items rule: rows_read.induct) simp_all

lemma process_rows_Some:
  "process_rows env items st = Some (r, st') \<Longrightarrow>
     r = (case reader_fault items of None \<Rightarrow> Inr () | Some e \<Rightarrow> Inl e) \<and>
     (\<exists>outs. list_all2 (\<lambda>row out. written_as (fst out) row (snd out)) (rows_read items) outs
        \<and> valid_out st' = valid_out st @ rows_of ValidFile outs
        \<and> invalid_out st' = invalid_out st @ rows_of InvalidFile outs
        \<and> no_info_out st' = no_info_out st @ rows_of NoInfoFile outs)"
proof (induction items arbitrary: st)
  case Nil
  then show ?case by (simp add: returns_def rows_of_def)
next
  case (Cons item items)
  show ?case
  proof (cases item)
    case (Inl e)
    with Cons.prems show ?thesis by (simp add: raises_def rows_of_def)
  next
    case (Inr row)
    from Cons.prems Inr obtain r1 st1 where
      1: "process_row env row st = Some (r1, st1)" and
      2: "process_rows env items st1 = Some (r, st')"
      using process_row_Some[of env row st]
      by (auto simp: then_do_Some)
    from process_row_Some[OF 1] have "wrote_row row st st1" by simp
    from wrote_row_cases[OF this] obtain s x where
      w: "written_as s row x"
         "valid_out st1 = valid_out st @ rows_of ValidFile [(s, x)]"
         "invalid_out st1 = invalid_out st @ rows_of InvalidFile [(s, x)]"
         "no_info_out st1 = no_info_out st @ rows_of NoInfoFile [(s, x)]"
      by blast
    from Cons.IH[OF 2] obtain outs where
      r: "r = (case reader_fault items of None \<Rightarrow> Inr () | Some e \<Rightarrow> Inl e)" and
      l: "list_all2 (\<lambda>row out. written_as (fst out) row (snd out)) (rows_read items) outs" and
      o: "valid_out st' = valid_out st1 @ rows_of ValidFile outs"
         "invalid_out st' = invalid_out st1 @ rows_of InvalidFile outs"
         "no_info_out st' = no_info_out st1 @ rows_of NoInfoFile outs"
      by blast
    have "list_all2 (\<lambda>row out. written_as (fst out) row (snd out))
            (rows_read (item # items)) ((s, x) # outs)"
      using Inr l w(1) by simp
    moreover have "valid_out st' = valid_out st @ rows_of ValidFile ((s, x) # outs)"
      "invalid_out st' = invalid_out st @ rows_of InvalidFile ((s, x) # outs)"
      "no_info_out st' = no_info_out st @ rows_of NoInfoFile ((s, x) # outs)"
      using o w(2-4) by (simp_all add: rows_of_Cons[of _ "(s, x)" outs])
    moreover have "r = (case reader_fault (item # items) of None \<Rightarrow> Inr () | Some e \<Rightarrow> Inl e)"
      using r Inr by simp
    ultimately show ?thesis by blast
  qed
qed

lemma halts_mol_to_smiles: "halts (mol_to_smiles env mol st)"
  by (simp add: mol_to_smiles_def split: option.splits)

lemma halts_resolve_formats:
  assumes "\<forall>t. cirpy_answers env t ident"
  shows "halts (resolve_formats env ident st)"
  unfolding resolve_formats_def
  using assms
  by (auto intro!: then_do_terminates validate_identifier_terminates)

lemma halts_write_resolved: "halts (write_resolved env row res st)"
proof -
  obtain iv im sv sm nv nm where res: "res = ((iv, im), (sv, sm), (nv, nm))"
    by (metis prod.exhaust)
  show ?thesis
    unfolding res write_resolved_def
    by (auto simp: Let_def intro!: then_do_terminates halts_mol_to_smiles)
qed

lemma halts_process_row:
  assumes "\<forall>t s. cirpy_answers env t s"
  shows "halts (process_row env row st)"
proof -
  have "halts (resolve_row env row iupac st1)" for iupac st1
    unfolding resolve_row_def
    using assms by (intro then_do_terminates halts_resolve_formats halts_write_resolved) simp
  then have "halts (process_row_body env row st)"
    unfolding process_row_body_def
    by (auto intro!: then_do_terminates split: list.splits)
  then show ?thesis
    unfolding process_row_def by (intro try_except_terminates) simp_all
qed

lemma halts_process_rows:
  assumes "\<forall>t s. cirpy_answers env t s"
  shows "halts (process_rows env items st)"
proof (induction items arbitrary: st)
  case Nil
  show ?case by simp
next
  case (Cons item items)
  show ?case
  proof (cases item)
    case (Inl e)
    then show ?thesis by simp
  next
    case (Inr row)
    show ?thesis
      unfolding Inr process_rows.simps
      by (intro then_do_terminates halts_process_row[OF assms] Cons.IH)
  qed
qed

lemma halts_process_results:
  assumes "\<forall>t s. cirpy_answers env t s"
  shows "halts (process_results env input st)"
proof (cases input)
  case Nil
  then show ?thesis by (simp add: process_results_def)
next
  case (Cons item items)
  then show ?thesis
    by (cases item) (simp_all add: process_results_def Let_def halts_process_rows[OF assms])
qed

lemmas run_defs =
  process_results_def process_row_def process_row_body_def resolve_row_def resolve_formats_def
  write_resolved_def validate_identifier_def smiles_branch_def inchi_branch_def iupac_branch_def
  cirpy_stage_def pubchem_stage_def fetch_smiles_from_pubchem_def has_properties_def
  first_canonical_smiles_def bind_e_def parse_smiles_def parse_inchi_def mol_to_smiles_def
  mol_or_def molecule_has_carbon_def yes_no_def write_valid_def write_invalid_def
  write_no_info_def logging_def request_def toolkit_def outcome_def returns_def raises_def
  obj_get_def cactus_down_def IndexError_def TypeError_def KeyError_def

lemma cirpy_answers_lab: "cirpy_answers lab_env t s"
  by (simp add: cirpy_answers_def lab_env_def)

lemma resolve_lab: "resolve_with_cirpy lab_env s st =
   Some (cirpy_resolve lab_env (clock st) s, request (CirpyResolve s) st)"
  by (rule resolve_answers[OF cirpy_answers_lab])

lemma lab_env_fields:
  "requests_get_cactus lab_env = (\<lambda>t. Inr \<lparr>ok = True, status_code = 200\<rparr>)"
  "cirpy_resolve lab_env = (\<lambda>t s. if s = ''aspirin'' then Inr (Some ''CC(=O)Oc1ccccc1C(O)=O'')
                                else if s = ''water'' then Inr (Some ''O'')
                                else Inr None)"
  "pubchem_json lab_env =
     (\<lambda>t s. Inr (JObj [(''Fault'', JObj [(''Code'', JStr ''PUGREST.NotFound'')])]))"
  "MolFromSmiles lab_env = (\<lambda>s. if s = ''CC(=O)Oc1ccccc1C(O)=O'' then Inr (Some aspirin)
                                else if s = ''O'' then Inr (Some (Mol [8]))
                                else if s = ''[Na+]'' then Inr (Some (Mol [11]))
                                else Inr None)"
  "MolFromInchi lab_env = (\<lambda>s. if s = ''InChI=1S/H2O/h1H2'' then Inr (Some (Mol [8]))
                               else Inr None)"
  "MolToSmiles lab_env = (\<lambda>m. if m = aspirin then Inr ''CC(=O)Oc1ccccc1C(=O)O''
                              else if m = Mol [8] then Inr ''O''
                              else if m = Mol [11] then Inr ''[Na+]''
                              else Inl (Exception ''RuntimeError'' ''no canonical form''))"
  by (simp_all add: lab_env_def nothing_env_def)

subsection \<open>Placeholder rows\<close>

text \<open>
  Claim C2.  A row whose first field is \<^verbatim>\<open>'null'\<close> or \<^verbatim>\<open>'failed'\<close> goes to the no-info
  file as \<^verbatim>\<open>row[:10]\<close>, whatever its other fields are and however many it has.  Nothing
  else changes: no request, no toolkit call, no log entry, no other file.
\<close>

theorem placeholder_row_no_info:
  "row = iupac # rest \<and> (iupac = ''null'' \<or> iupac = ''failed'') \<longrightarrow>
     process_row env row st = Some (Inr (), st\<lparr>no_info_out := no_info_out st @ [take 10 row]\<rparr>)"
  by (auto simp: process_row_def process_row_body_def write_no_info_def returns_def)

theorem placeholder_row_no_info_witness:
  "process_row lab_env null_row init_state =
     Some (Inr (), init_state\<lparr>no_info_out := [null_row]\<rparr>)
   \<and> process_row raising_env [''failed'', ''[Na+]''] init_state =
     Some (Inr (), init_state\<lparr>no_info_out := [[''failed'', ''[Na+]'']]\<rparr>)"
  using placeholder_row_no_info
          [of null_row "''null''" "tl null_row" lab_env init_state]
        placeholder_row_no_info
          [of "[''failed'', ''[Na+]'']" "''failed''" "[''[Na+]'']" raising_env init_state]
  by (simp add: null_row_def init_state_def)

subsection \<open>The header rows\<close>

lemma process_results_headers:
  "process_results env [Inr first] st =
     Some (Inr (),
       st\<lparr>valid_out := [''canonical_smiles'' # first
                            @ [''iupac_resolved'', ''smiles_resolved'', ''inchi_resolved'']],
           invalid_out := [''canonical_smiles'' # first
                            @ [''iupac_resolved'', ''smiles_resolved'', ''inchi_resolved'']],
           no_info_out := [''canonical_smiles''
                            # take 9 (first @ [''iupac_resolved'', ''smiles_resolved'',
                                               ''inchi_resolved''])]\<rparr>)"
  by (simp add: process_results_def returns_def Let_def)

text \<open>
  Claim C3 fails on the code.  \<^verbatim>\<open>headers.insert(0, 'canonical_smiles')\<close> comes before
  \<^verbatim>\<open>headers[:10]\<close>, so the header of the no-info file is \<^verbatim>\<open>canonical_smiles\<close> followed
  by the first nine columns of the input header, although the comment on that line says
  "Original headers only" and the data rows of that file are \<^verbatim>\<open>row[:10]\<close>.  The valid and
  invalid files do get the full enriched header.  Here: a header of ten columns; the
  tenth one, \<^verbatim>\<open>paper\<close>, is lost.
\<close>

theorem no_info_header_shifted:
  "map_option (\<lambda>(r, st'). (r, valid_out st', invalid_out st', no_info_out st'))
     (process_results lab_env [Inr sample_header] init_state)
   = Some (Inr (),
       [[''canonical_smiles'', ''name'', ''formula'', ''mp'', ''bp'', ''density'', ''solubility'',
         ''pka'', ''notes'', ''page'', ''paper'',
         ''iupac_resolved'', ''smiles_resolved'', ''inchi_resolved'']],
       [[''canonical_smiles'', ''name'', ''formula'', ''mp'', ''bp'', ''density'', ''solubility'',
         ''pka'', ''notes'', ''page'', ''paper'',
         ''iupac_resolved'', ''smiles_resolved'', ''inchi_resolved'']],
       [[''canonical_smiles'', ''name'', ''formula'', ''mp'', ''bp'', ''density'', ''solubility'',
         ''pka'', ''notes'', ''page'']])"
  by (simp add: process_results_headers sample_header_def)

subsection \<open>Rows that reach the resolution step\<close>

lemma mol_to_smiles_Some:
  "mol_to_smiles env mol st = Some (r, st') \<Longrightarrow> same_files st st'"
  using keeps_files_mol_to_smiles[of st env mol] by simp

lemma write_resolved_no_info:
  assumes "write_resolved env row res st = Some (r, st')"
  shows "no_info_out st' = no_info_out st"
proof -
  obtain iv im sv sm nv nm where res: "res = ((iv, im), (sv, sm), (nv, nm))"
    by (metis prod.exhaust)
  show ?thesis
  proof (cases "iv \<or> sv \<or> nv")
    case False
    with assms res show ?thesis
      by (auto simp: write_resolved_def returns_def write_invalid_def)
  next
    case True
    with assms res show ?thesis
      by (auto simp: write_resolved_def Let_def then_do_Some returns_def write_invalid_def
            write_valid_def logging_def same_files_def
          dest!: mol_to_smiles_Some split: if_splits)
  qed
qed

lemma resolve_row_no_info:
  assumes "resolve_row env row iupac st = Some (r, st')"
  shows "no_info_out st' = no_info_out st"
proof -
  let ?st0 = "logging INFO (WorkingOnRow row) st"
  from assms consider
      (exc) e where "resolve_formats env iupac ?st0 = Some (Inl e, st')"
    | (ok) res st1 where "resolve_formats env iupac ?st0 = Some (Inr res, st1)"
        "write_resolved env row res st1 = Some (r, st')"
    unfolding resolve_row_def then_do_Some by blast
  then show ?thesis
  proof cases
    case exc
    with keeps_files_resolve_formats[of ?st0 env iupac] show ?thesis
      by (simp add: same_files_def logging_def)
  next
    case ok
    with keeps_files_resolve_formats[of ?st0 env iupac] write_resolved_no_info[OF ok(2)]
    show ?thesis
      by (simp add: same_files_def logging_def)
  qed
qed

lemma process_row_resolve_no_info:
  assumes "process_row_body env row st = resolve_row env row iupac st"
    and "process_row env row st = Some (r, st')"
  shows "no_info_out st' = no_info_out st"
  using assms(2) unfolding process_row_def assms(1) try_except_Some
  by (auto simp: returns_def write_invalid_def logging_def dest!: resolve_row_no_info)

text \<open>
  Claim C9.  For a row with at least seven fields whose first field is neither
  \<^verbatim>\<open>'null'\<close> nor \<^verbatim>\<open>'failed'\<close>, the check of the columns 2 to 6 finds useful information
  exactly when one of the five fields differs from the string \<^verbatim>\<open>'null'\<close>; an empty string
  counts as information.  Such a row goes on to the resolution step and nothing is written
  to the no-info file for it.  Only when all five fields are \<^verbatim>\<open>'null'\<close> does the row go
  to the no-info file.
\<close>

theorem useful_info_only_null_is_placeholder:
  "row = iupac # rest \<and> iupac \<noteq> ''null'' \<and> iupac \<noteq> ''failed'' \<and> 7 \<le> length row \<longrightarrow>
     useful_info_from row 2 = Inr (\<exists>j. 2 \<le> j \<and> j < 7 \<and> row ! j \<noteq> ''null'')
     \<and> ((\<exists>j. 2 \<le> j \<and> j < 7 \<and> row ! j \<noteq> ''null'') \<longrightarrow>
           process_row_body env row st = resolve_row env row iupac st
           \<and> (\<forall>r st'. process_row env row st = Some (r, st') \<longrightarrow>
                 no_info_out st' = no_info_out st))
     \<and> ((\<forall>j. 2 \<le> j \<and> j < 7 \<longrightarrow> row ! j = ''null'') \<longrightarrow>
           process_row env row st =
             Some (Inr (), write_no_info (take 10 row) (logging INFO (SkippingRow row) st)))"
proof (intro impI)
  assume a: "row = iupac # rest \<and> iupac \<noteq> ''null'' \<and> iupac \<noteq> ''failed'' \<and> 7 \<le> length row"
  then have u: "useful_info_from row 2 = Inr (\<exists>j. 2 \<le> j \<and> j < 7 \<and> row ! j \<noteq> ''null'')"
    using useful_info_from_long[of row] by blast
  have yes: "process_row_body env row st = resolve_row env row iupac st"
    if "\<exists>j. 2 \<le> j \<and> j < 7 \<and> row ! j \<noteq> ''null''"
  proof -
    from u that have "useful_info_from row 2 = Inr True" by simp
    with a show ?thesis by (auto simp: process_row_body_def)
  qed
  have no: "process_row env row st =
             Some (Inr (), write_no_info (take 10 row) (logging INFO (SkippingRow row) st))"
    if "\<forall>j. 2 \<le> j \<and> j < 7 \<longrightarrow> row ! j = ''null''"
  proof -
    from u that have "useful_info_from row 2 = Inr False" by simp
    with a show ?thesis by (auto simp: process_row_def process_row_body_def returns_def)
  qed
  show "useful_info_from row 2 = Inr (\<exists>j. 2 \<le> j \<and> j < 7 \<and> row ! j \<noteq> ''null'')
     \<and> ((\<exists>j. 2 \<le> j \<and> j < 7 \<and> row ! j \<noteq> ''null'') \<longrightarrow>
           process_row_body env row st = resolve_row env row iupac st
           \<and> (\<forall>r st'. process_row env row st = Some (r, st') \<longrightarrow>
                 no_info_out st' = no_info_out st))
     \<and> ((\<forall>j. 2 \<le> j \<and> j < 7 \<longrightarrow> row ! j = ''null'') \<longrightarrow>
           process_row env row st =
             Some (Inr (), write_no_info (take 10 row) (logging INFO (SkippingRow row) st)))"
    using u yes no process_row_resolve_no_info[of env row st iupac] by blast
qed

theorem useful_info_only_null_is_placeholder_witness:
  "useful_info_from water_row 2 = Inr True
   \<and> process_row_body lab_env water_row init_state =
       resolve_row lab_env water_row ''water'' init_state
   \<and> map_option (\<lambda>(r, st'). no_info_out st') (process_row lab_env water_row init_state) = Some []
   \<and> process_row lab_env bare_row init_state =
       Some (Inr (), init_state\<lparr>log := [(INFO, SkippingRow bare_row)], no_info_out := [bare_row]\<rparr>)"
proof -
  note w = useful_info_only_null_is_placeholder
    [where row = water_row and iupac = "''water''" and rest = "tl water_row"
       and env = lab_env and st = init_state]
  note b = useful_info_only_null_is_placeholder
    [where row = bare_row and iupac = "''caffeine''" and rest = "tl bare_row"
       and env = lab_env and st = init_state]
  have hw: "water_row = ''water'' # tl water_row \<and> ''water'' \<noteq> ''null''
      \<and> ''water'' \<noteq> ''failed'' \<and> 7 \<le> length water_row"
    by (simp add: water_row_def)
  have hb: "bare_row = ''caffeine'' # tl bare_row \<and> ''caffeine'' \<noteq> ''null''
      \<and> ''caffeine'' \<noteq> ''failed'' \<and> 7 \<le> length bare_row"
    by (simp add: bare_row_def)
  have empty: "\<exists>j. 2 \<le> j \<and> j < 7 \<and> water_row ! j \<noteq> ''null''"
    by (intro exI[of _ 2]) (simp add: water_row_def)
  have nulls: "\<forall>j. 2 \<le> j \<and> j < 7 \<longrightarrow> bare_row ! j = ''null''"
  proof (intro allI impI)
    fix j :: nat assume "2 \<le> j \<and> j < 7"
    then have "j = 2 \<or> j = 3 \<or> j = 4 \<or> j = 5 \<or> j = 6" by arith
    then show "bare_row ! j = ''null''" by (auto simp: bare_row_def)
  qed
  have 1: "useful_info_from water_row 2 = Inr True"
    using w hw empty by simp
  have 2: "process_row_body lab_env water_row init_state =
       resolve_row lab_env water_row ''water'' init_state"
    using w hw empty by blast
  obtain r st' where run: "process_row lab_env water_row init_state = Some (r, st')"
    using halts_process_row[of lab_env water_row init_state] cirpy_answers_lab
    by (auto simp: halts_def)
  have "no_info_out st' = no_info_out init_state"
    using w hw empty run by blast
  then have 3: "map_option (\<lambda>(r, st'). no_info_out st') (process_row lab_env water_row init_state)
      = Some []"
    using run by (simp add: init_state_def)
  have 4: "process_row lab_env bare_row init_state =
       Some (Inr (), write_no_info (take 10 bare_row) (logging INFO (SkippingRow bare_row) init_state))"
    using b hb nulls by blast
  show ?thesis
    using 1 2 3 unfolding 4
    by (simp add: write_no_info_def logging_def init_state_def bare_row_def)
qed

subsection \<open>Exceptions inside a row\<close>

lemma process_row_handler:
  assumes "process_row_body env row st = Some (Inl e, st1)"
  shows "process_row env row st =
           Some (Inr (), write_invalid (row @ [''No'', ''No'', ''No''])
                           (logging ERROR (ErrorProcessingRow row (exc_str e)) st1))"
  using assms by (simp add: process_row_def returns_def)

lemma never_raises_process_row: "never_raises (process_row env row st)"
  unfolding process_row_def by (rule never_raises_try_except) simp

lemma process_rows_raise:
  assumes "process_rows env items st = Some (Inl e, st')"
  shows "reader_fault items = Some e"
  using process_rows_Some[OF assms] by (cases "reader_fault items") simp_all

lemma process_results_raise:
  assumes "process_results env input st = Some (Inl e, st')"
  shows "(input = [] \<and> e = StopIteration) \<or> reader_fault input = Some e"
proof (cases input)
  case Nil
  with assms show ?thesis by (simp add: process_results_def raises_def)
next
  case (Cons item items)
  show ?thesis
  proof (cases item)
    case (Inl e')
    with assms Cons show ?thesis by (simp add: process_results_def raises_def)
  next
    case (Inr first)
    with assms Cons have "\<exists>st0. process_rows env items st0 = Some (Inl e, st')"
      by (auto simp: process_results_def Let_def)
    then obtain st0 where "process_rows env items st0 = Some (Inl e, st')" by blast
    from process_rows_raise[OF this] Cons Inr show ?thesis by simp
  qed
qed

lemma never_raises_iff: "never_raises m \<longleftrightarrow> (\<forall>e st'. m \<noteq> Some (Inl e, st'))"
proof (cases m)
  case None
  then show ?thesis by simp
next
  case (Some p)
  obtain r st1 where p: "p = (r, st1)" by force
  show ?thesis unfolding Some p by (cases r) auto
qed

text \<open>
  Claim C8.  When the body of the \<^verbatim>\<open>try\<close> of a row raises (a blank line or a row too
  short for the columns that are read, a failure of the toolkit), the handler logs the
  row with the error and writes the row with three \<^verbatim>\<open>'No'\<close> flags to the invalid file; the
  loop then goes on with what the reader gives next.  Processing a row hands no
  exception to the loop.  So an exception that ends the loop, and with it
  \<open>process_results\<close>, is never one of the processing of a row: it is the exception that
  the reader raised at that step of the iteration (\<^verbatim>\<open>for row in reader\<close> and
  \<^verbatim>\<open>next(reader)\<close> are outside the \<^verbatim>\<open>try\<close>), or the \<^verbatim>\<open>StopIteration\<close> of
  \<^verbatim>\<open>next(reader)\<close> on an empty file.  With a reader that raises nothing, neither the
  loop nor \<open>process_results\<close> on a file with a header raises.
\<close>

theorem row_exception_goes_to_invalid:
  "(\<forall>e st1. process_row_body env row st = Some (Inl e, st1) \<longrightarrow>
      process_row env row st =
        Some (Inr (), write_invalid (row @ [''No'', ''No'', ''No''])
                        (logging ERROR (ErrorProcessingRow row (exc_str e)) st1))
      \<and> process_rows env (Inr row # rest) st =
          process_rows env rest
            (write_invalid (row @ [''No'', ''No'', ''No''])
               (logging ERROR (ErrorProcessingRow row (exc_str e)) st1)))
   \<and> never_raises (process_row env row st)
   \<and> (\<forall>e st'. process_rows env items st = Some (Inl e, st') \<longrightarrow> reader_fault items = Some e)
   \<and> (\<forall>e st'. process_results env input st = Some (Inl e, st') \<longrightarrow>
        (input = [] \<and> e = StopIteration) \<or> reader_fault input = Some e)
   \<and> (reader_fault items = None \<longrightarrow> never_raises (process_rows env items st))
   \<and> (input \<noteq> [] \<and> reader_fault input = None \<longrightarrow>
        never_raises (process_results env input st))"
proof (intro conjI allI impI)
  fix e st1 assume b: "process_row_body env row st = Some (Inl e, st1)"
  show h: "process_row env row st =
        Some (Inr (), write_invalid (row @ [''No'', ''No'', ''No''])
                        (logging ERROR (ErrorProcessingRow row (exc_str e)) st1))"
    by (rule process_row_handler[OF b])
  show "process_rows env (Inr row # rest) st =
          process_rows env rest
            (write_invalid (row @ [''No'', ''No'', ''No''])
               (logging ERROR (ErrorProcessingRow row (exc_str e)) st1))"
    by (simp add: h)
next
  show "never_raises (process_row env row st)" by (rule never_raises_process_row)
next
  fix e st' assume "process_rows env items st = Some (Inl e, st')"
  then show "reader_fault items = Some e" by (rule process_rows_raise)
next
  fix e st' assume "process_results env input st = Some (Inl e, st')"
  then show "(input = [] \<and> e = StopIteration) \<or> reader_fault input = Some e"
    by (rule process_results_raise)
next
  assume n: "reader_fault items = None"
  show "never_raises (process_rows env items st)"
    unfolding never_raises_iff using process_rows_raise[of env items st] n by fastforce
next
  assume n: "input \<noteq> [] \<and> reader_fault input = None"
  show "never_raises (process_results env input st)"
    unfolding never_raises_iff using process_results_raise[of env input st] n by fastforce
qed

theorem row_exception_goes_to_invalid_witness:
  "process_row lab_env [] init_state =
     Some (Inr (), init_state\<lparr>log := [(ERROR, ErrorProcessingRow [] ''list index out of range'')],
                              invalid_out := [[''No'', ''No'', ''No'']]\<rparr>)
   \<and> map_option (\<lambda>(r, st'). (r, valid_out st', invalid_out st', no_info_out st'))
        (process_rows lab_env [Inr [''aspirin'', ''x''], Inr null_row] init_state)
      = Some (Inr (), [], [[''aspirin'', ''x'', ''No'', ''No'', ''No'']], [null_row])
   \<and> map_option (\<lambda>(r, st'). (r, invalid_out st'))
        (process_rows lab_env [Inr [], Inl csv_Error, Inr null_row] init_state)
      = Some (Inl csv_Error, [[''No'', ''No'', ''No'']])
   \<and> reader_fault [Inr [], Inl csv_Error, Inr null_row] = Some csv_Error
   \<and> never_raises (process_results lab_env sample_input init_state)"
proof -
  note t = row_exception_goes_to_invalid
  have 1: "process_row_body lab_env [] init_state = Some (Inl IndexError, init_state)"
    by (simp add: process_row_body_def raises_def)
  have a: "process_row lab_env [] init_state =
     Some (Inr (), write_invalid ([] @ [''No'', ''No'', ''No''])
                        (logging ERROR (ErrorProcessingRow [] (exc_str IndexError)) init_state))"
    using t[of lab_env "[]" init_state] 1 by blast
  have 2: "process_row_body lab_env [''aspirin'', ''x''] init_state
             = Some (Inl IndexError, init_state)"
    by (simp add: process_row_body_def useful_info_from.simps outcome_def raises_def)
  have b: "process_rows lab_env (Inr [''aspirin'', ''x''] # [Inr null_row]) init_state =
          process_rows lab_env [Inr null_row]
            (write_invalid ([''aspirin'', ''x''] @ [''No'', ''No'', ''No''])
               (logging ERROR (ErrorProcessingRow [''aspirin'', ''x''] (exc_str IndexError))
                  init_state))"
    using t[of lab_env "[''aspirin'', ''x'']" init_state "[Inr null_row]"] 2 by blast
  have c: "process_rows lab_env [Inr [], Inl csv_Error, Inr null_row] init_state =
      Some (Inl csv_Error,
        write_invalid ([] @ [''No'', ''No'', ''No''])
          (logging ERROR (ErrorProcessingRow [] (exc_str IndexError)) init_state))"
    by (simp add: a raises_def)
  have d: "reader_fault [Inr [], Inl csv_Error, Inr null_row] = Some csv_Error"
    by (rule t[THEN conjunct2, THEN conjunct2, THEN conjunct1, rule_format, OF c])
  have "sample_input \<noteq> [] \<and> reader_fault sample_input = None"
    by (simp add: sample_input_def)
  then have e: "never_raises (process_results lab_env sample_input init_state)"
    by (rule t[THEN conjunct2, THEN conjunct2, THEN conjunct2, THEN conjunct2, THEN conjunct2,
               THEN mp])
  show ?thesis
    unfolding a b c
    using d e
    by (simp add: process_row_def process_row_body_def write_invalid_def write_no_info_def
        logging_def returns_def init_state_def IndexError_def null_row_def
        del: never_raises_simps reader_fault.simps)
qed

subsection \<open>The resolution step\<close>

lemma has_carbon_atom_iff: "has_carbon_atom atoms \<longleftrightarrow> 6 \<in> set atoms"
  by (induction atoms) auto

lemma reaches_resolution_body:
  "reaches_resolution row iupac \<Longrightarrow>
     process_row_body env row st = resolve_row env row iupac st"
  by (cases row) (auto simp: reaches_resolution_def process_row_body_def)

lemma process_row_returned:
  "process_row_body env row st = Some (Inr v, st') \<Longrightarrow>
     process_row env row st = Some (Inr v, st')"
  by (simp add: process_row_def)

lemma write_resolved_unresolved:
  "write_resolved env row ((False, im), (False, sm), (False, nm)) st =
     Some (Inr (), write_invalid (row @ [''No'', ''No'', ''No'']) st)"
  by (simp add: write_resolved_def yes_no_def returns_def)

lemma write_resolved_resolved:
  assumes "iv \<or> sv \<or> nv" and "mol_or im (mol_or sm nm) = Some m" and "MolToSmiles env m = Inr c"
  shows "write_resolved env row ((iv, im), (sv, sm), (nv, nm)) st =
     Some (Inr (),
       if has_carbon_atom (GetAtoms m) then
         logging INFO (ValidCanonical c)
           (write_valid ((c # row) @ [yes_no iv, yes_no sv, yes_no nv])
              (toolkit (CallMolToSmiles m) st))
       else
         logging INFO (InvalidCanonical c)
           (write_invalid ((c # row) @ [yes_no iv, yes_no sv, yes_no nv])
              (toolkit (CallMolToSmiles m) st)))"
  using assms
  by (simp add: write_resolved_def mol_to_smiles_def molecule_has_carbon_def returns_def
      outcome_def)

lemma validate_smiles_True:
  assumes "validate_identifier env ident ''smiles'' st = Some (Inr (True, sm), st')"
  shows "st' = toolkit (CallMolFromSmiles ident) st \<and> MolFromSmiles env ident = Inr sm
         \<and> sm \<noteq> None \<and> startswith ident ''[''"
proof -
  have n: "ident \<noteq> ''null''" "ident \<noteq> []"
    using assms by (auto simp: validate_identifier_def returns_def split: if_splits)
  show ?thesis
  proof (cases "startswith ident ''[''")
    case False
    with assms n show ?thesis
      by (simp add: validate_identifier_def smiles_branch_def returns_def)
  next
    case True
    show ?thesis
    proof (cases "MolFromSmiles env ident")
      case (Inl e)
      with assms n True show ?thesis
        by (simp add: validate_identifier_def smiles_branch_def returns_def parse_smiles_def)
    next
      case (Inr mol)
      with assms n True show ?thesis
        by (cases mol)
           (auto simp: validate_identifier_def smiles_branch_def returns_def parse_smiles_def
              outcome_def)
    qed
  qed
qed

lemma resolve_formats_iupac:
  assumes "validate_identifier env ident ''iupac'' st = Some (Inr (True, im), st1)"
  shows "resolve_formats env ident st =
           Some (Inr ((True, im), (False, None), (False, None)), st1)"
  using assms by (simp add: resolve_formats_def returns_def)

lemma resolve_formats_smiles:
  assumes "validate_identifier env ident ''iupac'' st = Some (Inr (False, im), st1)"
    and "validate_identifier env ident ''smiles'' st1 = Some (Inr (True, sm), st2)"
  shows "resolve_formats env ident st =
           Some (Inr ((False, im), (True, sm), (False, None)), st2)"
  using assms by (simp add: resolve_formats_def returns_def)

lemma resolve_formats_inchi:
  assumes "validate_identifier env ident ''iupac'' st = Some (Inr (False, im), st1)"
    and "validate_identifier env ident ''smiles'' st1 = Some (Inr (False, sm), st2)"
    and "validate_identifier env ident ''inchi'' st2 = Some (Inr (nv, nm), st3)"
  shows "resolve_formats env ident st =
           Some (Inr ((False, im), (False, sm), (nv, nm)), st3)"
  using assms by (simp add: resolve_formats_def returns_def)

lemma resolve_row_eq:
  assumes "resolve_formats env iupac (logging INFO (WorkingOnRow row) st) = Some (Inr res, st1)"
  shows "resolve_row env row iupac st = write_resolved env row res st1"
  using assms by (simp add: resolve_row_def)

lemmas validate_defs =
  validate_identifier_def smiles_branch_def inchi_branch_def iupac_branch_def
  cirpy_stage_def pubchem_stage_def fetch_smiles_from_pubchem_def has_properties_def
  first_canonical_smiles_def bind_e_def parse_smiles_def parse_inchi_def
  outcome_def returns_def raises_def obj_get_def

lemma lab_iupac_unknown:
  "s \<noteq> ''aspirin'' \<Longrightarrow> s \<noteq> ''water'' \<Longrightarrow> s \<noteq> ''null'' \<Longrightarrow> s \<noteq> [] \<Longrightarrow>
   validate_identifier lab_env s ''iupac'' st =
     Some (Inr (False, None),
           logging WARNING (PubchemNoValid s)
             (request (PubchemGet s) (request (CirpyResolve s) st)))"
  by (simp add: validate_defs resolve_lab lab_env_fields request_def)

lemma lab_iupac_aspirin:
  "validate_identifier lab_env ''aspirin'' ''iupac'' st =
     Some (Inr (True, Some aspirin),
           toolkit (CallMolFromSmiles ''CC(=O)Oc1ccccc1C(O)=O'')
             (request (CirpyResolve ''aspirin'') st))"
  by (simp add: validate_defs resolve_lab lab_env_fields)

lemma lab_smiles_sodium:
  "validate_identifier lab_env ''[Na+]'' ''smiles'' st =
     Some (Inr (True, Some (Mol [11])), toolkit (CallMolFromSmiles ''[Na+]'') st)"
  by (simp add: validate_defs lab_env_fields)

lemma lab_smiles_water_inchi:
  "validate_identifier lab_env ''InChI=1S/H2O/h1H2'' ''smiles'' st =
     Some (Inr (False, None), logging WARNING (SkippingSmiles ''InChI=1S/H2O/h1H2'') st)"
  by (simp add: validate_defs lab_env_fields)

lemma lab_inchi_water:
  "validate_identifier lab_env ''InChI=1S/H2O/h1H2'' ''inchi'' st =
     Some (Inr (True, Some (Mol [8])), toolkit (CallMolFromInchi ''InChI=1S/H2O/h1H2'') st)"
  by (simp add: validate_defs lab_env_fields)

lemma lab_smiles_unobtainium:
  "validate_identifier lab_env ''unobtainium'' ''smiles'' st =
     Some (Inr (False, None), logging WARNING (SkippingSmiles ''unobtainium'') st)"
  by (simp add: validate_defs lab_env_fields)

lemma lab_inchi_unobtainium:
  "validate_identifier lab_env ''unobtainium'' ''inchi'' st =
     Some (Inr (False, None),
           logging ERROR (InvalidInchi ''unobtainium'')
             (toolkit (CallMolFromInchi ''unobtainium'') st))"
  by (simp add: validate_defs lab_env_fields)

lemma reaches_samples:
  "reaches_resolution sodium_row ''[Na+]''"
  "reaches_resolution aspirin_row ''aspirin''"
  "reaches_resolution water_row ''water''"
  "reaches_resolution unknown_row ''unobtainium''"
  by (simp_all add: reaches_resolution_def sodium_row_def aspirin_row_def water_row_def
      unknown_row_def useful_info_from.simps)

subsection \<open>Priority of the formats\<close>

lemma at_most_one_yes:
  "(iv \<longrightarrow> \<not> sv \<and> \<not> nv) \<and> (sv \<longrightarrow> \<not> nv) \<Longrightarrow>
     length (filter (\<lambda>f. f = ''Yes'') [yes_no iv, yes_no sv, yes_no nv]) \<le> 1"
  by (cases iv; cases sv; cases nv) (simp_all add: yes_no_def)

lemma smiles_over_inchi_row:
  assumes "reaches_resolution row iupac"
    and "validate_identifier env iupac ''iupac'' (logging INFO (WorkingOnRow row) st)
           = Some (Inr (False, im), st1)"
    and "validate_identifier env iupac ''smiles'' st1 = Some (Inr (True, Some m), st2)"
    and "MolToSmiles env m = Inr c"
  shows "process_row env row st =
     Some (Inr (),
       if has_carbon_atom (GetAtoms m) then
         logging INFO (ValidCanonical c)
           (write_valid ((c # row) @ [''No'', ''Yes'', ''No''])
              (toolkit (CallMolToSmiles m) st2))
       else
         logging INFO (InvalidCanonical c)
           (write_invalid ((c # row) @ [''No'', ''Yes'', ''No''])
              (toolkit (CallMolToSmiles m) st2)))"
proof -
  from validate_identifier_mol[OF assms(2)] have im: "im = None" by simp
  have rf: "resolve_formats env iupac (logging INFO (WorkingOnRow row) st) =
      Some (Inr ((False, im), (True, Some m), (False, None)), st2)"
    by (rule resolve_formats_smiles[OF assms(2,3)])
  have "process_row_body env row st =
      write_resolved env row ((False, im), (True, Some m), (False, None)) st2"
    using reaches_resolution_body[OF assms(1)] resolve_row_eq[OF rf] by simp
  also have "\<dots> = Some (Inr (),
       if has_carbon_atom (GetAtoms m) then
         logging INFO (ValidCanonical c)
           (write_valid ((c # row) @ [yes_no False, yes_no True, yes_no False])
              (toolkit (CallMolToSmiles m) st2))
       else
         logging INFO (InvalidCanonical c)
           (write_invalid ((c # row) @ [yes_no False, yes_no True, yes_no False])
              (toolkit (CallMolToSmiles m) st2)))"
    using assms(4) im by (intro write_resolved_resolved) (simp_all add: mol_or_def)
  finally show ?thesis
    by (intro process_row_returned) (simp add: yes_no_def)
qed

lemma row_flags_append: "length flags = 3 \<Longrightarrow> row_flags (pre @ flags) = flags"
  by (simp add: row_flags_def)

lemma written_flags:
  assumes "written_as s row x" and "s \<noteq> NoInfoFile"
  shows "length (row_flags x) = 3 \<and> length (filter (\<lambda>f. f = ''Yes'') (row_flags x)) \<le> 1"
proof -
  from assms consider
      c flags where "x = (c # row) @ flags" "one_yes flags"
    | "x = row @ [''No'', ''No'', ''No'']"
    by (cases s) (auto simp: enriched_row_iff)
  then show ?thesis
  proof cases
    case 1
    from one_yes_at_most[OF 1(2)] have l: "length flags = 3"
      and y: "length (filter (\<lambda>f. f = ''Yes'') flags) \<le> 1" by simp_all
    have "row_flags x = flags" unfolding 1(1) by (rule row_flags_append[OF l])
    with l y show ?thesis by simp
  next
    case 2
    have "row_flags x = [''No'', ''No'', ''No'']" unfolding 2 by (rule row_flags_append) simp
    then show ?thesis by simp
  qed
qed

lemma resolved_row_flags:
  assumes "reaches_resolution row iupac" and "process_row env row st = Some (r, st')"
  shows "\<exists>x. (valid_out st' = valid_out st @ [x] \<and> invalid_out st' = invalid_out st
              \<or> invalid_out st' = invalid_out st @ [x] \<and> valid_out st' = valid_out st)
           \<and> no_info_out st' = no_info_out st
           \<and> length (row_flags x) = 3
           \<and> length (filter (\<lambda>f. f = ''Yes'') (row_flags x)) \<le> 1"
proof -
  have n: "no_info_out st' = no_info_out st"
    by (rule process_row_resolve_no_info[OF reaches_resolution_body[OF assms(1)] assms(2)])
  from process_row_Some[OF assms(2)] have "wrote_row row st st'" by simp
  with n consider
      (v) x where "valid_out st' = valid_out st @ [x]" "written_as ValidFile row x"
        "invalid_out st' = invalid_out st"
    | (i) x where "valid_out st' = valid_out st" "invalid_out st' = invalid_out st @ [x]"
        "written_as InvalidFile row x"
    unfolding wrote_row_def appended_row_iff by auto
  then show ?thesis
  proof cases
    case v
    from written_flags[OF v(2)] v(1,3) n show ?thesis by (intro exI[of _ x]) simp
  next
    case i
    from written_flags[OF i(3)] i(1,2) n show ?thesis by (intro exI[of _ x]) simp
  qed
qed

text \<open>
  Claim C4.  \<open>resolve_formats\<close> (lines 207 to 216) tries the formats in the order IUPAC,
  SMILES, InChI and stops at the first one that resolves; \<open>resolution_info\<close> is the list of
  flags that lines 218 to 222 build from its result.
  \<^item> Whatever it returns, at most one of the three flags is \<^verbatim>\<open>'Yes'\<close>.
  \<^item> When the IUPAC attempt resolves, the result is that attempt's, in the state that
    attempt left: nothing is tried after it.
  \<^item> When the IUPAC attempt leaves the identifier unresolved and the SMILES attempt
    resolves it, the SMILES parser was called once on the identifier and nothing after
    it: the InChI attempt is not made, whatever the InChI parser would say of the
    identifier, and the flags are \<^verbatim>\<open>'No', 'Yes', 'No'\<close>.  This is the case of an identifier
    that resolves under SMILES and under InChI.
  \<^item> Only when both fail is the InChI attempt made, after them.
  \<^item> The row written for a row that reaches the resolution step, by lines 234 to 245 or
    by the handler of the row, goes to the valid or to the invalid file, and among its
    three flag fields (the last three) at most one is \<^verbatim>\<open>'Yes'\<close>.
\<close>

theorem resolution_priority:
  "(resolve_formats env iupac st = Some (Inr ((iv, im), (sv, sm), (nv, nm)), st') \<longrightarrow>
      length (filter (\<lambda>f. f = ''Yes'') (resolution_info ((iv, im), (sv, sm), (nv, nm)))) \<le> 1)
   \<and> (validate_identifier env iupac ''iupac'' st = Some (Inr (True, im1), st1) \<longrightarrow>
        resolve_formats env iupac st =
          Some (Inr ((True, im1), (False, None), (False, None)), st1)
        \<and> resolution_info ((True, im1), (False, None), (False, None)) = [''Yes'', ''No'', ''No''])
   \<and> (validate_identifier env iupac ''iupac'' st = Some (Inr (False, im2), st2)
        \<and> validate_identifier env iupac ''smiles'' st2 = Some (Inr (True, sm2), st3) \<longrightarrow>
        resolve_formats env iupac st =
          Some (Inr ((False, im2), (True, sm2), (False, None)), st3)
        \<and> st3 = toolkit (CallMolFromSmiles iupac) st2
        \<and> resolution_info ((False, im2), (True, sm2), (False, None)) = [''No'', ''Yes'', ''No''])
   \<and> (validate_identifier env iupac ''iupac'' st = Some (Inr (False, im4), st4)
        \<and> validate_identifier env iupac ''smiles'' st4 = Some (Inr (False, sm4), st5)
        \<and> validate_identifier env iupac ''inchi'' st5 = Some (Inr (nv4, nm4), st6) \<longrightarrow>
        resolve_formats env iupac st =
          Some (Inr ((False, im4), (False, sm4), (nv4, nm4)), st6)
        \<and> resolution_info ((False, im4), (False, sm4), (nv4, nm4)) = [''No'', ''No'', yes_no nv4])
   \<and> (reaches_resolution row iupac \<and> process_row env row st = Some (r, st9) \<longrightarrow>
        (\<exists>x. (valid_out st9 = valid_out st @ [x] \<and> invalid_out st9 = invalid_out st
               \<or> invalid_out st9 = invalid_out st @ [x] \<and> valid_out st9 = valid_out st)
           \<and> no_info_out st9 = no_info_out st
           \<and> length (row_flags x) = 3
           \<and> length (filter (\<lambda>f. f = ''Yes'') (row_flags x)) \<le> 1))"
proof (intro conjI impI)
  assume "resolve_formats env iupac st = Some (Inr ((iv, im), (sv, sm), (nv, nm)), st')"
  from resolve_formats_shape[OF this]
  have "length (filter (\<lambda>f. f = ''Yes'') [yes_no iv, yes_no sv, yes_no nv]) \<le> 1"
    by (intro at_most_one_yes) blast
  then show "length (filter (\<lambda>f. f = ''Yes'')
                (resolution_info ((iv, im), (sv, sm), (nv, nm)))) \<le> 1"
    by simp
next
  assume "validate_identifier env iupac ''iupac'' st = Some (Inr (True, im1), st1)"
  then show "resolve_formats env iupac st =
          Some (Inr ((True, im1), (False, None), (False, None)), st1)"
    by (rule resolve_formats_iupac)
next
  show "resolution_info ((True, im1), (False, None), (False, None)) = [''Yes'', ''No'', ''No'']"
    by (simp add: yes_no_def)
next
  assume a: "validate_identifier env iupac ''iupac'' st = Some (Inr (False, im2), st2)
        \<and> validate_identifier env iupac ''smiles'' st2 = Some (Inr (True, sm2), st3)"
  then have a1: "validate_identifier env iupac ''iupac'' st = Some (Inr (False, im2), st2)"
    and a2: "validate_identifier env iupac ''smiles'' st2 = Some (Inr (True, sm2), st3)"
    by blast+
  show "resolve_formats env iupac st =
          Some (Inr ((False, im2), (True, sm2), (False, None)), st3)"
    by (rule resolve_formats_smiles[OF a1 a2])
  from a show "st3 = toolkit (CallMolFromSmiles iupac) st2"
    using validate_smiles_True[of env iupac st2 sm2 st3] by simp
next
  show "resolution_info ((False, im2), (True, sm2), (False, None)) = [''No'', ''Yes'', ''No'']"
    by (simp add: yes_no_def)
next
  assume "validate_identifier env iupac ''iupac'' st = Some (Inr (False, im4), st4)
        \<and> validate_identifier env iupac ''smiles'' st4 = Some (Inr (False, sm4), st5)
        \<and> validate_identifier env iupac ''inchi'' st5 = Some (Inr (nv4, nm4), st6)"
  then have b1: "validate_identifier env iupac ''iupac'' st = Some (Inr (False, im4), st4)"
    and b2: "validate_identifier env iupac ''smiles'' st4 = Some (Inr (False, sm4), st5)"
    and b3: "validate_identifier env iupac ''inchi'' st5 = Some (Inr (nv4, nm4), st6)"
    by blast+
  show "resolve_formats env iupac st =
          Some (Inr ((False, im4), (False, sm4), (nv4, nm4)), st6)"
    by (rule resolve_formats_inchi[OF b1 b2 b3])
next
  show "resolution_info ((False, im4), (False, sm4), (nv4, nm4)) = [''No'', ''No'', yes_no nv4]"
    by (simp add: yes_no_def)
next
  assume "reaches_resolution row iupac \<and> process_row env row st = Some (r, st9)"
  then have c1: "reaches_resolution row iupac"
    and c2: "process_row env row st = Some (r, st9)" by blast+
  show "\<exists>x. (valid_out st9 = valid_out st @ [x] \<and> invalid_out st9 = invalid_out st
               \<or> invalid_out st9 = invalid_out st @ [x] \<and> valid_out st9 = valid_out st)
           \<and> no_info_out st9 = no_info_out st
           \<and> length (row_flags x) = 3
           \<and> length (filter (\<lambda>f. f = ''Yes'') (row_flags x)) \<le> 1"
    by (rule resolved_row_flags[OF c1 c2])
qed

lemma lab_run_sodium:
  "process_row lab_env sodium_row st =
      Some (Inr (),
            logging INFO (InvalidCanonical ''[Na+]'')
              (write_invalid ((''[Na+]'' # sodium_row) @ [''No'', ''Yes'', ''No''])
                 (toolkit (CallMolToSmiles (Mol [11]))
                    (toolkit (CallMolFromSmiles ''[Na+]'')
                       (logging WARNING (PubchemNoValid ''[Na+]'')
                          (request (PubchemGet ''[Na+]'')
                             (request (CirpyResolve ''[Na+]'')
                                (logging INFO (WorkingOnRow sodium_row) st))))))))"
proof -
  have canon: "MolToSmiles lab_env (Mol [11]) = Inr ''[Na+]''"
    by (simp add: lab_env_fields aspirin_def)
  have i: "validate_identifier lab_env ''[Na+]'' ''iupac'' (logging INFO (WorkingOnRow sodium_row) st)
      = Some (Inr (False, None),
           logging WARNING (PubchemNoValid ''[Na+]'')
             (request (PubchemGet ''[Na+]'')
                (request (CirpyResolve ''[Na+]'') (logging INFO (WorkingOnRow sodium_row) st))))"
    by (rule lab_iupac_unknown) simp_all
  show ?thesis
    using smiles_over_inchi_row[OF reaches_samples(1) i lab_smiles_sodium canon]
    by simp
qed

theorem resolution_priority_witness:
  "resolve_formats lab_env ''aspirin'' init_state =
     Some (Inr ((True, Some aspirin), (False, None), (False, None)),
           init_state\<lparr>clock := 1,
             calls := [CirpyResolve ''aspirin'', CallMolFromSmiles ''CC(=O)Oc1ccccc1C(O)=O'']\<rparr>)
   \<and> map_option (\<lambda>(r, st'). (r, calls st')) (resolve_formats lab_env ''[Na+]'' init_state) =
     Some (Inr ((False, None), (True, Some (Mol [11])), (False, None)),
           [CirpyResolve ''[Na+]'', PubchemGet ''[Na+]'', CallMolFromSmiles ''[Na+]''])
   \<and> map_option (\<lambda>(r, st'). (r, calls st'))
        (resolve_formats lab_env ''InChI=1S/H2O/h1H2'' init_state) =
     Some (Inr ((False, None), (False, None), (True, Some (Mol [8]))),
           [CirpyResolve ''InChI=1S/H2O/h1H2'', PubchemGet ''InChI=1S/H2O/h1H2'',
            CallMolFromInchi ''InChI=1S/H2O/h1H2''])
   \<and> map_option (\<lambda>(r, st'). (r, calls st')) (resolve_formats lab_env ''unobtainium'' init_state) =
     Some (Inr ((False, None), (False, None), (False, None)),
           [CirpyResolve ''unobtainium'', PubchemGet ''unobtainium'',
            CallMolFromInchi ''unobtainium''])
   \<and> map_option (\<lambda>(r, st'). (r, valid_out st', invalid_out st', no_info_out st'))
        (process_row lab_env sodium_row init_state) =
     Some (Inr (), [], [(''[Na+]'' # sodium_row) @ [''No'', ''Yes'', ''No'']], [])
   \<and> length (filter (\<lambda>f. f = ''Yes'')
        (row_flags ((''[Na+]'' # sodium_row) @ [''No'', ''Yes'', ''No'']))) \<le> 1"
proof -
  note t = resolution_priority
  have a: "resolve_formats lab_env ''aspirin'' init_state =
      Some (Inr ((True, Some aspirin), (False, None), (False, None)),
            toolkit (CallMolFromSmiles ''CC(=O)Oc1ccccc1C(O)=O'')
               (request (CirpyResolve ''aspirin'') init_state))"
    by (rule t[THEN conjunct2, THEN conjunct1, THEN mp, THEN conjunct1, OF lab_iupac_aspirin])
  have names: "''unobtainium'' \<noteq> ''aspirin''" "''unobtainium'' \<noteq> ''water''"
      "''unobtainium'' \<noteq> ''null''" "''unobtainium'' \<noteq> []"
      "''[Na+]'' \<noteq> ''aspirin''" "''[Na+]'' \<noteq> ''water''"
      "''[Na+]'' \<noteq> ''null''" "''[Na+]'' \<noteq> []"
      "''InChI=1S/H2O/h1H2'' \<noteq> ''aspirin''" "''InChI=1S/H2O/h1H2'' \<noteq> ''water''"
      "''InChI=1S/H2O/h1H2'' \<noteq> ''null''" "''InChI=1S/H2O/h1H2'' \<noteq> []"
    by simp_all
  have s: "resolve_formats lab_env ''[Na+]'' init_state =
      Some (Inr ((False, None), (True, Some (Mol [11])), (False, None)),
            toolkit (CallMolFromSmiles ''[Na+]'')
              (logging WARNING (PubchemNoValid ''[Na+]'')
                 (request (PubchemGet ''[Na+]'')
                    (request (CirpyResolve ''[Na+]'') init_state))))"
    by (rule t[THEN conjunct2, THEN conjunct2, THEN conjunct1, THEN mp, THEN conjunct1,
               OF conjI[OF lab_iupac_unknown[OF names(5-8)] lab_smiles_sodium]])
  have n: "resolve_formats lab_env ''InChI=1S/H2O/h1H2'' init_state =
      Some (Inr ((False, None), (False, None), (True, Some (Mol [8]))),
            toolkit (CallMolFromInchi ''InChI=1S/H2O/h1H2'')
              (logging WARNING (SkippingSmiles ''InChI=1S/H2O/h1H2'')
                 (logging WARNING (PubchemNoValid ''InChI=1S/H2O/h1H2'')
                    (request (PubchemGet ''InChI=1S/H2O/h1H2'')
                       (request (CirpyResolve ''InChI=1S/H2O/h1H2'') init_state)))))"
    by (rule t[THEN conjunct2, THEN conjunct2, THEN conjunct2, THEN conjunct1, THEN mp,
               THEN conjunct1,
               OF conjI[OF lab_iupac_unknown[OF names(9-12)]
                    conjI[OF lab_smiles_water_inchi lab_inchi_water]]])
  have u: "resolve_formats lab_env ''unobtainium'' init_state =
      Some (Inr ((False, None), (False, None), (False, None)),
            logging ERROR (InvalidInchi ''unobtainium'')
              (toolkit (CallMolFromInchi ''unobtainium'')
                 (logging WARNING (SkippingSmiles ''unobtainium'')
                    (logging WARNING (PubchemNoValid ''unobtainium'')
                       (request (PubchemGet ''unobtainium'')
                          (request (CirpyResolve ''unobtainium'') init_state))))))"
    by (rule t[THEN conjunct2, THEN conjunct2, THEN conjunct2, THEN conjunct1, THEN mp,
               THEN conjunct1,
               OF conjI[OF lab_iupac_unknown[OF names(1-4)]
                    conjI[OF lab_smiles_unobtainium lab_inchi_unobtainium]]])
  define fin where "fin =
            logging INFO (InvalidCanonical ''[Na+]'')
              (write_invalid ((''[Na+]'' # sodium_row) @ [''No'', ''Yes'', ''No''])
                 (toolkit (CallMolToSmiles (Mol [11]))
                    (toolkit (CallMolFromSmiles ''[Na+]'')
                       (logging WARNING (PubchemNoValid ''[Na+]'')
                          (request (PubchemGet ''[Na+]'')
                             (request (CirpyResolve ''[Na+]'')
                                (logging INFO (WorkingOnRow sodium_row) init_state)))))))"
  have run: "process_row lab_env sodium_row init_state = Some (Inr (), fin)"
    unfolding fin_def by (rule lab_run_sodium)
  have files: "valid_out fin = []"
    "invalid_out fin = [(''[Na+]'' # sodium_row) @ [''No'', ''Yes'', ''No'']]"
    "no_info_out fin = []"
    by (simp_all add: fin_def logging_def request_def toolkit_def write_invalid_def
        init_state_def)
  from t[THEN conjunct2, THEN conjunct2, THEN conjunct2, THEN conjunct2, THEN mp,
         OF conjI[OF reaches_samples(1) run]]
  obtain x where x:
    "valid_out fin = valid_out init_state @ [x] \<and> invalid_out fin = invalid_out init_state
     \<or> invalid_out fin = invalid_out init_state @ [x] \<and> valid_out fin = valid_out init_state"
    "length (filter (\<lambda>f. f = ''Yes'') (row_flags x)) \<le> 1"
    by blast
  from x(1) files have "x = (''[Na+]'' # sodium_row) @ [''No'', ''Yes'', ''No'']"
    by (simp add: init_state_def)
  with x(2) have f: "length (filter (\<lambda>f. f = ''Yes'')
        (row_flags ((''[Na+]'' # sodium_row) @ [''No'', ''Yes'', ''No'']))) \<le> 1" by simp
  show ?thesis
    unfolding a s n u run
    using f files
    by (simp add: logging_def request_def toolkit_def init_state_def)
qed

subsection \<open>Carbon decides between valid and invalid\<close>

lemma resolved_row:
  assumes "reaches_resolution row iupac"
    and "resolve_formats env iupac (logging INFO (WorkingOnRow row) st)
           = Some (Inr ((iv, im), (sv, sm), (nv, nm)), st1)"
    and "iv \<or> sv \<or> nv"
    and "mol_or im (mol_or sm nm) = Some m" and "MolToSmiles env m = Inr c"
  shows "process_row env row st =
     Some (Inr (),
       if molecule_has_carbon (Some m) then
         logging INFO (ValidCanonical c)
           (write_valid ((c # row) @ [yes_no iv, yes_no sv, yes_no nv])
              (toolkit (CallMolToSmiles m) st1))
       else
         logging INFO (InvalidCanonical c)
           (write_invalid ((c # row) @ [yes_no iv, yes_no sv, yes_no nv])
              (toolkit (CallMolToSmiles m) st1)))"
proof -
  have "process_row_body env row st =
      write_resolved env row ((iv, im), (sv, sm), (nv, nm)) st1"
    using reaches_resolution_body[OF assms(1)] resolve_row_eq[OF assms(2)] by simp
  with write_resolved_resolved[OF assms(3-5), of row st1]
  show ?thesis
    by (intro process_row_returned) (simp add: molecule_has_carbon_def)
qed

lemma resolved_row_raise:
  assumes "reaches_resolution row iupac"
    and "resolve_formats env iupac (logging INFO (WorkingOnRow row) st)
           = Some (Inr ((iv, im), (sv, sm), (nv, nm)), st1)"
    and "iv \<or> sv \<or> nv"
    and "mol_or im (mol_or sm nm) = Some m" and "MolToSmiles env m = Inl e"
  shows "process_row env row st =
     Some (Inr (),
       write_invalid (row @ [''No'', ''No'', ''No''])
         (logging ERROR (ErrorProcessingRow row (exc_str e))
            (toolkit (CallMolToSmiles m) st1)))"
proof -
  have "process_row_body env row st =
      write_resolved env row ((iv, im), (sv, sm), (nv, nm)) st1"
    using reaches_resolution_body[OF assms(1)] resolve_row_eq[OF assms(2)] by simp
  also have "\<dots> = Some (Inl e, toolkit (CallMolToSmiles m) st1)"
    using assms(3-5)
    by (simp add: write_resolved_def mol_to_smiles_def outcome_def raises_def)
  finally show ?thesis by (rule process_row_handler)
qed

lemma first_resolved_mol:
  assumes "resolve_formats env iupac st = Some (Inr ((iv, im), (sv, sm), (nv, nm)), st1)"
    and "iv \<or> sv \<or> nv"
  shows "\<exists>m. mol_or im (mol_or sm nm) = Some m
           \<and> (iv \<longrightarrow> im = Some m \<and> \<not> sv \<and> \<not> nv)
           \<and> (sv \<longrightarrow> sm = Some m \<and> \<not> iv \<and> \<not> nv)
           \<and> (nv \<longrightarrow> nm = Some m \<and> \<not> iv \<and> \<not> sv)"
  using resolve_formats_shape[OF assms(1)] assms(2)
  by (cases im; cases sm; cases nm) (auto simp: mol_or_def)

text \<open>
  Claim C5, as the code has it.  Take a row that reaches the resolution step and for
  which some format resolved.  Exactly one format resolved; the molecule used is that
  format's (the first resolved structure), its flag is \<^verbatim>\<open>'Yes'\<close> and the other two are
  \<^verbatim>\<open>'No'\<close>.  When the toolkit gives the canonical SMILES \<open>c\<close> of the molecule, the row is
  written with \<open>c\<close> as new first field and the three flags at the end: to the valid file
  when the molecule has an atom with atomic number 6, to the invalid file when it has
  none.  When the toolkit raises instead, the handler of the row writes the row as read,
  with three \<^verbatim>\<open>'No'\<close> flags, to the invalid file.
\<close>

theorem resolved_row_classified_by_carbon:
  "reaches_resolution row iupac
   \<and> resolve_formats env iupac (logging INFO (WorkingOnRow row) st)
       = Some (Inr ((iv, im), (sv, sm), (nv, nm)), st1)
   \<and> (iv \<or> sv \<or> nv) \<longrightarrow>
   (\<exists>m. mol_or im (mol_or sm nm) = Some m
      \<and> (iv \<longrightarrow> im = Some m
              \<and> [yes_no iv, yes_no sv, yes_no nv] = [''Yes'', ''No'', ''No''])
      \<and> (sv \<longrightarrow> sm = Some m
              \<and> [yes_no iv, yes_no sv, yes_no nv] = [''No'', ''Yes'', ''No''])
      \<and> (nv \<longrightarrow> nm = Some m
              \<and> [yes_no iv, yes_no sv, yes_no nv] = [''No'', ''No'', ''Yes''])
      \<and> molecule_has_carbon (Some m) = (6 \<in> set (GetAtoms m))
      \<and> (\<forall>c. MolToSmiles env m = Inr c \<longrightarrow>
            process_row env row st =
              Some (Inr (),
                if molecule_has_carbon (Some m) then
                  logging INFO (ValidCanonical c)
                    (write_valid ((c # row) @ [yes_no iv, yes_no sv, yes_no nv])
                       (toolkit (CallMolToSmiles m) st1))
                else
                  logging INFO (InvalidCanonical c)
                    (write_invalid ((c # row) @ [yes_no iv, yes_no sv, yes_no nv])
                       (toolkit (CallMolToSmiles m) st1))))
      \<and> (\<forall>e. MolToSmiles env m = Inl e \<longrightarrow>
            process_row env row st =
              Some (Inr (),
                write_invalid (row @ [''No'', ''No'', ''No''])
                  (logging ERROR (ErrorProcessingRow row (exc_str e))
                     (toolkit (CallMolToSmiles m) st1)))))"
proof
  assume a: "reaches_resolution row iupac
   \<and> resolve_formats env iupac (logging INFO (WorkingOnRow row) st)
       = Some (Inr ((iv, im), (sv, sm), (nv, nm)), st1)
   \<and> (iv \<or> sv \<or> nv)"
  then have a1: "reaches_resolution row iupac"
    and a2: "resolve_formats env iupac (logging INFO (WorkingOnRow row) st)
       = Some (Inr ((iv, im), (sv, sm), (nv, nm)), st1)"
    and a3: "iv \<or> sv \<or> nv" by blast+
  from first_resolved_mol[OF a2 a3] obtain m where
    m: "mol_or im (mol_or sm nm) = Some m"
      "iv \<longrightarrow> im = Some m \<and> \<not> sv \<and> \<not> nv"
      "sv \<longrightarrow> sm = Some m \<and> \<not> iv \<and> \<not> nv"
      "nv \<longrightarrow> nm = Some m \<and> \<not> iv \<and> \<not> sv"
    by blast
  have carbon: "molecule_has_carbon (Some m) = (6 \<in> set (GetAtoms m))"
    by (simp add: molecule_has_carbon_def has_carbon_atom_iff)
  have written: "\<forall>c. MolToSmiles env m = Inr c \<longrightarrow>
            process_row env row st =
              Some (Inr (),
                if molecule_has_carbon (Some m) then
                  logging INFO (ValidCanonical c)
                    (write_valid ((c # row) @ [yes_no iv, yes_no sv, yes_no nv])
                       (toolkit (CallMolToSmiles m) st1))
                else
                  logging INFO (InvalidCanonical c)
                    (write_invalid ((c # row) @ [yes_no iv, yes_no sv, yes_no nv])
                       (toolkit (CallMolToSmiles m) st1)))"
    using resolved_row[OF a1 a2 a3 m(1)] by blast
  have failed: "\<forall>e. MolToSmiles env m = Inl e \<longrightarrow>
            process_row env row st =
              Some (Inr (),
                write_invalid (row @ [''No'', ''No'', ''No''])
                  (logging ERROR (ErrorProcessingRow row (exc_str e))
                     (toolkit (CallMolToSmiles m) st1)))"
    using resolved_row_raise[OF a1 a2 a3 m(1)] by blast
  have fi: "iv \<longrightarrow> im = Some m
              \<and> [yes_no iv, yes_no sv, yes_no nv] = [''Yes'', ''No'', ''No'']"
    using m(2) by (cases iv) (simp_all add: yes_no_def)
  have fs: "sv \<longrightarrow> sm = Some m
              \<and> [yes_no iv, yes_no sv, yes_no nv] = [''No'', ''Yes'', ''No'']"
    using m(3) by (cases sv) (simp_all add: yes_no_def)
  have fn: "nv \<longrightarrow> nm = Some m
              \<and> [yes_no iv, yes_no sv, yes_no nv] = [''No'', ''No'', ''Yes'']"
    using m(4) by (cases nv) (simp_all add: yes_no_def)
  show "\<exists>m. mol_or im (mol_or sm nm) = Some m
      \<and> (iv \<longrightarrow> im = Some m
              \<and> [yes_no iv, yes_no sv, yes_no nv] = [''Yes'', ''No'', ''No''])
      \<and> (sv \<longrightarrow> sm = Some m
              \<and> [yes_no iv, yes_no sv, yes_no nv] = [''No'', ''Yes'', ''No''])
      \<and> (nv \<longrightarrow> nm = Some m
              \<and> [yes_no iv, yes_no sv, yes_no nv] = [''No'', ''No'', ''Yes''])
      \<and> molecule_has_carbon (Some m) = (6 \<in> set (GetAtoms m))
      \<and> (\<forall>c. MolToSmiles env m = Inr c \<longrightarrow>
            process_row env row st =
              Some (Inr (),
                if molecule_has_carbon (Some m) then
                  logging INFO (ValidCanonical c)
                    (write_valid ((c # row) @ [yes_no iv, yes_no sv, yes_no nv])
                       (toolkit (CallMolToSmiles m) st1))
                else
                  logging INFO (InvalidCanonical c)
                    (write_invalid ((c # row) @ [yes_no iv, yes_no sv, yes_no nv])
                       (toolkit (CallMolToSmiles m) st1))))
      \<and> (\<forall>e. MolToSmiles env m = Inl e \<longrightarrow>
            process_row env row st =
              Some (Inr (),
                write_invalid (row @ [''No'', ''No'', ''No''])
                  (logging ERROR (ErrorProcessingRow row (exc_str e))
                     (toolkit (CallMolToSmiles m) st1))))"
    by (intro exI[of _ m] conjI) (rule m(1) fi fs fn carbon written failed)+
qed

lemma lab_iupac_water:
  "validate_identifier lab_env ''water'' ''iupac'' st =
     Some (Inr (True, Some (Mol [8])),
           toolkit (CallMolFromSmiles ''O'') (request (CirpyResolve ''water'') st))"
  by (simp add: validate_defs resolve_lab lab_env_fields)

theorem resolved_row_classified_by_carbon_witness:
  "map_option (\<lambda>(r, st'). (r, valid_out st', invalid_out st'))
      (process_row lab_env aspirin_row init_state) =
     Some (Inr (), [(''CC(=O)Oc1ccccc1C(=O)O'' # aspirin_row) @ [''Yes'', ''No'', ''No'']], [])
   \<and> map_option (\<lambda>(r, st'). (r, valid_out st', invalid_out st'))
      (process_row lab_env water_row init_state) =
     Some (Inr (), [], [(''O'' # water_row) @ [''Yes'', ''No'', ''No'']])"
proof -
  let ?a0 = "logging INFO (WorkingOnRow aspirin_row) init_state"
  let ?a1 = "toolkit (CallMolFromSmiles ''CC(=O)Oc1ccccc1C(O)=O'')
               (request (CirpyResolve ''aspirin'') ?a0)"
  have ra: "resolve_formats lab_env ''aspirin'' ?a0 =
      Some (Inr ((True, Some aspirin), (False, None), (False, None)), ?a1)"
    by (rule resolve_formats_iupac[OF lab_iupac_aspirin])
  from resolved_row_classified_by_carbon
         [THEN mp, OF conjI[OF reaches_samples(2) conjI[OF ra]]]
  obtain m where m: "True \<longrightarrow> Some aspirin = Some m
              \<and> [yes_no True, yes_no False, yes_no False] = [''Yes'', ''No'', ''No'']"
     "molecule_has_carbon (Some m) = (6 \<in> set (GetAtoms m))"
     "\<forall>c. MolToSmiles lab_env m = Inr c \<longrightarrow>
            process_row lab_env aspirin_row init_state =
              Some (Inr (),
                if molecule_has_carbon (Some m) then
                  logging INFO (ValidCanonical c)
                    (write_valid ((c # aspirin_row) @ [yes_no True, yes_no False, yes_no False])
                       (toolkit (CallMolToSmiles m) ?a1))
                else
                  logging INFO (InvalidCanonical c)
                    (write_invalid ((c # aspirin_row) @ [yes_no True, yes_no False, yes_no False])
                       (toolkit (CallMolToSmiles m) ?a1)))"
    by blast
  from m(1) have ma: "m = aspirin" by simp
  have ca: "MolToSmiles lab_env aspirin = Inr ''CC(=O)Oc1ccccc1C(=O)O''"
    by (simp add: lab_env_fields)
  have a: "process_row lab_env aspirin_row init_state =
      Some (Inr (), logging INFO (ValidCanonical ''CC(=O)Oc1ccccc1C(=O)O'')
                    (write_valid ((''CC(=O)Oc1ccccc1C(=O)O'' # aspirin_row) @ [''Yes'', ''No'', ''No''])
                       (toolkit (CallMolToSmiles aspirin) ?a1)))"
    using m(2,3) ca unfolding ma by (simp add: aspirin_def yes_no_def)
  let ?w0 = "logging INFO (WorkingOnRow water_row) init_state"
  let ?w1 = "toolkit (CallMolFromSmiles ''O'') (request (CirpyResolve ''water'') ?w0)"
  have rw: "resolve_formats lab_env ''water'' ?w0 =
      Some (Inr ((True, Some (Mol [8])), (False, None), (False, None)), ?w1)"
    by (rule resolve_formats_iupac[OF lab_iupac_water])
  from resolved_row_classified_by_carbon
         [THEN mp, OF conjI[OF reaches_samples(3) conjI[OF rw]]]
  obtain m' where m': "True \<longrightarrow> Some (Mol [8]) = Some m'
              \<and> [yes_no True, yes_no False, yes_no False] = [''Yes'', ''No'', ''No'']"
     "molecule_has_carbon (Some m') = (6 \<in> set (GetAtoms m'))"
     "\<forall>c. MolToSmiles lab_env m' = Inr c \<longrightarrow>
            process_row lab_env water_row init_state =
              Some (Inr (),
                if molecule_has_carbon (Some m') then
                  logging INFO (ValidCanonical c)
                    (write_valid ((c # water_row) @ [yes_no True, yes_no False, yes_no False])
                       (toolkit (CallMolToSmiles m') ?w1))
                else
                  logging INFO (InvalidCanonical c)
                    (write_invalid ((c # water_row) @ [yes_no True, yes_no False, yes_no False])
                       (toolkit (CallMolToSmiles m') ?w1)))"
    by blast
  from m'(1) have mw: "m' = Mol [8]" by simp
  have cw: "MolToSmiles lab_env (Mol [8]) = Inr ''O''"
    by (simp add: lab_env_fields aspirin_def)
  have w: "process_row lab_env water_row init_state =
      Some (Inr (), logging INFO (InvalidCanonical ''O'')
                    (write_invalid ((''O'' # water_row) @ [''Yes'', ''No'', ''No''])
                       (toolkit (CallMolToSmiles (Mol [8])) ?w1)))"
    using m'(2,3) cw unfolding mw by (simp add: yes_no_def)
  show ?thesis
    unfolding a w
    by (simp add: logging_def request_def toolkit_def write_valid_def write_invalid_def
        init_state_def)
qed

lemma brittle_answers: "cirpy_answers brittle_env t s"
  by (simp add: cirpy_answers_def brittle_env_def lab_env_fields)

lemma brittle_env_fields:
  "cirpy_resolve brittle_env = cirpy_resolve lab_env"
  "pubchem_json brittle_env = pubchem_json lab_env"
  "MolFromSmiles brittle_env = MolFromSmiles lab_env"
  "MolFromInchi brittle_env = MolFromInchi lab_env"
  "MolToSmiles brittle_env = (\<lambda>m. Inl (Exception ''RuntimeError'' ''no canonical form''))"
  by (simp_all add: brittle_env_def)

text \<open>
  Claim C5 as stated fails where the canonical form cannot be computed.
  \<^verbatim>\<open>Chem.MolToSmiles(mol)\<close> (line 230) is a call of the toolkit inside the \<^verbatim>\<open>try\<close> of
  the row: when it raises, the handler of the row takes over.  Here CIRpy resolves
  \<^verbatim>\<open>aspirin\<close>, the molecule has carbon, \<^verbatim>\<open>MolToSmiles\<close> raises: the row is not written
  to the valid file but to the invalid file, as read, with three \<^verbatim>\<open>'No'\<close> flags and
  no canonical SMILES in front.
\<close>

theorem canonical_form_failure_counterexample:
  "map_option fst (resolve_formats brittle_env ''aspirin'' init_state)
     = Some (Inr ((True, Some aspirin), (False, None), (False, None)))
   \<and> molecule_has_carbon (Some aspirin)
   \<and> map_option fst (process_row brittle_env aspirin_row init_state) = Some (Inr ())
   \<and> map_option (valid_out \<circ> snd) (process_row brittle_env aspirin_row init_state) = Some []
   \<and> map_option (invalid_out \<circ> snd) (process_row brittle_env aspirin_row init_state)
     = Some [[''aspirin'', '''', ''x'', ''null'', ''null'', ''null'', ''null'', '''', '''', ''ref123'',
              ''No'', ''No'', ''No'']]"
  by (simp add: run_defs resolve_answers[OF brittle_answers] brittle_env_fields lab_env_fields
      useful_info_from.simps aspirin_row_def init_state_def aspirin_def)

subsection \<open>Widths in the invalid file\<close>

lemma unresolved_row:
  assumes "reaches_resolution row iupac"
    and "resolve_formats env iupac (logging INFO (WorkingOnRow row) st)
           = Some (Inr ((False, im), (False, sm), (False, nm)), st1)"
  shows "process_row env row st =
           Some (Inr (), write_invalid (row @ [''No'', ''No'', ''No'']) st1)"
proof -
  have "process_row_body env row st =
      write_resolved env row ((False, im), (False, sm), (False, nm)) st1"
    using reaches_resolution_body[OF assms(1)] resolve_row_eq[OF assms(2)] by simp
  then show ?thesis
    by (intro process_row_returned) (simp add: write_resolved_unresolved)
qed

text \<open>
  Claim C10.  In the invalid file only the rows that resolved to a molecule without
  carbon have the canonical SMILES in front.  A row for which no format resolved, and a
  row sent there by the exception handler, is the row as read followed by three \<^verbatim>\<open>'No'\<close>
  flags.  So for a row with as many fields as the input header, the first kind is as wide
  as the header of the file and the other two kinds are one field short of it.
\<close>

theorem invalid_rows_without_canonical:
  "(reaches_resolution row iupac
      \<and> resolve_formats env iupac (logging INFO (WorkingOnRow row) st)
          = Some (Inr ((False, im), (False, sm), (False, nm)), st1) \<longrightarrow>
      process_row env row st =
        Some (Inr (), write_invalid (row @ [''No'', ''No'', ''No'']) st1))
   \<and> (process_row_body env row st = Some (Inl e, st2) \<longrightarrow>
      process_row env row st =
        Some (Inr (), write_invalid (row @ [''No'', ''No'', ''No''])
                        (logging ERROR (ErrorProcessingRow row (exc_str e)) st2)))
   \<and> (reaches_resolution row iupac
      \<and> resolve_formats env iupac (logging INFO (WorkingOnRow row) st)
          = Some (Inr ((iv, im3), (sv, sm3), (nv, nm3)), st3)
      \<and> (iv \<or> sv \<or> nv) \<and> mol_or im3 (mol_or sm3 nm3) = Some m
      \<and> MolToSmiles env m = Inr c \<and> \<not> molecule_has_carbon (Some m) \<longrightarrow>
      process_row env row st =
        Some (Inr (),
              logging INFO (InvalidCanonical c)
                (write_invalid ((c # row) @ [yes_no iv, yes_no sv, yes_no nv])
                   (toolkit (CallMolToSmiles m) st3))))
   \<and> (length row = length first \<longrightarrow>
        length (row @ [''No'', ''No'', ''No'']) + 1 =
          length (''canonical_smiles'' # first
                    @ [''iupac_resolved'', ''smiles_resolved'', ''inchi_resolved''])
      \<and> length ((c # row) @ [yes_no iv, yes_no sv, yes_no nv]) =
          length (''canonical_smiles'' # first
                    @ [''iupac_resolved'', ''smiles_resolved'', ''inchi_resolved'']))"
proof (intro conjI impI)
  assume "reaches_resolution row iupac
      \<and> resolve_formats env iupac (logging INFO (WorkingOnRow row) st)
          = Some (Inr ((False, im), (False, sm), (False, nm)), st1)"
  then have a1: "reaches_resolution row iupac"
    and a2: "resolve_formats env iupac (logging INFO (WorkingOnRow row) st)
          = Some (Inr ((False, im), (False, sm), (False, nm)), st1)" by blast+
  show "process_row env row st =
        Some (Inr (), write_invalid (row @ [''No'', ''No'', ''No'']) st1)"
    by (rule unresolved_row[OF a1 a2])
next
  assume "process_row_body env row st = Some (Inl e, st2)"
  then show "process_row env row st =
        Some (Inr (), write_invalid (row @ [''No'', ''No'', ''No''])
                        (logging ERROR (ErrorProcessingRow row (exc_str e)) st2))"
    by (rule process_row_handler)
next
  assume "reaches_resolution row iupac
      \<and> resolve_formats env iupac (logging INFO (WorkingOnRow row) st)
          = Some (Inr ((iv, im3), (sv, sm3), (nv, nm3)), st3)
      \<and> (iv \<or> sv \<or> nv) \<and> mol_or im3 (mol_or sm3 nm3) = Some m
      \<and> MolToSmiles env m = Inr c \<and> \<not> molecule_has_carbon (Some m)"
  then have b1: "reaches_resolution row iupac"
    and b2: "resolve_formats env iupac (logging INFO (WorkingOnRow row) st)
          = Some (Inr ((iv, im3), (sv, sm3), (nv, nm3)), st3)"
    and b3: "iv \<or> sv \<or> nv" and b4: "mol_or im3 (mol_or sm3 nm3) = Some m"
    and b5: "MolToSmiles env m = Inr c" and b6: "\<not> molecule_has_carbon (Some m)" by blast+
  show "process_row env row st =
        Some (Inr (),
              logging INFO (InvalidCanonical c)
                (write_invalid ((c # row) @ [yes_no iv, yes_no sv, yes_no nv])
                   (toolkit (CallMolToSmiles m) st3)))"
    using resolved_row[OF b1 b2 b3 b4 b5] b6 by simp
next
  assume "length row = length first"
  then show "length (row @ [''No'', ''No'', ''No'']) + 1 =
          length (''canonical_smiles'' # first
                    @ [''iupac_resolved'', ''smiles_resolved'', ''inchi_resolved''])"
    by simp
next
  assume "length row = length first"
  then show "length ((c # row) @ [yes_no iv, yes_no sv, yes_no nv]) =
          length (''canonical_smiles'' # first
                    @ [''iupac_resolved'', ''smiles_resolved'', ''inchi_resolved''])"
    by simp
qed

lemma lab_resolve_unobtainium:
  "resolve_formats lab_env ''unobtainium'' st =
      Some (Inr ((False, None), (False, None), (False, None)),
            logging ERROR (InvalidInchi ''unobtainium'')
              (toolkit (CallMolFromInchi ''unobtainium'')
                 (logging WARNING (SkippingSmiles ''unobtainium'')
                    (logging WARNING (PubchemNoValid ''unobtainium'')
                       (request (PubchemGet ''unobtainium'')
                          (request (CirpyResolve ''unobtainium'') st))))))"
  by (rule resolve_formats_inchi[OF lab_iupac_unknown lab_smiles_unobtainium
        lab_inchi_unobtainium]) simp_all

theorem invalid_rows_without_canonical_witness:
  "map_option (\<lambda>(r, st'). map length (invalid_out st'))
      (process_results lab_env [Inr sample_header, Inr water_row, Inr unknown_row, Inr []]
         init_state)
     = Some [14, 14, 13, 3]
   \<and> map_option (\<lambda>(r, st'). invalid_out st') (process_row lab_env unknown_row init_state)
     = Some [unknown_row @ [''No'', ''No'', ''No'']]
   \<and> map_option (\<lambda>(r, st'). invalid_out st') (process_row lab_env [] init_state)
     = Some [[''No'', ''No'', ''No'']]
   \<and> map_option (\<lambda>(r, st'). invalid_out st') (process_row lab_env water_row init_state)
     = Some [(''O'' # water_row) @ [''Yes'', ''No'', ''No'']]"
proof -
  note t = invalid_rows_without_canonical[where env = lab_env]
  have u: "process_row lab_env unknown_row st =
      Some (Inr (), write_invalid (unknown_row @ [''No'', ''No'', ''No''])
         (logging ERROR (InvalidInchi ''unobtainium'')
              (toolkit (CallMolFromInchi ''unobtainium'')
                 (logging WARNING (SkippingSmiles ''unobtainium'')
                    (logging WARNING (PubchemNoValid ''unobtainium'')
                       (request (PubchemGet ''unobtainium'')
                          (request (CirpyResolve ''unobtainium'')
                             (logging INFO (WorkingOnRow unknown_row) st))))))))" for st
    by (rule t[THEN conjunct1, THEN mp,
                OF conjI[OF reaches_samples(4) lab_resolve_unobtainium]])
  have body: "process_row_body lab_env [] st = Some (Inl IndexError, st)" for st
    by (simp add: process_row_body_def raises_def)
  have e: "process_row lab_env [] st =
      Some (Inr (), write_invalid ([] @ [''No'', ''No'', ''No''])
                        (logging ERROR (ErrorProcessingRow [] (exc_str IndexError)) st))" for st
    by (rule t[THEN conjunct2, THEN conjunct1, THEN mp, OF body])
  have rw: "resolve_formats lab_env ''water'' (logging INFO (WorkingOnRow water_row) st) =
      Some (Inr ((True, Some (Mol [8])), (False, None), (False, None)),
            toolkit (CallMolFromSmiles ''O'')
              (request (CirpyResolve ''water'') (logging INFO (WorkingOnRow water_row) st)))" for st
    by (rule resolve_formats_iupac[OF lab_iupac_water])
  have w: "process_row lab_env water_row st =
      Some (Inr (),
              logging INFO (InvalidCanonical ''O'')
                (write_invalid ((''O'' # water_row) @ [yes_no True, yes_no False, yes_no False])
                   (toolkit (CallMolToSmiles (Mol [8]))
                      (toolkit (CallMolFromSmiles ''O'')
                         (request (CirpyResolve ''water'')
                            (logging INFO (WorkingOnRow water_row) st))))))" for st
    by (rule t[where iupac = "''water''" and ?im3.0 = "Some (Mol [8])" and ?sm3.0 = None
                 and ?nm3.0 = None,
               THEN conjunct2, THEN conjunct2, THEN conjunct1, THEN mp])
       (simp add: reaches_samples rw mol_or_def lab_env_fields aspirin_def
          molecule_has_carbon_def)
  show ?thesis
    apply (simp add: process_results_def Let_def u e w write_invalid_def logging_def
        request_def toolkit_def returns_def yes_no_def init_state_def IndexError_def)
    apply (simp add: sample_header_def water_row_def unknown_row_def)
    done
qed

subsection \<open>Every row goes to exactly one file\<close>

lemma process_results_Some:
  assumes "process_results env (Inr first # items) st = Some (r, st')"
  shows "r = (case reader_fault items of None \<Rightarrow> Inr () | Some e \<Rightarrow> Inl e) \<and>
     (\<exists>outs.
        list_all2 (\<lambda>row out. written_as (fst out) row (snd out)) (rows_read items) outs
      \<and> valid_out st' =
          (''canonical_smiles'' # first @ [''iupac_resolved'', ''smiles_resolved'', ''inchi_resolved''])
          # rows_of ValidFile outs
      \<and> invalid_out st' =
          (''canonical_smiles'' # first @ [''iupac_resolved'', ''smiles_resolved'', ''inchi_resolved''])
          # rows_of InvalidFile outs
      \<and> no_info_out st' =
          take 10 (''canonical_smiles'' # first
                    @ [''iupac_resolved'', ''smiles_resolved'', ''inchi_resolved''])
          # rows_of NoInfoFile outs
      \<and> length (rows_of ValidFile outs) + length (rows_of InvalidFile outs)
          + length (rows_of NoInfoFile outs) = length (rows_read items))"
proof -
  let ?headers = "''canonical_smiles'' # first
                    @ [''iupac_resolved'', ''smiles_resolved'', ''inchi_resolved'']"
  let ?st0 = "st\<lparr>valid_out := [?headers], invalid_out := [?headers],
                  no_info_out := [take 10 ?headers]\<rparr>"
  from assms have "process_rows env items ?st0 = Some (r, st')"
    by (simp add: process_results_def Let_def)
  from process_rows_Some[OF this] obtain outs where
    r: "r = (case reader_fault items of None \<Rightarrow> Inr () | Some e \<Rightarrow> Inl e)" and
    l: "list_all2 (\<lambda>row out. written_as (fst out) row (snd out)) (rows_read items) outs" and
    o: "valid_out st' = valid_out ?st0 @ rows_of ValidFile outs"
       "invalid_out st' = invalid_out ?st0 @ rows_of InvalidFile outs"
       "no_info_out st' = no_info_out ?st0 @ rows_of NoInfoFile outs"
    by blast
  from l have "length outs = length (rows_read items)"
    by (simp add: list_all2_lengthD)
  with rows_of_lengths[of outs]
  have n: "length (rows_of ValidFile outs) + length (rows_of InvalidFile outs)
          + length (rows_of NoInfoFile outs) = length (rows_read items)" by simp
  from r l o n show ?thesis by (intro conjI exI[of _ outs]) simp_all
qed

text \<open>
  Claim C1, as the code has it.  Processing one row, when it returns, returns normally
  and has written exactly one row to exactly one of the three files, the other two
  untouched; the row written is the input row, in the form of that file: its first ten
  fields in the no-info file; a canonical SMILES, the row and three flags with one
  \<^verbatim>\<open>'Yes'\<close> in the valid file; that, or the row and three \<^verbatim>\<open>'No'\<close>, in the invalid file.

  A run of \<open>process_results\<close> on a file with a header, when it ends, leaves in each file
  its header followed by data rows; these are, in the order of the input, the rows that
  the reader yielded, each one in exactly one file and in the form of that file, so the
  three numbers of data rows add up to the number of rows that the reader yielded.  The
  run ends normally when the reader raised nothing, and then the rows yielded are all
  the records of the input; it ends with the exception of the reader otherwise, and no
  later record is read.  The run does end when no reply of CIRpy is taken for an outage
  of CACTUS (otherwise it waits for CACTUS, possibly for ever).
\<close>

theorem process_results_partition:
  "(\<forall>r st'. process_row env row st = Some (r, st') \<longrightarrow> r = Inr () \<and> wrote_row row st st')
   \<and> (\<forall>r st'. process_results env (Inr first # items) st = Some (r, st') \<longrightarrow>
        r = (case reader_fault items of None \<Rightarrow> Inr () | Some e \<Rightarrow> Inl e) \<and>
        (\<exists>outs.
           list_all2 (\<lambda>row out. written_as (fst out) row (snd out)) (rows_read items) outs
         \<and> valid_out st' =
             (''canonical_smiles'' # first
                @ [''iupac_resolved'', ''smiles_resolved'', ''inchi_resolved''])
             # rows_of ValidFile outs
         \<and> invalid_out st' =
             (''canonical_smiles'' # first
                @ [''iupac_resolved'', ''smiles_resolved'', ''inchi_resolved''])
             # rows_of InvalidFile outs
         \<and> no_info_out st' =
             take 10 (''canonical_smiles'' # first
                       @ [''iupac_resolved'', ''smiles_resolved'', ''inchi_resolved''])
             # rows_of NoInfoFile outs
         \<and> length (rows_of ValidFile outs) + length (rows_of InvalidFile outs)
             + length (rows_of NoInfoFile outs) = length (rows_read items)))
   \<and> (reader_fault items = None \<longrightarrow> map Inr (rows_read items) = items)
   \<and> ((\<forall>t s. cirpy_answers env t s) \<longrightarrow>
        halts (process_row env row st) \<and> halts (process_results env input st))"
proof (intro conjI allI impI)
  fix r st' assume "process_row env row st = Some (r, st')"
  then show "r = Inr ()" "wrote_row row st st'"
    using process_row_Some by blast+
next
  fix r st' assume a: "process_results env (Inr first # items) st = Some (r, st')"
  from process_results_Some[OF a]
  show "r = (case reader_fault items of None \<Rightarrow> Inr () | Some e \<Rightarrow> Inl e)" by blast
  from process_results_Some[OF a]
  show "\<exists>outs.
           list_all2 (\<lambda>row out. written_as (fst out) row (snd out)) (rows_read items) outs
         \<and> valid_out st' =
             (''canonical_smiles'' # first
                @ [''iupac_resolved'', ''smiles_resolved'', ''inchi_resolved''])
             # rows_of ValidFile outs
         \<and> invalid_out st' =
             (''canonical_smiles'' # first
                @ [''iupac_resolved'', ''smiles_resolved'', ''inchi_resolved''])
             # rows_of InvalidFile outs
         \<and> no_info_out st' =
             take 10 (''canonical_smiles'' # first
                       @ [''iupac_resolved'', ''smiles_resolved'', ''inchi_resolved''])
             # rows_of NoInfoFile outs
         \<and> length (rows_of ValidFile outs) + length (rows_of InvalidFile outs)
             + length (rows_of NoInfoFile outs) = length (rows_read items)" by blast
next
  assume "reader_fault items = None"
  then show "map Inr (rows_read items) = items" by (rule rows_read_no_fault)
next
  assume a: "\<forall>t s. cirpy_answers env t s"
  show "halts (process_row env row st)" by (rule halts_process_row[OF a])
  show "halts (process_results env input st)" by (rule halts_process_results[OF a])
qed

text \<open>The sample rows in the laboratory world, from any state.\<close>

lemma lab_run_aspirin:
  "process_row lab_env aspirin_row st =
     Some (Inr (),
       logging INFO (ValidCanonical ''CC(=O)Oc1ccccc1C(=O)O'')
         (write_valid ((''CC(=O)Oc1ccccc1C(=O)O'' # aspirin_row) @ [''Yes'', ''No'', ''No''])
            (toolkit (CallMolToSmiles aspirin)
               (toolkit (CallMolFromSmiles ''CC(=O)Oc1ccccc1C(O)=O'')
                  (request (CirpyResolve ''aspirin'')
                     (logging INFO (WorkingOnRow aspirin_row) st))))))"
proof -
  have c: "MolToSmiles lab_env aspirin = Inr ''CC(=O)Oc1ccccc1C(=O)O''"
    by (simp add: lab_env_fields)
  have m: "mol_or (Some aspirin) (mol_or None None) = Some aspirin"
    by (simp add: mol_or_def)
  have "True \<or> False \<or> False" by simp
  from resolved_row[OF reaches_samples(2) resolve_formats_iupac[OF lab_iupac_aspirin] this m c]
  show ?thesis
    by (simp add: molecule_has_carbon_def aspirin_def yes_no_def)
qed

lemma lab_run_water:
  "process_row lab_env water_row st =
     Some (Inr (),
       logging INFO (InvalidCanonical ''O'')
         (write_invalid ((''O'' # water_row) @ [''Yes'', ''No'', ''No''])
            (toolkit (CallMolToSmiles (Mol [8]))
               (toolkit (CallMolFromSmiles ''O'')
                  (request (CirpyResolve ''water'')
                     (logging INFO (WorkingOnRow water_row) st))))))"
proof -
  have c: "MolToSmiles lab_env (Mol [8]) = Inr ''O''"
    by (simp add: lab_env_fields aspirin_def)
  have m: "mol_or (Some (Mol [8])) (mol_or None None) = Some (Mol [8])"
    by (simp add: mol_or_def)
  have "True \<or> False \<or> False" by simp
  from resolved_row[OF reaches_samples(3) resolve_formats_iupac[OF lab_iupac_water] this m c]
  show ?thesis
    by (simp add: molecule_has_carbon_def yes_no_def)
qed

lemma lab_run_unknown:
  "process_row lab_env unknown_row st =
     Some (Inr (),
       write_invalid (unknown_row @ [''No'', ''No'', ''No''])
         (logging ERROR (InvalidInchi ''unobtainium'')
            (toolkit (CallMolFromInchi ''unobtainium'')
               (logging WARNING (SkippingSmiles ''unobtainium'')
                  (logging WARNING (PubchemNoValid ''unobtainium'')
                     (request (PubchemGet ''unobtainium'')
                        (request (CirpyResolve ''unobtainium'')
                           (logging INFO (WorkingOnRow unknown_row) st))))))))"
  by (rule unresolved_row[OF reaches_samples(4) lab_resolve_unobtainium])

lemma lab_run_blank:
  "process_row env [] st =
     Some (Inr (),
       write_invalid [''No'', ''No'', ''No'']
         (logging ERROR (ErrorProcessingRow [] ''list index out of range'') st))"
  by (simp add: process_row_def process_row_body_def raises_def returns_def IndexError_def)

lemma lab_run_null:
  "process_row env null_row st = Some (Inr (), write_no_info null_row st)"
  by (simp add: process_row_def process_row_body_def returns_def null_row_def)

lemma lab_run_bare:
  "process_row env bare_row st =
     Some (Inr (), write_no_info bare_row (logging INFO (SkippingRow bare_row) st))"
  by (simp add: process_row_def process_row_body_def returns_def outcome_def bare_row_def
      useful_info_from.simps)

lemmas lab_runs =
  lab_run_aspirin lab_run_water lab_run_unknown lab_run_blank lab_run_null lab_run_bare

theorem process_results_partition_witness:
  "map_option (\<lambda>(r, st'). (r, wrote_row aspirin_row init_state st'))
      (process_row lab_env aspirin_row init_state) = Some (Inr (), True)
   \<and> reader_fault (tl sample_input) = None
   \<and> map_option (\<lambda>(r, st'). (r, valid_out st', invalid_out st', no_info_out st'))
      (process_results lab_env sample_input init_state)
     = Some (Inr (),
         [''canonical_smiles'' # sample_header
            @ [''iupac_resolved'', ''smiles_resolved'', ''inchi_resolved''],
          (''CC(=O)Oc1ccccc1C(=O)O'' # aspirin_row) @ [''Yes'', ''No'', ''No'']],
         [''canonical_smiles'' # sample_header
            @ [''iupac_resolved'', ''smiles_resolved'', ''inchi_resolved''],
          (''O'' # water_row) @ [''Yes'', ''No'', ''No''],
          [''No'', ''No'', ''No''],
          unknown_row @ [''No'', ''No'', ''No'']],
         [take 10 (''canonical_smiles'' # sample_header
                     @ [''iupac_resolved'', ''smiles_resolved'', ''inchi_resolved'']),
          null_row, bare_row])
   \<and> map_option (\<lambda>(r, st'). length (valid_out st') - 1 + (length (invalid_out st') - 1)
                                + (length (no_info_out st') - 1))
      (process_results lab_env sample_input init_state)
     = Some (length (tl sample_input))"
proof -
  note t = process_results_partition
    [where env = lab_env and row = aspirin_row and st = init_state
       and first = sample_header
       and items = "[Inr aspirin_row, Inr null_row, Inr water_row, Inr [], Inr unknown_row,
                      Inr bare_row]"
       and input = sample_input]
  have answers: "\<forall>t s. cirpy_answers lab_env t s"
    by (simp add: cirpy_answers_lab)
  have input: "sample_input =
      Inr sample_header # [Inr aspirin_row, Inr null_row, Inr water_row, Inr [], Inr unknown_row,
                      Inr bare_row]"
    by (simp add: sample_input_def)
  have nofault: "reader_fault [Inr aspirin_row, Inr null_row, Inr water_row, Inr [],
      Inr unknown_row, Inr bare_row] = None"
    by simp
  from t answers obtain r1 st1 where
    1: "process_row lab_env aspirin_row init_state = Some (r1, st1)"
    by (auto simp: halts_def)
  with t have 2: "r1 = Inr ()" "wrote_row aspirin_row init_state st1" by blast+
  from t answers obtain r2 st2 where
    3: "process_results lab_env sample_input init_state = Some (r2, st2)"
    by (auto simp: halts_def)
  from t[THEN conjunct2, THEN conjunct1, rule_format, OF 3[unfolded input]] nofault
  obtain outs where
    4: "r2 = Inr ()" and
    5: "valid_out st2 =
             (''canonical_smiles'' # sample_header
                @ [''iupac_resolved'', ''smiles_resolved'', ''inchi_resolved''])
             # rows_of ValidFile outs"
       "invalid_out st2 =
             (''canonical_smiles'' # sample_header
                @ [''iupac_resolved'', ''smiles_resolved'', ''inchi_resolved''])
             # rows_of InvalidFile outs"
       "no_info_out st2 =
             take 10 (''canonical_smiles'' # sample_header
                       @ [''iupac_resolved'', ''smiles_resolved'', ''inchi_resolved''])
             # rows_of NoInfoFile outs" and
    6: "length (rows_of ValidFile outs) + length (rows_of InvalidFile outs)
             + length (rows_of NoInfoFile outs)
         = length (rows_read [Inr aspirin_row, Inr null_row, Inr water_row, Inr [],
                     Inr unknown_row, Inr bare_row])"
    by auto
  from 5 6 have count: "length (valid_out st2) - 1 + (length (invalid_out st2) - 1)
       + (length (no_info_out st2) - 1) = length (tl sample_input)"
    by (simp add: input)
  have run: "map_option (\<lambda>(r, st'). (r, valid_out st', invalid_out st', no_info_out st'))
      (process_results lab_env sample_input init_state)
     = Some (Inr (),
         [''canonical_smiles'' # sample_header
            @ [''iupac_resolved'', ''smiles_resolved'', ''inchi_resolved''],
          (''CC(=O)Oc1ccccc1C(=O)O'' # aspirin_row) @ [''Yes'', ''No'', ''No'']],
         [''canonical_smiles'' # sample_header
            @ [''iupac_resolved'', ''smiles_resolved'', ''inchi_resolved''],
          (''O'' # water_row) @ [''Yes'', ''No'', ''No''],
          [''No'', ''No'', ''No''],
          unknown_row @ [''No'', ''No'', ''No'']],
         [take 10 (''canonical_smiles'' # sample_header
                     @ [''iupac_resolved'', ''smiles_resolved'', ''inchi_resolved'']),
          null_row, bare_row])"
    apply (simp add: input process_results_def Let_def lab_runs)
    apply (simp add: write_valid_def write_invalid_def write_no_info_def logging_def
        request_def toolkit_def returns_def init_state_def)
    done
  from 1 2 3 count nofault run show ?thesis
    by (simp add: input del: reader_fault.simps rows_read.simps)
qed

text \<open>
  Claim C1 as stated fails where it says that no row is dropped and that the three
  numbers of data rows add up to the number of input data rows.  \<^verbatim>\<open>for row in reader\<close>
  (line 182) is outside the \<^verbatim>\<open>try\<close> of the row, so an exception of the reader ends
  the run.  Here the third of four records has a field longer than the limit of the
  \<^verbatim>\<open>csv\<close> module: the run ends with \<^verbatim>\<open>csv.Error\<close> after two data rows were written,
  and the record after it, a row for aspirin, reaches none of the three files.
\<close>

theorem reader_exception_ends_run_counterexample:
  "faulty_input = [Inr sample_header, Inr null_row, Inr water_row, Inl csv_Error, Inr aspirin_row]
   \<and> map_option fst (process_results lab_env faulty_input init_state) = Some (Inl csv_Error)
   \<and> map_option (valid_out \<circ> snd) (process_results lab_env faulty_input init_state)
     = Some [''canonical_smiles'' # sample_header
               @ [''iupac_resolved'', ''smiles_resolved'', ''inchi_resolved'']]
   \<and> map_option (invalid_out \<circ> snd) (process_results lab_env faulty_input init_state)
     = Some [''canonical_smiles'' # sample_header
               @ [''iupac_resolved'', ''smiles_resolved'', ''inchi_resolved''],
             (''O'' # water_row) @ [''Yes'', ''No'', ''No'']]
   \<and> map_option (no_info_out \<circ> snd) (process_results lab_env faulty_input init_state)
     = Some [take 10 (''canonical_smiles'' # sample_header
                        @ [''iupac_resolved'', ''smiles_resolved'', ''inchi_resolved'']),
             null_row]"
  apply (simp add: faulty_input_def process_results_def Let_def lab_runs)
  apply (simp add: write_valid_def write_invalid_def write_no_info_def logging_def
      request_def toolkit_def returns_def raises_def init_state_def)
  done

end
